theory Spec2Isabelle
  imports Complex_Main "HOL-Library.Monad_Syntax" "HOL-Library.Multiset"
begin

section \<open>The simulation core of src/app/components/Game.tsx\<close>

text \<open>
  The embedding follows the current version of the component (the first module of
  Game.tsx). JavaScript numbers are modelled by exact reals: rounding of IEEE doubles,
  NaN and the infinities are not part of the model. Quantities that the source only ever
  assigns whole values (upgrade levels, enemy level, score, wave count) are integers.
  A division whose divisor is not a constant goes through \<open>checked_div\<close>, which
  reports a zero divisor as \<open>None\<close>; the functions of a tick propagate it, so a
  result \<open>Some _\<close> says that the tick divided by zero nowhere and read no array cell
  past the end.
\<close>

subsection \<open>Constants\<close>

definition WAVE_SCALING_FACTOR :: real where "WAVE_SCALING_FACTOR = 100"
definition DIFFICULTY_SCALING_FACTOR :: real where "DIFFICULTY_SCALING_FACTOR = 500"
definition SATURATION :: real where "SATURATION = 70"
definition BASE_LIGHTNESS :: real where "BASE_LIGHTNESS = 50"
definition DIFFICULTY_LIGHTNESS_REDUCTION :: real where "DIFFICULTY_LIGHTNESS_REDUCTION = 5"

definition BASE_DRAIN_RATE :: real where "BASE_DRAIN_RATE = 1"
definition DRAIN_RATE_PER_LEVEL :: real where "DRAIN_RATE_PER_LEVEL = 0.5"
definition BLOOD_RECOVERY_MULTIPLIER :: real where "BLOOD_RECOVERY_MULTIPLIER = 0.5"

definition ATTACK_UPGRADE_BASE_COST :: real where "ATTACK_UPGRADE_BASE_COST = 50"
definition DAMAGE_INCREASE_PER_LEVEL :: real where "DAMAGE_INCREASE_PER_LEVEL = 5"
definition ATTACK_RANGE_INCREASE_PER_LEVEL :: real where "ATTACK_RANGE_INCREASE_PER_LEVEL = 20"
definition MOVEMENT_SPEED_INCREASE_PER_LEVEL :: real where "MOVEMENT_SPEED_INCREASE_PER_LEVEL = 0.5"
definition PROJECTILE_DAMAGE_BASE :: real where "PROJECTILE_DAMAGE_BASE = 15"
definition PROJECTILE_DAMAGE_INCREASE_PER_LEVEL :: real where "PROJECTILE_DAMAGE_INCREASE_PER_LEVEL = 5"
definition PROJECTILE_SPEED_PLAYER :: real where "PROJECTILE_SPEED_PLAYER = 8"
definition PROJECTILE_COOLDOWN_BASE :: real where "PROJECTILE_COOLDOWN_BASE = 300"
definition PROJECTILE_COOLDOWN_REDUCTION_PER_LEVEL :: real where "PROJECTILE_COOLDOWN_REDUCTION_PER_LEVEL = 15"
definition PROJECTILE_COOLDOWN_MIN :: real where "PROJECTILE_COOLDOWN_MIN = 100"
definition PROJECTILE_COUNT_BASE :: int where "PROJECTILE_COUNT_BASE = 1"
definition PROJECTILE_COUNT_INCREASE_INTERVAL :: real where "PROJECTILE_COUNT_INCREASE_INTERVAL = 3"
definition PROJECTILE_HOMING_LEVEL :: int where "PROJECTILE_HOMING_LEVEL = 10"
definition PROJECTILE_HOMING_STRENGTH :: real where "PROJECTILE_HOMING_STRENGTH = 0.15"

definition DARKNESS_RISE_SPEED :: real where "DARKNESS_RISE_SPEED = 0.5"
definition DARKNESS_START_OFFSET :: real where "DARKNESS_START_OFFSET = 200"

definition ENEMY_LEVEL_ALTITUDE_INTERVAL :: real where "ENEMY_LEVEL_ALTITUDE_INTERVAL = 500"
definition RANGED_DISTANCE_THRESHOLD :: real where "RANGED_DISTANCE_THRESHOLD = 50"
definition RANGED_ENEMY_SHOOT_COOLDOWN :: real where "RANGED_ENEMY_SHOOT_COOLDOWN = 2000"
definition RANGED_ENEMY_PREFERRED_DISTANCE :: real where "RANGED_ENEMY_PREFERRED_DISTANCE = 200"
definition PROJECTILE_DAMAGE_MULTIPLIER :: real where "PROJECTILE_DAMAGE_MULTIPLIER = 0.5"
definition PROJECTILE_SPEED :: real where "PROJECTILE_SPEED = 3"
definition EXPLOSIVE_EXPLOSION_RADIUS :: real where "EXPLOSIVE_EXPLOSION_RADIUS = 100"
definition EXPLOSIVE_TRIGGER_DISTANCE :: real where "EXPLOSIVE_TRIGGER_DISTANCE = 80"
definition EXPLOSIVE_DAMAGE_MULTIPLIER :: real where "EXPLOSIVE_DAMAGE_MULTIPLIER = 3"
definition CHASER_TRAIL_COOLDOWN :: real where "CHASER_TRAIL_COOLDOWN = 500"
definition CHASER_TRAIL_DAMAGE_MULTIPLIER :: real where "CHASER_TRAIL_DAMAGE_MULTIPLIER = 0.3"
definition CHASER_TRAIL_SPEED_MULTIPLIER :: real where "CHASER_TRAIL_SPEED_MULTIPLIER = 0.5"

definition LEVEL_10_19_MELEE_PROBABILITY :: real where "LEVEL_10_19_MELEE_PROBABILITY = 0.4"
definition LEVEL_10_19_RANGED_PROBABILITY :: real where "LEVEL_10_19_RANGED_PROBABILITY = 0.7"
definition LEVEL_20_PLUS_MELEE_PROBABILITY :: real where "LEVEL_20_PLUS_MELEE_PROBABILITY = 0.3"
definition LEVEL_20_PLUS_RANGED_PROBABILITY :: real where "LEVEL_20_PLUS_RANGED_PROBABILITY = 0.55"
definition LEVEL_20_PLUS_EXPLOSIVE_PROBABILITY :: real where "LEVEL_20_PLUS_EXPLOSIVE_PROBABILITY = 0.8"

lemmas game_constants =
  WAVE_SCALING_FACTOR_def DIFFICULTY_SCALING_FACTOR_def SATURATION_def BASE_LIGHTNESS_def
  DIFFICULTY_LIGHTNESS_REDUCTION_def BASE_DRAIN_RATE_def DRAIN_RATE_PER_LEVEL_def
  BLOOD_RECOVERY_MULTIPLIER_def ATTACK_UPGRADE_BASE_COST_def DAMAGE_INCREASE_PER_LEVEL_def
  ATTACK_RANGE_INCREASE_PER_LEVEL_def MOVEMENT_SPEED_INCREASE_PER_LEVEL_def
  PROJECTILE_DAMAGE_BASE_def PROJECTILE_DAMAGE_INCREASE_PER_LEVEL_def
  PROJECTILE_SPEED_PLAYER_def PROJECTILE_COOLDOWN_BASE_def
  PROJECTILE_COOLDOWN_REDUCTION_PER_LEVEL_def PROJECTILE_COOLDOWN_MIN_def
  PROJECTILE_COUNT_BASE_def PROJECTILE_COUNT_INCREASE_INTERVAL_def PROJECTILE_HOMING_LEVEL_def
  PROJECTILE_HOMING_STRENGTH_def DARKNESS_RISE_SPEED_def DARKNESS_START_OFFSET_def
  ENEMY_LEVEL_ALTITUDE_INTERVAL_def RANGED_DISTANCE_THRESHOLD_def
  RANGED_ENEMY_SHOOT_COOLDOWN_def RANGED_ENEMY_PREFERRED_DISTANCE_def
  PROJECTILE_DAMAGE_MULTIPLIER_def PROJECTILE_SPEED_def EXPLOSIVE_EXPLOSION_RADIUS_def
  EXPLOSIVE_TRIGGER_DISTANCE_def EXPLOSIVE_DAMAGE_MULTIPLIER_def CHASER_TRAIL_COOLDOWN_def
  CHASER_TRAIL_DAMAGE_MULTIPLIER_def CHASER_TRAIL_SPEED_MULTIPLIER_def
  LEVEL_10_19_MELEE_PROBABILITY_def LEVEL_10_19_RANGED_PROBABILITY_def
  LEVEL_20_PLUS_MELEE_PROBABILITY_def LEVEL_20_PLUS_RANGED_PROBABILITY_def
  LEVEL_20_PLUS_EXPLOSIVE_PROBABILITY_def

subsection \<open>Data model\<close>

text \<open>
  The interfaces \<open>Entity\<close>, \<open>Player\<close>, \<open>Enemy\<close> and \<open>Projectile\<close>. An optional field
  (\<open>lastShootTime?: number\<close>) is an \<open>option\<close>, \<open>None\<close> standing for \<open>undefined\<close>.
  Colours are cosmetic: the template string \<open>hsl(h, s%, l%)\<close> is kept as its three
  numbers, a hexadecimal literal as its text.
\<close>

datatype enemy_type = melee | ranged | explosive | chaser

datatype colour = Hsl real real real | Hex string

datatype game_state = start | playing | gameover

record Entity =
  x :: real
  y :: real
  vx :: real
  vy :: real
  radius :: real

record Player = Entity +
  bloodGauge :: real
  attackRadius :: real
  attackDamage :: real
  attackCooldown :: real
  lastAttackTime :: real
  attackLevel :: int
  rangeLevel :: int
  speedLevel :: int
  projectileLevel :: int
  lastProjectileTime :: real
  baseSpeed :: real

record Enemy = Entity +
  health :: real
  maxHealth :: real
  damage :: real
  speed :: real
  color :: colour
  level :: int
  type :: enemy_type
  lastShootTime :: "real option"
  shootCooldown :: "real option"
  preferredDistance :: "real option"
  explosionRadius :: "real option"
  exploded :: "bool option"
  trailCooldown :: "real option"
  lastTrailTime :: "real option"

record Projectile = Entity +
  damage :: real
  color :: colour
  fromPlayer :: "bool option"
  homing :: "bool option"

record Canvas =
  width :: real
  height :: real

text \<open>
  The mutable references of the component that the simulation owns (\<open>playerRef\<close>,
  \<open>enemiesRef\<close>, \<open>projectilesRef\<close>, \<open>cameraYRef\<close>, \<open>lastSpawnTimeRef\<close>,
  \<open>darknessYRef\<close>) and the two pieces of React state it writes (\<open>gameState\<close>,
  and \<open>score\<close> as \<open>scoreState\<close>). The display copies of the gauge and of the four levels
  (\<open>setBloodGauge\<close>, \<open>setAttackLevel\<close>, ...) belong to the presentation layer and
  are left out.
\<close>

record Game =
  playerRef :: Player
  enemiesRef :: "Enemy list"
  projectilesRef :: "Projectile list"
  cameraYRef :: real
  lastSpawnTimeRef :: real
  darknessYRef :: real
  gameState :: game_state
  scoreState :: int

text \<open>The initial value of \<open>playerRef\<close>.\<close>

definition initialPlayer :: Player where
  "initialPlayer =
     \<lparr>x = 0, y = 0, vx = 0, vy = 0, radius = 20,
      bloodGauge = 100, attackRadius = 150, attackDamage = 10, attackCooldown = 500,
      lastAttackTime = 0, attackLevel = 0, rangeLevel = 0, speedLevel = 0,
      projectileLevel = 0, lastProjectileTime = 0, baseSpeed = 5\<rparr>"

subsection \<open>Operators of JavaScript\<close>

definition checked_div :: "real \<Rightarrow> real \<Rightarrow> real option" where
  "checked_div a b = (if b = 0 then None else Some (a / b))"

text \<open>JavaScript's \<open>v || d\<close> on an optional number: \<open>undefined\<close> and \<open>0\<close> are falsy.\<close>

definition or_default :: "real option \<Rightarrow> real \<Rightarrow> real" where
  "or_default v d = (case v of None \<Rightarrow> d | Some r \<Rightarrow> if r = 0 then d else r)"

text \<open>JavaScript's truthiness of an optional boolean: \<open>undefined\<close> is falsy.\<close>

definition truthy :: "bool option \<Rightarrow> bool" where
  "truthy b = (case b of None \<Rightarrow> False | Some v \<Rightarrow> v)"

subsection \<open>Numbers of JavaScript: rounding to binary64\<close>

text \<open>
  A JavaScript number is an IEEE 754 binary64 value, and every arithmetic operation
  returns the exact result rounded to the nearest such value, ties going to the even
  significand. The definitions of the other subsections compute with real numbers,
  which is what the statements about gauges, counts, levels, guards and list positions
  rest on. The speed of a homing projectile is the one quantity here whose exact value
  is decided by the rounding, so for it the operations are modelled as the engine
  performs them.

  \<open>pow2 k\<close> is \<open>2\<close> to the power \<open>k\<close>. \<open>exponent64 v\<close> is the binary exponent of \<open>v\<close>,
  not below \<open>-1022\<close> (the subnormal range shares the exponent \<open>-1022\<close>), so that the
  binary64 values near \<open>v\<close> are the integer multiples of \<open>pow2 (exponent64 v - 52)\<close>.
  \<open>round64 v\<close> is the binary64 value nearest to \<open>v\<close>; it is \<open>None\<close> when that value
  is not finite (the engine returns \<open>Infinity\<close>). The sign of a zero is not kept: the
  code that is modelled with these operations tests a zero only with \<open>> 0\<close> and never
  divides by one.
\<close>

definition pow2 :: "int \<Rightarrow> real" where
  "pow2 k = (if 0 \<le> k then 2 ^ nat k else 1 / 2 ^ nat (- k))"

definition roundHalfEven :: "real \<Rightarrow> int" where
  "roundHalfEven t =
     (let n = \<lfloor>t\<rfloor>
      in if t - of_int n < 1 / 2 then n
         else if 1 / 2 < t - of_int n then n + 1
         else if even n then n else n + 1)"

definition exponent64 :: "real \<Rightarrow> int" where
  "exponent64 v = max \<lfloor>log 2 \<bar>v\<bar>\<rfloor> (- 1022)"

definition round64 :: "real \<Rightarrow> real option" where
  "round64 v =
     (if v = 0 then Some 0
      else let q = pow2 (exponent64 v - 52);
               r = of_int (roundHalfEven (v / q)) * q
           in if \<bar>r\<bar> < 2 ^ 1024 then Some r else None)"

text \<open>
  The operators \<open>+\<close>, \<open>-\<close>, \<open>*\<close>, \<open>/\<close> and \<open>Math.sqrt\<close> on finite numbers. \<open>None\<close>
  stands for a result that is not a finite number: \<open>Infinity\<close> after an overflow or a
  division by zero, \<open>NaN\<close> for \<open>0 / 0\<close> and for the root of a negative number.
  \<open>Math.sqrt\<close> is the correctly rounded square root of IEEE 754, which is what the
  engines compute. \<open>length64 a b\<close> is the expression
  \<open>Math.sqrt(a * a + b * b)\<close>.
\<close>

definition add64 :: "real \<Rightarrow> real \<Rightarrow> real option" where
  "add64 a b = round64 (a + b)"

definition sub64 :: "real \<Rightarrow> real \<Rightarrow> real option" where
  "sub64 a b = round64 (a - b)"

definition mul64 :: "real \<Rightarrow> real \<Rightarrow> real option" where
  "mul64 a b = round64 (a * b)"

definition div64 :: "real \<Rightarrow> real \<Rightarrow> real option" where
  "div64 a b = (if b = 0 then None else round64 (a / b))"

definition sqrt64 :: "real \<Rightarrow> real option" where
  "sqrt64 a = (if a < 0 then None else round64 (sqrt a))"

definition length64 :: "real \<Rightarrow> real \<Rightarrow> real option" where
  "length64 a b =
     do {
       aa \<leftarrow> mul64 a a;
       bb \<leftarrow> mul64 b b;
       s \<leftarrow> add64 aa bb;
       sqrt64 s
     }"

subsection \<open>Upgrades: strengthenAttack, strengthenRange, strengthenSpeed, strengthenProjectile\<close>

definition strengthenAttack :: "Player \<Rightarrow> Player" where
  "strengthenAttack p =
     (let cost = ATTACK_UPGRADE_BASE_COST * (of_int (attackLevel p) + 1) in
      if bloodGauge p \<ge> cost
      then p\<lparr>bloodGauge := bloodGauge p - cost,
             attackLevel := attackLevel p + 1,
             attackDamage := attackDamage p + DAMAGE_INCREASE_PER_LEVEL\<rparr>
      else p)"

definition strengthenRange :: "Player \<Rightarrow> Player" where
  "strengthenRange p =
     (let cost = ATTACK_UPGRADE_BASE_COST * (of_int (rangeLevel p) + 1) in
      if bloodGauge p \<ge> cost
      then p\<lparr>bloodGauge := bloodGauge p - cost,
             rangeLevel := rangeLevel p + 1,
             attackRadius := attackRadius p + ATTACK_RANGE_INCREASE_PER_LEVEL\<rparr>
      else p)"

definition strengthenSpeed :: "Player \<Rightarrow> Player" where
  "strengthenSpeed p =
     (let cost = ATTACK_UPGRADE_BASE_COST * (of_int (speedLevel p) + 1) in
      if bloodGauge p \<ge> cost
      then p\<lparr>bloodGauge := bloodGauge p - cost,
             speedLevel := speedLevel p + 1\<rparr>
      else p)"

definition strengthenProjectile :: "Player \<Rightarrow> Player" where
  "strengthenProjectile p =
     (let cost = ATTACK_UPGRADE_BASE_COST * (of_int (projectileLevel p) + 1) in
      if bloodGauge p \<ge> cost
      then p\<lparr>bloodGauge := bloodGauge p - cost,
             projectileLevel := projectileLevel p + 1\<rparr>
      else p)"

text \<open>The movement speed that \<open>update\<close> derives from the speed track.\<close>

definition moveSpeed :: "Player \<Rightarrow> real" where
  "moveSpeed p = baseSpeed p + of_int (speedLevel p) * MOVEMENT_SPEED_INCREASE_PER_LEVEL"

subsection \<open>The spawn director: spawnEnemyWave\<close>

text \<open>
  \<open>Math.random()\<close> is a stream \<open>rnd\<close> of draws read through a cursor: the
  body of the loop reads \<open>rnd k\<close> for the spawn height, \<open>rnd (k + 1)\<close> for the
  spawn abscissa, one more draw for the type when the level is above 5, then one draw for
  the speed and one for the radius, in the order in which the source calls
  \<open>Math.random()\<close>. \<open>now\<close> is the value of \<open>Date.now()\<close> read while the enemy
  is built. \<open>score\<close> is the value of the React state that the closure sees.
  \<open>spawnEnemy\<close> is the body of the loop and returns the enemy with the next cursor;
  \<open>chooseEnemyType\<close> is its cascade on the level (it returns the type with the
  cursor after its draw, if it made one) and \<open>enemySpeedAndColor\<close> its cascade on
  the type, where \<open>r\<close> is the draw for the speed.
\<close>

definition chooseEnemyType :: "int \<Rightarrow> (nat \<Rightarrow> real) \<Rightarrow> nat \<Rightarrow> enemy_type \<times> nat" where
  "chooseEnemyType enemyLevel rnd k =
     (if enemyLevel \<le> 5 then (melee, k)
      else if enemyLevel \<le> 9 then
        ((if rnd k < 0.5 then melee else ranged), k + 1)
      else if enemyLevel \<le> 19 then
        (let rand = rnd k in
         (if rand < LEVEL_10_19_MELEE_PROBABILITY then melee
          else if rand < LEVEL_10_19_RANGED_PROBABILITY then ranged
          else explosive), k + 1)
      else
        (let rand = rnd k in
         (if rand < LEVEL_20_PLUS_MELEE_PROBABILITY then melee
          else if rand < LEVEL_20_PLUS_RANGED_PROBABILITY then ranged
          else if rand < LEVEL_20_PLUS_EXPLOSIVE_PROBABILITY then explosive
          else chaser), k + 1))"

definition enemySpeedAndColor :: "enemy_type \<Rightarrow> real \<Rightarrow> real \<Rightarrow> real \<times> colour" where
  "enemySpeedAndColor enemyType difficulty r =
     (let lightness = BASE_LIGHTNESS - difficulty * DIFFICULTY_LIGHTNESS_REDUCTION in
      if enemyType = melee then (1 + r * 2 * difficulty, Hsl 0 SATURATION lightness)
      else if enemyType = ranged then (0.8 + r * 1.2 * difficulty, Hsl 240 SATURATION lightness)
      else if enemyType = explosive then (1.5 + r * 2 * difficulty, Hsl 30 SATURATION lightness)
      else (2 + r * 2.5 * difficulty, Hsl 280 SATURATION lightness))"

definition spawnEnemy ::
  "Canvas \<Rightarrow> Player \<Rightarrow> int \<Rightarrow> (nat \<Rightarrow> real) \<Rightarrow> real \<Rightarrow> nat \<Rightarrow> Enemy \<times> nat" where
  "spawnEnemy canvas p score rnd now k =
     (let difficulty = 1 + of_int score / DIFFICULTY_SCALING_FACTOR;
          spawnY = y p - height canvas / 2 - 100 - rnd k * 200;
          spawnX = rnd (k + 1) * width canvas;
          enemyLevel = max 1 (\<lfloor>- spawnY / ENEMY_LEVEL_ALTITUDE_INTERVAL\<rfloor> + 1);
          (enemyType, k2) = chooseEnemyType enemyLevel rnd (k + 2);
          (enemySpeed, enemyColor) = enemySpeedAndColor enemyType difficulty (rnd k2)
      in (\<lparr>x = spawnX, y = spawnY, vx = 0, vy = 0,
           radius = 15 + rnd (k2 + 1) * 5 * difficulty,
           health = 30 * difficulty * of_int enemyLevel,
           maxHealth = 30 * difficulty * of_int enemyLevel,
           damage = 5 * difficulty * of_int enemyLevel,
           speed = enemySpeed,
           color = enemyColor,
           level = enemyLevel,
           type = enemyType,
           lastShootTime = (if enemyType = ranged then Some now else None),
           shootCooldown = (if enemyType = ranged then Some RANGED_ENEMY_SHOOT_COOLDOWN else None),
           preferredDistance =
             (if enemyType = ranged then Some RANGED_ENEMY_PREFERRED_DISTANCE else None),
           explosionRadius =
             (if enemyType = explosive then Some EXPLOSIVE_EXPLOSION_RADIUS else None),
           exploded = (if enemyType = explosive then Some False else None),
           trailCooldown = (if enemyType = chaser then Some CHASER_TRAIL_COOLDOWN else None),
           lastTrailTime = (if enemyType = chaser then Some now else None)\<rparr>,
          k2 + 2))"

text \<open>
  The loop \<open>for (let i = 0; i < waveCount; i++)\<close>, pushing each enemy at the end of
  \<open>enemiesRef.current\<close>; \<open>clock i\<close> is \<open>Date.now()\<close> during iteration \<open>i\<close>.
\<close>

function spawnLoop ::
  "Canvas \<Rightarrow> Player \<Rightarrow> int \<Rightarrow> (nat \<Rightarrow> real) \<Rightarrow> (nat \<Rightarrow> real) \<Rightarrow> int \<Rightarrow> nat \<Rightarrow> nat
    \<Rightarrow> Enemy list \<Rightarrow> Enemy list" where
  "spawnLoop canvas p score rnd clock waveCount i k es =
     (if int i < waveCount
      then (let (e, k') = spawnEnemy canvas p score rnd (clock i) k
            in spawnLoop canvas p score rnd clock waveCount (Suc i) k' (es @ [e]))
      else es)"
  by pat_completeness auto
termination
  by (relation "measure (\<lambda>(canvas, p, score, rnd, clock, waveCount, i, k, es).
        nat (waveCount - int i))") auto

declare spawnLoop.simps [simp del]

text \<open>
  \<open>spawnEnemyWave\<close>: with no canvas (\<open>canvasRef.current\<close> is null) the function
  returns at once and the enemy list is as it was.
\<close>

definition spawnEnemyWave ::
  "Canvas option \<Rightarrow> Player \<Rightarrow> int \<Rightarrow> (nat \<Rightarrow> real) \<Rightarrow> (nat \<Rightarrow> real) \<Rightarrow> Enemy list
    \<Rightarrow> Enemy list" where
  "spawnEnemyWave cv p score rnd clock es =
     (case cv of
        None \<Rightarrow> es
      | Some canvas \<Rightarrow>
          (let altitude = max 0 (- y p);
               minEnemyCount = 1;
               altitudeMultiplier = \<lfloor>altitude / 300\<rfloor>;
               scoreMultiplier = \<lfloor>of_int score / WAVE_SCALING_FACTOR\<rfloor>;
               waveCount = minEnemyCount + altitudeMultiplier + scoreMultiplier
           in spawnLoop canvas p score rnd clock waveCount 0 0 es))"

subsection \<open>Helpers of the tick\<close>

text \<open>
  \<open>splice i xs\<close> is \<open>xs.splice(i, 1)\<close>. \<open>hurt d g\<close> is the recurring pair of
  statements \<open>player.bloodGauge -= d; if (player.bloodGauge <= 0) setGameState('gameover')\<close>.
  \<open>integrate\<close> is \<open>enemy.x += enemy.vx; enemy.y += enemy.vy\<close>.
  \<open>bloodRecovery\<close> is the amount computed where an enemy is defeated.
\<close>

definition splice :: "nat \<Rightarrow> 'a list \<Rightarrow> 'a list" where
  "splice i xs = take i xs @ drop (Suc i) xs"

definition hurt :: "real \<Rightarrow> Game \<Rightarrow> Game" where
  "hurt d g =
     (let player = (playerRef g)\<lparr>bloodGauge := bloodGauge (playerRef g) - d\<rparr>
      in g\<lparr>playerRef := player,
           gameState := (if bloodGauge player \<le> 0 then gameover else gameState g)\<rparr>)"

definition integrate :: "Enemy \<Rightarrow> Enemy" where
  "integrate enemy = enemy\<lparr>x := x enemy + vx enemy, y := y enemy + vy enemy\<rparr>"

definition setEnemy :: "nat \<Rightarrow> Enemy \<Rightarrow> Game \<Rightarrow> Game" where
  "setEnemy i enemy g = g\<lparr>enemiesRef := (enemiesRef g)[i := enemy]\<rparr>"

definition pushProjectile :: "Projectile \<Rightarrow> Game \<Rightarrow> Game" where
  "pushProjectile projectile g = g\<lparr>projectilesRef := projectilesRef g @ [projectile]\<rparr>"

definition bloodRecovery :: "Enemy \<Rightarrow> real" where
  "bloodRecovery enemy =
     (let baseRecovery = 30 * BLOOD_RECOVERY_MULTIPLIER
      in of_int \<lfloor>baseRecovery * of_int (level enemy)\<rfloor>)"

subsection \<open>Directions\<close>

text \<open>
  The three places where the tick normalises the vector between two entities.
  \<open>steerToward\<close> is the steering of an enemy at the player (lines 446-449, and again
  for the ranged, explosive and chaser enemies); \<open>steerAway\<close> is the retreat of a
  ranged enemy. \<open>enemyProjectileVelocity\<close> is the velocity of a projectile fired by a
  ranged enemy or left by a chaser (lines 494-495 and 549-550), \<open>s\<close> being its speed.
  \<open>playerProjectileVelocity\<close> is the aim of a player projectile (lines 365-374).
  \<open>dx\<close>, \<open>dy\<close> and \<open>distance\<close> are the locals of the source.
\<close>

definition steerToward :: "real \<Rightarrow> real \<Rightarrow> real \<Rightarrow> Enemy \<Rightarrow> Enemy option" where
  "steerToward dx dy distance enemy =
     (if distance > 0
      then do {
        ux \<leftarrow> checked_div dx distance;
        uy \<leftarrow> checked_div dy distance;
        Some (enemy\<lparr>vx := ux * speed enemy, vy := uy * speed enemy\<rparr>)
      }
      else Some enemy)"

definition steerAway :: "real \<Rightarrow> real \<Rightarrow> real \<Rightarrow> Enemy \<Rightarrow> Enemy option" where
  "steerAway dx dy distance enemy =
     (if distance > 0
      then do {
        ux \<leftarrow> checked_div dx distance;
        uy \<leftarrow> checked_div dy distance;
        Some (enemy\<lparr>vx := - ux * speed enemy, vy := - uy * speed enemy\<rparr>)
      }
      else Some enemy)"

definition enemyProjectileVelocity :: "real \<Rightarrow> real \<Rightarrow> real \<Rightarrow> real \<Rightarrow> (real \<times> real) option" where
  "enemyProjectileVelocity dx dy distance s =
     do {
       pvx \<leftarrow> (if distance > 0
                then do { ux \<leftarrow> checked_div dx distance; Some (ux * s) }
                else Some 0);
       pvy \<leftarrow> (if distance > 0
                then do { uy \<leftarrow> checked_div dy distance; Some (uy * s) }
                else Some 0);
       Some (pvx, pvy)
     }"

definition playerProjectileVelocity :: "Player \<Rightarrow> real \<times> real \<Rightarrow> (real \<times> real) option" where
  "playerProjectileVelocity player target =
     (let pvx = 0;
          pvy = - PROJECTILE_SPEED_PLAYER;
          dx = fst target - x player;
          dy = snd target - y player;
          distance = sqrt (dx * dx + dy * dy)
      in if distance > 0
         then do {
           ux \<leftarrow> checked_div dx distance;
           uy \<leftarrow> checked_div dy distance;
           Some (ux * PROJECTILE_SPEED_PLAYER, uy * PROJECTILE_SPEED_PLAYER)
         }
         else Some (pvx, pvy))"

subsection \<open>The player's ranged fire\<close>

text \<open>
  Lines 320-392 of \<open>update\<close>. A target is only read through its \<open>x\<close> and \<open>y\<close>
  (the fan of the source casts bare positions to \<open>Enemy\<close>), so a target is a pair.
  \<open>[...enemies].sort(...)\<close> is a stable sort by the distance to the player, as
  \<open>sort_key\<close> is. In \<open>selectTargets\<close>, \<open>n\<close> is the local \<open>projectileCount\<close>
  and \<open>ordered\<close> is \<open>sortedEnemies\<close>; the result is the list \<open>targets\<close> once the
  fan has been added.
\<close>

definition projectileCooldown :: "Player \<Rightarrow> real" where
  "projectileCooldown player =
     max PROJECTILE_COOLDOWN_MIN
       (PROJECTILE_COOLDOWN_BASE
          - (of_int (projectileLevel player) - 1) * PROJECTILE_COOLDOWN_REDUCTION_PER_LEVEL)"

definition projectileCount :: "Player \<Rightarrow> int" where
  "projectileCount player =
     PROJECTILE_COUNT_BASE
       + \<lfloor>(of_int (projectileLevel player) - 1) / PROJECTILE_COUNT_INCREASE_INTERVAL\<rfloor>"

definition sortedEnemies :: "Player \<Rightarrow> Enemy list \<Rightarrow> Enemy list" where
  "sortedEnemies player es =
     sort_key (\<lambda>a. sqrt ((x a - x player) ^ 2 + (y a - y player) ^ 2)) es"

definition selectTargets :: "Player \<Rightarrow> Enemy list \<Rightarrow> ((real \<times> real) list) option" where
  "selectTargets player es =
     (let n = projectileCount player;
          ordered = sortedEnemies player es;
          targets = map (\<lambda>a. (x a, y a)) (take (nat (min n (int (length ordered)))) ordered)
      in if targets = [] \<and> n > 0
         then do {
           angleStep \<leftarrow> checked_div (pi * 2) (of_int (max n 8));
           Some (map (\<lambda>i. let angle = angleStep * of_nat i - pi / 2
                          in (x player + cos angle * 100, y player + sin angle * 100))
                   [0..<nat n])
         }
         else Some targets)"

fun shootAll :: "Player \<Rightarrow> (real \<times> real) list \<Rightarrow> (Projectile list) option" where
  "shootAll player [] = Some []"
| "shootAll player (target # rest) =
     do {
       v \<leftarrow> playerProjectileVelocity player target;
       let projectileDamage = PROJECTILE_DAMAGE_BASE
             + (of_int (projectileLevel player) - 1) * PROJECTILE_DAMAGE_INCREASE_PER_LEVEL;
       let hasHoming = (projectileLevel player \<ge> PROJECTILE_HOMING_LEVEL);
       let projectile =
             \<lparr>x = x player, y = y player, vx = fst v, vy = snd v, radius = 6,
              damage = projectileDamage,
              color = (if hasHoming then Hex ''#ff00ff'' else Hex ''#ffff00''),
              fromPlayer = Some True, homing = Some hasHoming\<rparr>;
       more \<leftarrow> shootAll player rest;
       Some (projectile # more)
     }"

definition shootProjectiles :: "real \<Rightarrow> Game \<Rightarrow> Game option" where
  "shootProjectiles currentTime g =
     (let player = playerRef g in
      if projectileLevel player > 0
      then if currentTime - lastProjectileTime player > projectileCooldown player
           then do {
             targets \<leftarrow> selectTargets player (enemiesRef g);
             shots \<leftarrow> shootAll player targets;
             Some (g\<lparr>projectilesRef := projectilesRef g @ shots,
                     playerRef := player\<lparr>lastProjectileTime := currentTime\<rparr>\<rparr>)
           }
           else Some g
      else Some g)"

subsection \<open>The enemy loop of update\<close>

text \<open>
  Lines 436-573. The loop runs over the indices from the last to the first; its body
  reads \<open>enemies[i]\<close>, mutates that object in place (here: writes the new value back
  at index \<open>i\<close>) and may remove it with \<open>enemies.splice(i, 1)\<close>. One function per
  branch of the dispatch on \<open>enemy.type\<close>; each returns the new state with a flag
  that is true when the branch ended in \<open>continue\<close>, so that the distance check at
  the end of the body is skipped. \<open>currentTime\<close> is the \<open>Date.now()\<close> of line 427.
\<close>

definition updateMelee :: "real \<Rightarrow> nat \<Rightarrow> real \<Rightarrow> real \<Rightarrow> real \<Rightarrow> Game \<Rightarrow> (bool \<times> Game) option" where
  "updateMelee deltaTime i dx dy distance g =
     do {
       e1 \<leftarrow> steerToward dx dy distance (enemiesRef g ! i);
       let enemy = integrate e1;
       let g1 = setEnemy i enemy g;
       let collisionDist = radius (playerRef g1) + radius enemy;
       Some (False,
             if distance < collisionDist
             then hurt (Enemy.damage enemy * (deltaTime / 1000)) g1
             else g1)
     }"

definition updateRanged :: "real \<Rightarrow> nat \<Rightarrow> real \<Rightarrow> real \<Rightarrow> real \<Rightarrow> Game \<Rightarrow> (bool \<times> Game) option" where
  "updateRanged currentTime i dx dy distance g =
     do {
       let enemy0 = enemiesRef g ! i;
       let preferredDist = RANGED_ENEMY_PREFERRED_DISTANCE;
       e1 \<leftarrow> (if distance > preferredDist + RANGED_DISTANCE_THRESHOLD
              then steerToward dx dy distance enemy0
              else if distance < preferredDist - RANGED_DISTANCE_THRESHOLD
              then steerAway dx dy distance enemy0
              else Some (enemy0\<lparr>vx := vx enemy0 * 0.9, vy := vy enemy0 * 0.9\<rparr>));
       let enemy = integrate e1;
       let cooldown = RANGED_ENEMY_SHOOT_COOLDOWN;
       if currentTime - or_default (lastShootTime enemy) 0 > cooldown
       then do {
         v \<leftarrow> enemyProjectileVelocity dx dy distance PROJECTILE_SPEED;
         let projectile =
               \<lparr>x = x enemy, y = y enemy, vx = fst v, vy = snd v, radius = 5,
                damage = Enemy.damage enemy * PROJECTILE_DAMAGE_MULTIPLIER,
                color = Enemy.color enemy, fromPlayer = None, homing = None\<rparr>;
         Some (False,
               setEnemy i (enemy\<lparr>lastShootTime := Some currentTime\<rparr>) (pushProjectile projectile g))
       }
       else Some (False, setEnemy i enemy g)
     }"

definition updateExplosive :: "nat \<Rightarrow> real \<Rightarrow> real \<Rightarrow> real \<Rightarrow> Game \<Rightarrow> (bool \<times> Game) option" where
  "updateExplosive i dx dy distance g =
     (if \<not> truthy (exploded (enemiesRef g ! i))
      then do {
        e1 \<leftarrow> steerToward dx dy distance (enemiesRef g ! i);
        let enemy = integrate e1;
        if distance < EXPLOSIVE_TRIGGER_DISTANCE
        then do {
          let enemy = enemy\<lparr>exploded := Some True\<rparr>;
          let g1 = setEnemy i enemy g;
          let r = or_default (explosionRadius enemy) EXPLOSIVE_EXPLOSION_RADIUS;
          g2 \<leftarrow> (if distance < r
                 then do {
                   q \<leftarrow> checked_div distance r;
                   let damageMultiplier = max 0 (1 - q);
                   Some (hurt (Enemy.damage enemy * EXPLOSIVE_DAMAGE_MULTIPLIER * damageMultiplier) g1)
                 }
                 else Some g1);
          Some (True, g2\<lparr>enemiesRef := splice i (enemiesRef g2)\<rparr>)
        }
        else Some (False, setEnemy i enemy g)
      }
      else Some (False, g))"

definition updateChaser ::
  "real \<Rightarrow> real \<Rightarrow> nat \<Rightarrow> real \<Rightarrow> real \<Rightarrow> real \<Rightarrow> Game \<Rightarrow> (bool \<times> Game) option" where
  "updateChaser currentTime deltaTime i dx dy distance g =
     do {
       e1 \<leftarrow> steerToward dx dy distance (enemiesRef g ! i);
       let enemy = integrate e1;
       let cooldown = or_default (trailCooldown enemy) CHASER_TRAIL_COOLDOWN;
       g1 \<leftarrow> (if currentTime - or_default (lastTrailTime enemy) 0 > cooldown
              then do {
                v \<leftarrow> enemyProjectileVelocity dx dy distance
                       (PROJECTILE_SPEED * CHASER_TRAIL_SPEED_MULTIPLIER);
                let projectile =
                      \<lparr>x = x enemy, y = y enemy, vx = fst v, vy = snd v, radius = 4,
                       damage = Enemy.damage enemy * CHASER_TRAIL_DAMAGE_MULTIPLIER,
                       color = Enemy.color enemy, fromPlayer = None, homing = None\<rparr>;
                Some (setEnemy i (enemy\<lparr>lastTrailTime := Some currentTime\<rparr>)
                        (pushProjectile projectile g))
              }
              else Some (setEnemy i enemy g));
       let collisionDist = radius (playerRef g1) + radius enemy;
       Some (False,
             if distance < collisionDist
             then hurt (Enemy.damage enemy * (deltaTime / 1000)) g1
             else g1)
     }"

text \<open>
  The body of the loop for index \<open>i\<close>. Reading past the end of the array is a fault
  (the source would read a field of \<open>undefined\<close>); the loop never does it.
\<close>

definition updateEnemy :: "Canvas \<Rightarrow> real \<Rightarrow> real \<Rightarrow> nat \<Rightarrow> Game \<Rightarrow> Game option" where
  "updateEnemy canvas currentTime deltaTime i g =
     (if i < length (enemiesRef g)
      then do {
        let player = playerRef g;
        let enemy = enemiesRef g ! i;
        let dx = x player - x enemy;
        let dy = y player - y enemy;
        let distance = sqrt (dx * dx + dy * dy);
        (continued, g1) \<leftarrow>
          (case type enemy of
             melee \<Rightarrow> updateMelee deltaTime i dx dy distance g
           | ranged \<Rightarrow> updateRanged currentTime i dx dy distance g
           | explosive \<Rightarrow> updateExplosive i dx dy distance g
           | chaser \<Rightarrow> updateChaser currentTime deltaTime i dx dy distance g);
        Some (if continued then g1
              else if \<bar>y (enemiesRef g1 ! i) - y (playerRef g1)\<bar> > height canvas * 2
              then g1\<lparr>enemiesRef := splice i (enemiesRef g1)\<rparr>
              else g1)
      }
      else None)"

text \<open>
  \<open>for (let i = enemies.length - 1; i >= 0; i--)\<close>: \<open>updateEnemies ... n g\<close> runs the
  body for the indices \<open>n - 1\<close> down to \<open>0\<close>; the tick calls it with the length of
  the array.
\<close>

fun updateEnemies :: "Canvas \<Rightarrow> real \<Rightarrow> real \<Rightarrow> nat \<Rightarrow> Game \<Rightarrow> Game option" where
  "updateEnemies canvas currentTime deltaTime 0 g = Some g"
| "updateEnemies canvas currentTime deltaTime (Suc i) g =
     do {
       g1 \<leftarrow> updateEnemy canvas currentTime deltaTime i g;
       updateEnemies canvas currentTime deltaTime i g1
     }"

subsection \<open>The projectile loop of update\<close>

text \<open>
  Lines 576-670. \<open>nearestScan\<close> is the search for the nearest enemy: \<open>best\<close> holds
  \<open>nearestEnemy\<close> with \<open>nearestDistance\<close>, and \<open>None\<close> is the initial pair of
  \<open>null\<close> and \<open>Infinity\<close>. \<open>homingStep\<close> is the steering of a homing projectile
  (lines 580-618), computed with real numbers like the rest of the tick; \<open>homingStep64\<close>
  below is the same code on binary64 numbers.
\<close>

fun nearestScan :: "Projectile \<Rightarrow> Enemy list \<Rightarrow> (Enemy \<times> real) option \<Rightarrow> (Enemy \<times> real) option" where
  "nearestScan projectile [] best = best"
| "nearestScan projectile (enemy # rest) best =
     (let dx = x enemy - x projectile;
          dy = y enemy - y projectile;
          distance = sqrt (dx * dx + dy * dy)
      in nearestScan projectile rest
           (case best of
              None \<Rightarrow> Some (enemy, distance)
            | Some (nearestEnemy, nearestDistance) \<Rightarrow>
                if distance < nearestDistance then Some (enemy, distance) else best))"

definition homingStep :: "Enemy list \<Rightarrow> Projectile \<Rightarrow> Projectile option" where
  "homingStep es projectile =
     (case nearestScan projectile es None of
        None \<Rightarrow> Some projectile
      | Some (nearestEnemy, nearestDistance) \<Rightarrow>
          (let dx = x nearestEnemy - x projectile;
               dy = y nearestEnemy - y projectile;
               distance = sqrt (dx * dx + dy * dy)
           in if distance > 0
              then do {
                ux \<leftarrow> checked_div dx distance;
                uy \<leftarrow> checked_div dy distance;
                let desiredVx = ux * PROJECTILE_SPEED_PLAYER;
                let desiredVy = uy * PROJECTILE_SPEED_PLAYER;
                let vx1 = vx projectile + (desiredVx - vx projectile) * PROJECTILE_HOMING_STRENGTH;
                let vy1 = vy projectile + (desiredVy - vy projectile) * PROJECTILE_HOMING_STRENGTH;
                let speedNow = sqrt (vx1 * vx1 + vy1 * vy1);
                if speedNow > 0
                then do {
                  wx \<leftarrow> checked_div vx1 speedNow;
                  wy \<leftarrow> checked_div vy1 speedNow;
                  Some (projectile\<lparr>vx := wx * PROJECTILE_SPEED_PLAYER,
                                    vy := wy * PROJECTILE_SPEED_PLAYER\<rparr>)
                }
                else Some (projectile\<lparr>vx := vx1, vy := vy1\<rparr>)
              }
              else Some projectile))"

text \<open>
  \<open>findHit projectile es n\<close> is the inner loop
  \<open>for (let j = enemies.length - 1; j >= 0; j--)\<close> up to its \<open>break\<close>: the largest
  index below \<open>n\<close> whose enemy overlaps the projectile.
\<close>

fun findHit :: "Projectile \<Rightarrow> Enemy list \<Rightarrow> nat \<Rightarrow> nat option" where
  "findHit projectile es 0 = None"
| "findHit projectile es (Suc j) =
     (let enemy = es ! j;
          dx = x enemy - x projectile;
          dy = y enemy - y projectile;
          distance = sqrt (dx * dx + dy * dy)
      in if distance < radius enemy + radius projectile then Some j
         else findHit projectile es j)"

text \<open>The statements run on the enemy at index \<open>j\<close> that a player projectile hits.\<close>

definition hitEnemy :: "Projectile \<Rightarrow> nat \<Rightarrow> Game \<Rightarrow> Game" where
  "hitEnemy projectile j g =
     (let enemy = (enemiesRef g ! j)\<lparr>health := health (enemiesRef g ! j) - Projectile.damage projectile\<rparr>;
          g1 = setEnemy j enemy g
      in if health enemy \<le> 0
         then g1\<lparr>playerRef := (playerRef g1)\<lparr>bloodGauge := bloodGauge (playerRef g1) + bloodRecovery enemy\<rparr>,
                 enemiesRef := splice j (enemiesRef g1)\<rparr>
         else g1)"

definition updateProjectile :: "Canvas \<Rightarrow> nat \<Rightarrow> Game \<Rightarrow> Game option" where
  "updateProjectile canvas i g =
     (if i < length (projectilesRef g)
      then do {
        let player = playerRef g;
        let p0 = projectilesRef g ! i;
        p1 \<leftarrow> (if truthy (fromPlayer p0) \<and> truthy (homing p0)
               then homingStep (enemiesRef g) p0
               else Some p0);
        let projectile = p1\<lparr>x := x p1 + vx p1, y := y p1 + vy p1\<rparr>;
        let g1 = g\<lparr>projectilesRef := (projectilesRef g)[i := projectile]\<rparr>;
        let cull = (\<lambda>g2. if \<bar>y projectile - y player\<bar> > height canvas * 2
                          then g2\<lparr>projectilesRef := splice i (projectilesRef g2)\<rparr>
                          else g2);
        if truthy (fromPlayer projectile)
        then (case findHit projectile (enemiesRef g1) (length (enemiesRef g1)) of
                Some j \<Rightarrow>
                  (let g2 = hitEnemy projectile j g1
                   in Some (g2\<lparr>projectilesRef := splice i (projectilesRef g2)\<rparr>))
              | None \<Rightarrow> Some (cull g1))
        else
          (let dx = x player - x projectile;
               dy = y player - y projectile;
               distance = sqrt (dx * dx + dy * dy)
           in if distance < radius player + radius projectile
              then (let g2 = hurt (Projectile.damage projectile) g1
                    in Some (g2\<lparr>projectilesRef := splice i (projectilesRef g2)\<rparr>))
              else Some (cull g1))
      }
      else None)"

fun updateProjectiles :: "Canvas \<Rightarrow> nat \<Rightarrow> Game \<Rightarrow> Game option" where
  "updateProjectiles canvas 0 g = Some g"
| "updateProjectiles canvas (Suc i) g =
     do {
       g1 \<leftarrow> updateProjectile canvas i g;
       updateProjectiles canvas i g1
     }"

subsection \<open>The homing step on binary64 numbers\<close>

text \<open>
  Lines 579-618 once more, every operation rounded. \<open>nearestScan64\<close> is the search
  for the nearest enemy, comparing the rounded distances; \<open>homingStep64\<close> is the
  steering. The literal \<open>0.15\<close> of \<open>PROJECTILE_HOMING_STRENGTH\<close> denotes the nearest
  binary64 value, \<open>strength\<close>; the speed \<open>8\<close> is a binary64 value itself. The result is
  \<open>None\<close> when an intermediate result is not a finite number.
\<close>

fun nearestScan64 :: "Projectile \<Rightarrow> Enemy list \<Rightarrow> (Enemy \<times> real) option \<Rightarrow> (Enemy \<times> real) option option" where
  "nearestScan64 projectile [] best = Some best"
| "nearestScan64 projectile (enemy # rest) best =
     do {
       dx \<leftarrow> sub64 (x enemy) (x projectile);
       dy \<leftarrow> sub64 (y enemy) (y projectile);
       distance \<leftarrow> length64 dx dy;
       nearestScan64 projectile rest
         (case best of
            None \<Rightarrow> Some (enemy, distance)
          | Some (nearestEnemy, nearestDistance) \<Rightarrow>
              if distance < nearestDistance then Some (enemy, distance) else best)
     }"

definition homingStep64 :: "Enemy list \<Rightarrow> Projectile \<Rightarrow> Projectile option" where
  "homingStep64 es projectile =
     do {
       best \<leftarrow> nearestScan64 projectile es None;
       (case best of
          None \<Rightarrow> Some projectile
        | Some (nearestEnemy, nearestDistance) \<Rightarrow>
            do {
              dx \<leftarrow> sub64 (x nearestEnemy) (x projectile);
              dy \<leftarrow> sub64 (y nearestEnemy) (y projectile);
              distance \<leftarrow> length64 dx dy;
              if distance > 0
              then do {
                ux \<leftarrow> div64 dx distance;
                desiredVx \<leftarrow> mul64 ux PROJECTILE_SPEED_PLAYER;
                uy \<leftarrow> div64 dy distance;
                desiredVy \<leftarrow> mul64 uy PROJECTILE_SPEED_PLAYER;
                strength \<leftarrow> round64 PROJECTILE_HOMING_STRENGTH;
                ex \<leftarrow> sub64 desiredVx (vx projectile);
                sx \<leftarrow> mul64 ex strength;
                vx1 \<leftarrow> add64 (vx projectile) sx;
                ey \<leftarrow> sub64 desiredVy (vy projectile);
                sy \<leftarrow> mul64 ey strength;
                vy1 \<leftarrow> add64 (vy projectile) sy;
                speedNow \<leftarrow> length64 vx1 vy1;
                if speedNow > 0
                then do {
                  wx \<leftarrow> div64 vx1 speedNow;
                  vx2 \<leftarrow> mul64 wx PROJECTILE_SPEED_PLAYER;
                  wy \<leftarrow> div64 vy1 speedNow;
                  vy2 \<leftarrow> mul64 wy PROJECTILE_SPEED_PLAYER;
                  Some (projectile\<lparr>vx := vx2, vy := vy2\<rparr>)
                }
                else Some (projectile\<lparr>vx := vx1, vy := vy1\<rparr>)
              }
              else Some projectile
            })
     }"

subsection \<open>The player's auto-attack\<close>

text \<open>
  Lines 672-696. \<open>for (const enemy of enemies)\<close> walks the array through an iterator
  that holds an index: each step compares the index with the current length of the array,
  reads the element at the index and advances by one, whatever the body removed.
  \<open>autoAttackLoop k g\<close> is the rest of the loop when the iterator stands at index
  \<open>k\<close>. Every enemy object is stored once in the array (the spawn pushes a fresh object
  for each enemy and nothing stores one twice), so \<open>enemies.indexOf(enemy)\<close> is the
  index \<open>k\<close> at which the iterator read the enemy and is never \<open>-1\<close>.
\<close>

function autoAttackLoop :: "nat \<Rightarrow> Game \<Rightarrow> Game" where
  "autoAttackLoop k g =
     (if k < length (enemiesRef g)
      then (let player = playerRef g;
                enemy0 = enemiesRef g ! k;
                dx = x player - x enemy0;
                dy = y player - y enemy0;
                distance = sqrt (dx * dx + dy * dy)
            in if distance < attackRadius player
               then (let enemy = enemy0\<lparr>health := health enemy0 - attackDamage player\<rparr>;
                         g1 = setEnemy k enemy g
                     in if health enemy \<le> 0
                        then (let index = k
                              in autoAttackLoop (Suc k)
                                   (g1\<lparr>playerRef := player\<lparr>bloodGauge := bloodGauge player + bloodRecovery enemy\<rparr>,
                                       enemiesRef := splice index (enemiesRef g1)\<rparr>))
                        else autoAttackLoop (Suc k) g1)
               else autoAttackLoop (Suc k) g)
      else g)"
  by pat_completeness auto
termination
  by (relation "measure (\<lambda>(k, g). length (enemiesRef g) - k)")
    (auto simp: setEnemy_def splice_def)

declare autoAttackLoop.simps [simp del]

definition autoAttack :: "real \<Rightarrow> Game \<Rightarrow> Game" where
  "autoAttack currentTime g =
     (if currentTime - lastAttackTime (playerRef g) > attackCooldown (playerRef g)
      then (let g1 = autoAttackLoop 0 g
            in g1\<lparr>playerRef := (playerRef g1)\<lparr>lastAttackTime := currentTime\<rparr>\<rparr>)
      else g)"

subsection \<open>One tick: update\<close>

text \<open>
  What a tick reads from outside the simulation: the canvas, the keys held, whether a
  touch is in progress, the three readings of \<open>Date.now()\<close> (in the shooting block, at
  line 427, and while enemy \<open>i\<close> of a wave is built), the stream of random draws of a
  wave, and the value of \<open>score\<close> that the closure of \<open>spawnEnemyWave\<close> sees.
\<close>

record Env =
  canvasRef :: "Canvas option"
  keysRef :: "string set"
  touchStartRef :: "(real \<times> real) option"
  nowShoot :: real
  nowTick :: real
  nowSpawn :: "nat \<Rightarrow> real"
  random :: "nat \<Rightarrow> real"
  closureScore :: int

definition handleKeys :: "Env \<Rightarrow> Player \<Rightarrow> Player" where
  "handleKeys env player =
     (let speedNow = moveSpeed player;
          p1 = (if ''ArrowLeft'' \<in> keysRef env then player\<lparr>vx := - speedNow\<rparr>
                else if ''ArrowRight'' \<in> keysRef env then player\<lparr>vx := speedNow\<rparr>
                else if touchStartRef env = None then player\<lparr>vx := 0\<rparr>
                else player)
      in if ''ArrowUp'' \<in> keysRef env then p1\<lparr>vy := - speedNow\<rparr>
         else if ''ArrowDown'' \<in> keysRef env then p1\<lparr>vy := speedNow\<rparr>
         else if touchStartRef env = None then p1\<lparr>vy := 0\<rparr>
         else p1)"

definition movePlayer :: "Canvas \<Rightarrow> Player \<Rightarrow> Player" where
  "movePlayer canvas player =
     (let p1 = player\<lparr>x := x player + vx player, y := y player + vy player\<rparr>;
          p2 = p1\<lparr>x := max (radius p1) (min (width canvas - radius p1) (x p1))\<rparr>
      in p2\<lparr>y := min (height canvas - radius p2) (y p2)\<rparr>)"

text \<open>
  The stages of \<open>update\<close> that are straight-line code: \<open>drainGauge\<close> is lines
  301-303, \<open>advancePlayer\<close> lines 394-407 (the player moves and is kept in bounds, the
  camera follows, the darkness rises) and \<open>spawnIfDue\<close> lines 426-431.
\<close>

definition drainGauge :: "real \<Rightarrow> Game \<Rightarrow> Game" where
  "drainGauge deltaTime g =
     (let drainRate = BASE_DRAIN_RATE
            + of_int (attackLevel (playerRef g)) * DRAIN_RATE_PER_LEVEL
      in g\<lparr>playerRef := (playerRef g)\<lparr>bloodGauge :=
             bloodGauge (playerRef g) - drainRate * (deltaTime / 1000)\<rparr>\<rparr>)"

definition advancePlayer :: "Canvas \<Rightarrow> Game \<Rightarrow> Game" where
  "advancePlayer canvas g =
     (let g1 = g\<lparr>playerRef := movePlayer canvas (playerRef g)\<rparr>;
          g2 = g1\<lparr>cameraYRef := y (playerRef g1) - height canvas / 2\<rparr>
      in g2\<lparr>darknessYRef := darknessYRef g2 - DARKNESS_RISE_SPEED\<rparr>)"

definition spawnIfDue :: "Env \<Rightarrow> real \<Rightarrow> Game \<Rightarrow> Game" where
  "spawnIfDue env currentTime g =
     (if currentTime - lastSpawnTimeRef g > 2000
      then g\<lparr>enemiesRef :=
               spawnEnemyWave (canvasRef env) (playerRef g) (closureScore env) (random env)
                 (nowSpawn env) (enemiesRef g),
             lastSpawnTimeRef := currentTime\<rparr>
      else g)"

text \<open>
  \<open>update\<close>: it returns at once without a canvas, and after the drain or after the
  rise of the darkness when the run is over.
\<close>

definition update :: "Env \<Rightarrow> real \<Rightarrow> Game \<Rightarrow> Game option" where
  "update env deltaTime g =
     (case canvasRef env of
        None \<Rightarrow> Some g
      | Some canvas \<Rightarrow>
          (let g1 = drainGauge deltaTime g
           in if bloodGauge (playerRef g1) \<le> 0
              then Some (g1\<lparr>gameState := gameover\<rparr>)
              else do {
                g3 \<leftarrow> shootProjectiles (nowShoot env)
                        (g1\<lparr>playerRef := handleKeys env (playerRef g1)\<rparr>);
                let g4 = advancePlayer canvas g3;
                if y (playerRef g4) \<ge> darknessYRef g4
                then Some (g4\<lparr>gameState := gameover\<rparr>)
                else do {
                  let newScore = max 0 \<lfloor>- cameraYRef g4 / 10\<rfloor>;
                  let g5 = g4\<lparr>scoreState := newScore\<rparr>;
                  let currentTime = nowTick env;
                  let g6 = spawnIfDue env currentTime g5;
                  g7 \<leftarrow> updateEnemies canvas currentTime deltaTime (length (enemiesRef g6)) g6;
                  g8 \<leftarrow> updateProjectiles canvas (length (projectilesRef g7)) g7;
                  Some (autoAttack currentTime g8)
                }
              }))"

subsection \<open>The gauge bar of render\<close>

text \<open>Line 947 of \<open>render\<close>: the fraction of the health bar that is filled.\<close>

definition BLOOD_GAUGE_DISPLAY_REFERENCE :: real where "BLOOD_GAUGE_DISPLAY_REFERENCE = 100"

definition healthPercent :: "Player \<Rightarrow> real" where
  "healthPercent player = min 1 (bloodGauge player / BLOOD_GAUGE_DISPLAY_REFERENCE)"

subsection \<open>Notions used in the statements\<close>

text \<open>
  \<open>inAttackRadius\<close> is the test \<open>distance < player.attackRadius\<close> of the
  auto-attack, \<open>struck\<close> the enemy after \<open>enemy.health -= player.attackDamage\<close>.
  \<open>enemyAt\<close> is an enemy of level 1 as the spawn builds it at score 0 when every draw
  is 0 (apart from its speed, which is 1 for every type here), placed at a chosen
  position; \<open>shotAt\<close> is a projectile of the player at projectile level 1, flying
  straight up from a chosen position; \<open>gameWith\<close> is a running game with the initial
  player and the given enemies. They serve as concrete states.
\<close>

definition inAttackRadius :: "Player \<Rightarrow> Enemy \<Rightarrow> bool" where
  "inAttackRadius player enemy =
     (sqrt ((x player - x enemy) * (x player - x enemy)
          + (y player - y enemy) * (y player - y enemy)) < attackRadius player)"

definition struck :: "Player \<Rightarrow> Enemy \<Rightarrow> Enemy" where
  "struck player enemy = enemy\<lparr>health := health enemy - attackDamage player\<rparr>"

text \<open>
  \<open>asSpawned\<close>: the fields of an explosive enemy that the explosion reads have the
  values that \<open>spawnEnemyWave\<close> gave them.
\<close>

definition asSpawned :: "Enemy \<Rightarrow> bool" where
  "asSpawned enemy =
     (type enemy = explosive \<longrightarrow>
        exploded enemy = Some False \<and> explosionRadius enemy = Some EXPLOSIVE_EXPLOSION_RADIUS)"

definition enemyAt :: "enemy_type \<Rightarrow> real \<Rightarrow> real \<Rightarrow> Enemy" where
  "enemyAt t ex ey =
     \<lparr>x = ex, y = ey, vx = 0, vy = 0, radius = 15,
      health = 30, maxHealth = 30, damage = 5, speed = 1,
      color = Hsl 0 70 45, level = 1, type = t,
      lastShootTime = (if t = ranged then Some 0 else None),
      shootCooldown = (if t = ranged then Some 2000 else None),
      preferredDistance = (if t = ranged then Some 200 else None),
      explosionRadius = (if t = explosive then Some 100 else None),
      exploded = (if t = explosive then Some False else None),
      trailCooldown = (if t = chaser then Some 500 else None),
      lastTrailTime = (if t = chaser then Some 0 else None)\<rparr>"

definition shotAt :: "real \<Rightarrow> real \<Rightarrow> Projectile" where
  "shotAt px py =
     \<lparr>x = px, y = py, vx = 0, vy = - 8, radius = 6, damage = 15, color = Hex ''#ffff00'',
      fromPlayer = Some True, homing = Some False\<rparr>"

definition gameWith :: "Enemy list \<Rightarrow> Game" where
  "gameWith es =
     \<lparr>playerRef = initialPlayer, enemiesRef = es, projectilesRef = [],
      cameraYRef = 0, lastSpawnTimeRef = 0, darknessYRef = 200,
      gameState = playing, scoreState = 0\<rparr>"

text \<open>
  \<open>quietEnv\<close>: a canvas of 800 by 600, no key held and no touch, every clock reading
  501 ms, every random draw 0.
\<close>

definition quietEnv :: Env where
  "quietEnv =
     \<lparr>canvasRef = Some \<lparr>width = 800, height = 600\<rparr>, keysRef = {}, touchStartRef = None,
      nowShoot = 501, nowTick = 501, nowSpawn = (\<lambda>i. 501), random = (\<lambda>k. 0),
      closureScore = 0\<rparr>"

text \<open>
  \<open>inRange64\<close>: the offsets from the projectile to the enemy are at most \<open>2^400\<close> in
  magnitude, so that their squares do not overflow in binary64. The coordinates of the
  game, canvas positions and altitudes, are far inside this range.
\<close>

definition inRange64 :: "Projectile \<Rightarrow> Enemy \<Rightarrow> bool" where
  "inRange64 projectile enemy =
     (\<bar>x enemy - x projectile\<bar> \<le> 2 ^ 400 \<and> \<bar>y enemy - y projectile\<bar> \<le> 2 ^ 400)"

section \<open>Theorems\<close>

subsection \<open>Upgrades\<close>

text \<open>
  Claim C1. For every player state and each of the four upgrade tracks, the upgrade
  takes effect (the level of its track goes up by one) exactly when the blood gauge is at
  least 50 times the current level of that track plus one. When it does, the gauge drops
  by exactly that cost, the level rises by exactly one, the per-level effect is applied
  (attack damage +5, attack radius +20, movement speed +0.5; the projectile track only
  raises its level) and every other field of the player keeps its value. When the gauge
  is too low the player is returned unchanged.
\<close>

theorem upgrade_affordability:
  "(attackLevel (strengthenAttack p) = attackLevel p + 1
      \<longleftrightarrow> bloodGauge p \<ge> 50 * (of_int (attackLevel p) + 1))
 \<and> (rangeLevel (strengthenRange p) = rangeLevel p + 1
      \<longleftrightarrow> bloodGauge p \<ge> 50 * (of_int (rangeLevel p) + 1))
 \<and> (speedLevel (strengthenSpeed p) = speedLevel p + 1
      \<longleftrightarrow> bloodGauge p \<ge> 50 * (of_int (speedLevel p) + 1))
 \<and> (projectileLevel (strengthenProjectile p) = projectileLevel p + 1
      \<longleftrightarrow> bloodGauge p \<ge> 50 * (of_int (projectileLevel p) + 1))
 \<and> (bloodGauge p \<ge> 50 * (of_int (attackLevel p) + 1) \<longrightarrow>
        strengthenAttack p =
          p\<lparr>bloodGauge := bloodGauge p - 50 * (of_int (attackLevel p) + 1),
            attackLevel := attackLevel p + 1,
            attackDamage := attackDamage p + 5\<rparr>)
 \<and> (bloodGauge p \<ge> 50 * (of_int (rangeLevel p) + 1) \<longrightarrow>
        strengthenRange p =
          p\<lparr>bloodGauge := bloodGauge p - 50 * (of_int (rangeLevel p) + 1),
            rangeLevel := rangeLevel p + 1,
            attackRadius := attackRadius p + 20\<rparr>)
 \<and> (bloodGauge p \<ge> 50 * (of_int (speedLevel p) + 1) \<longrightarrow>
        strengthenSpeed p =
          p\<lparr>bloodGauge := bloodGauge p - 50 * (of_int (speedLevel p) + 1),
            speedLevel := speedLevel p + 1\<rparr>
      \<and> moveSpeed (strengthenSpeed p) = moveSpeed p + 0.5)
 \<and> (bloodGauge p \<ge> 50 * (of_int (projectileLevel p) + 1) \<longrightarrow>
        strengthenProjectile p =
          p\<lparr>bloodGauge := bloodGauge p - 50 * (of_int (projectileLevel p) + 1),
            projectileLevel := projectileLevel p + 1\<rparr>)
 \<and> (bloodGauge p < 50 * (of_int (attackLevel p) + 1) \<longrightarrow> strengthenAttack p = p)
 \<and> (bloodGauge p < 50 * (of_int (rangeLevel p) + 1) \<longrightarrow> strengthenRange p = p)
 \<and> (bloodGauge p < 50 * (of_int (speedLevel p) + 1) \<longrightarrow> strengthenSpeed p = p)
 \<and> (bloodGauge p < 50 * (of_int (projectileLevel p) + 1) \<longrightarrow> strengthenProjectile p = p)"
  by (simp add: strengthenAttack_def strengthenRange_def strengthenSpeed_def
      strengthenProjectile_def moveSpeed_def game_constants Let_def algebra_simps)

text \<open>
  The initial player (gauge 100, all levels 0, cost 50) can afford each upgrade; with
  the gauge at 49 it can afford none and is returned as it was.
\<close>

theorem upgrade_affordability_witness:
  "bloodGauge initialPlayer \<ge> 50 * (of_int (attackLevel initialPlayer) + 1)
 \<and> strengthenAttack initialPlayer =
      initialPlayer\<lparr>bloodGauge := 50, attackLevel := 1, attackDamage := 15\<rparr>
 \<and> strengthenRange initialPlayer =
      initialPlayer\<lparr>bloodGauge := 50, rangeLevel := 1, attackRadius := 170\<rparr>
 \<and> strengthenSpeed initialPlayer = initialPlayer\<lparr>bloodGauge := 50, speedLevel := 1\<rparr>
 \<and> strengthenProjectile initialPlayer =
      initialPlayer\<lparr>bloodGauge := 50, projectileLevel := 1\<rparr>
 \<and> bloodGauge (initialPlayer\<lparr>bloodGauge := 49\<rparr>)
      < 50 * (of_int (attackLevel (initialPlayer\<lparr>bloodGauge := 49\<rparr>)) + 1)
 \<and> strengthenAttack (initialPlayer\<lparr>bloodGauge := 49\<rparr>) = initialPlayer\<lparr>bloodGauge := 49\<rparr>
 \<and> strengthenRange (initialPlayer\<lparr>bloodGauge := 49\<rparr>) = initialPlayer\<lparr>bloodGauge := 49\<rparr>
 \<and> strengthenSpeed (initialPlayer\<lparr>bloodGauge := 49\<rparr>) = initialPlayer\<lparr>bloodGauge := 49\<rparr>
 \<and> strengthenProjectile (initialPlayer\<lparr>bloodGauge := 49\<rparr>)
      = initialPlayer\<lparr>bloodGauge := 49\<rparr>"
  using upgrade_affordability [of initialPlayer]
    upgrade_affordability [of "initialPlayer\<lparr>bloodGauge := 49\<rparr>"]
  by (simp add: initialPlayer_def)

subsection \<open>The spawn director\<close>

lemma spawnEnemy_level:
  "level (fst (spawnEnemy canvas p score rnd now k)) =
     max 1 (\<lfloor>- y (fst (spawnEnemy canvas p score rnd now k)) / 500\<rfloor> + 1)"
  by (simp only: spawnEnemy_def Let_def split_def fst_conv Enemy.select_convs
      Entity.select_convs ENEMY_LEVEL_ALTITUDE_INTERVAL_def)

lemma spawnEnemy_y:
  "y (fst (spawnEnemy canvas p score rnd now k)) = y p - height canvas / 2 - 100 - rnd k * 200"
  by (simp only: spawnEnemy_def Let_def split_def fst_conv Enemy.select_convs
      Entity.select_convs)

text \<open>
  The loop only appends: it leaves the enemies already in the list where they are and
  adds one enemy for each remaining value of the counter. Any property of the enemies
  that the body builds holds of all the enemies added.
\<close>

lemma spawnLoop_appends:
  assumes Q: "\<And>now k. Q (fst (spawnEnemy canvas p score rnd now k))"
  shows "\<exists>new. spawnLoop canvas p score rnd clock waveCount i k es = es @ new
     \<and> length new = nat (waveCount - int i) \<and> list_all Q new"
  using Q
proof (induction canvas p score rnd clock waveCount i k es rule: spawnLoop.induct)
  case (1 canvas p score rnd clock waveCount i k es)
  show ?case
  proof (cases "int i < waveCount")
    case False
    then show ?thesis
      by (simp add: spawnLoop.simps [of canvas p score rnd clock waveCount i k es])
  next
    case True
    obtain e k' where ek: "spawnEnemy canvas p score rnd (clock i) k = (e, k')"
      by (cases "spawnEnemy canvas p score rnd (clock i) k")
    from "1.IH" [OF True ek [symmetric] refl] "1.prems"
    obtain new where new:
      "spawnLoop canvas p score rnd clock waveCount (Suc i) k' (es @ [e]) = (es @ [e]) @ new"
      "length new = nat (waveCount - int (Suc i))" "list_all Q new"
      by blast
    have qe: "Q e"
      using "1.prems" [of "clock i" k] ek by simp
    have "spawnLoop canvas p score rnd clock waveCount i k es = es @ (e # new)"
      using True ek new(1)
      by (simp add: spawnLoop.simps [of canvas p score rnd clock waveCount i k es])
    moreover have "length (e # new) = nat (waveCount - int i)"
      using True new(2) by simp
    moreover have "list_all Q (e # new)"
      using qe new(3) by simp
    ultimately show ?thesis by blast
  qed
qed

lemma spawnEnemyWave_appends:
  assumes Q: "\<And>now k. Q (fst (spawnEnemy canvas p score rnd now k))"
  shows "\<exists>new. spawnEnemyWave (Some canvas) p score rnd clock es = es @ new
     \<and> length new = nat (1 + \<lfloor>max 0 (- y p) / 300\<rfloor> + \<lfloor>real_of_int score / 100\<rfloor>)
     \<and> list_all Q new"
  using spawnLoop_appends [of Q canvas p score rnd clock
      "1 + \<lfloor>max 0 (- y p) / 300\<rfloor> + \<lfloor>real_of_int score / 100\<rfloor>" 0 0 es, OF Q]
  by (simp add: spawnEnemyWave_def Let_def WAVE_SCALING_FACTOR_def)

lemma spawnEnemyWave_length:
  "length (spawnEnemyWave (Some canvas) p score rnd clock es) =
     length es + nat (1 + \<lfloor>max 0 (- y p) / 300\<rfloor> + \<lfloor>real_of_int score / 100\<rfloor>)"
  using spawnEnemyWave_appends [of "\<lambda>e. True" canvas p score rnd clock es] by auto

text \<open>
  Claim C3, as amended. For every call that finds the canvas, \<open>spawnEnemyWave\<close> keeps
  the enemies already present and appends exactly
  \<open>1 + floor(altitude / 300) + floor(score / 100)\<close> new ones, where
  \<open>altitude = max(0, -playerY)\<close> at call time (the minimum of one enemy is added to
  the two terms, it is not their lower bound); with a score that is not negative this
  is at least one enemy. A call that finds no canvas returns with the list unchanged.
\<close>

theorem spawnEnemyWave_count:
  "length (spawnEnemyWave (Some canvas) p score rnd clock es) =
     length es + nat (1 + \<lfloor>max 0 (- y p) / 300\<rfloor> + \<lfloor>real_of_int score / 100\<rfloor>)
   \<and> take (length es) (spawnEnemyWave (Some canvas) p score rnd clock es) = es
   \<and> (0 \<le> score \<longrightarrow>
        length es + 1 \<le> length (spawnEnemyWave (Some canvas) p score rnd clock es))
   \<and> spawnEnemyWave None p score rnd clock es = es"
proof -
  obtain new where new: "spawnEnemyWave (Some canvas) p score rnd clock es = es @ new"
    "length new = nat (1 + \<lfloor>max 0 (- y p) / 300\<rfloor> + \<lfloor>real_of_int score / 100\<rfloor>)"
    using spawnEnemyWave_appends [of "\<lambda>e. True" canvas p score rnd clock es] by auto
  have a: "(0::int) \<le> \<lfloor>max 0 (- y p) / 300\<rfloor>" by simp
  have b: "0 \<le> score \<Longrightarrow> (0::int) \<le> \<lfloor>real_of_int score / 100\<rfloor>" by simp
  have "0 \<le> score \<Longrightarrow> 1 \<le> length new"
    using a b new(2) by linarith
  then show ?thesis
    using new by (simp add: spawnEnemyWave_def)
qed

text \<open>
  Claim C3, witness: a player at altitude 300 with score 0 on a canvas of 800 by 600
  gets a wave of two enemies.
\<close>

theorem spawnEnemyWave_count_witness:
  "(0::int) \<le> 0
   \<and> length (spawnEnemyWave (Some \<lparr>width = 800, height = 600\<rparr>) (initialPlayer\<lparr>y := - 300\<rparr>) 0
        (\<lambda>k. 0) (\<lambda>i. 0) []) = 2"
  using spawnEnemyWave_count [of "\<lparr>width = 800, height = 600\<rparr>" "initialPlayer\<lparr>y := - 300\<rparr>" 0
      "\<lambda>k. 0" "\<lambda>i. 0" "[]"]
  by (simp add: initialPlayer_def)

text \<open>
  Claim C3 as stated fails: at altitude 300 and score 0 the stated size
  \<open>max(1, floor(300 / 300) + floor(0 / 100))\<close> is 1, and the wave has two enemies.
\<close>

theorem spawnEnemyWave_count_counterexample:
  "length (spawnEnemyWave (Some \<lparr>width = 800, height = 600\<rparr>) (initialPlayer\<lparr>y := - 300\<rparr>) 0
        (\<lambda>k. 0) (\<lambda>i. 0) [])
   \<noteq> nat (max 1 (\<lfloor>max 0 (- y (initialPlayer\<lparr>y := - 300\<rparr>)) / 300\<rfloor>
              + \<lfloor>real_of_int 0 / 100\<rfloor>))"
  using spawnEnemyWave_length [of "\<lparr>width = 800, height = 600\<rparr>" "initialPlayer\<lparr>y := - 300\<rparr>" 0
      "\<lambda>k. 0" "\<lambda>i. 0" "[]"]
  by (simp add: initialPlayer_def)

text \<open>
  Claim C6. Every enemy that \<open>spawnEnemyWave\<close> creates has
  \<open>level = max(1, floor(-spawnY / 500) + 1)\<close>, where \<open>spawnY\<close> is its own ordinate:
  level 1 for an altitude \<open>A = -spawnY\<close> from 0 up to (not including) 500, level 2 from
  500 up to 1000, and in general level \<open>n + 1\<close> on the band from \<open>500 n\<close> up to
  \<open>500 (n + 1)\<close>; below altitude 0 the level is 1. The level does not depend on the
  score or on the clock: the body of the loop gives the same level for any two scores
  and any two readings of the time.
\<close>

theorem spawn_level_from_altitude:
  assumes e: "e \<in> set (drop (length es) (spawnEnemyWave (Some canvas) p score rnd clock es))"
  shows "level e = max 1 (\<lfloor>- y e / 500\<rfloor> + 1)
    \<and> (- y e < 0 \<longrightarrow> level e = 1)
    \<and> (0 \<le> - y e \<and> - y e < 500 \<longrightarrow> level e = 1)
    \<and> (500 \<le> - y e \<and> - y e < 1000 \<longrightarrow> level e = 2)
    \<and> (\<forall>n\<ge>0. 500 * of_int n \<le> - y e \<and> - y e < 500 * (of_int n + 1) \<longrightarrow> level e = n + 1)
    \<and> level (fst (spawnEnemy canvas p score rnd now k))
        = level (fst (spawnEnemy canvas p score' rnd now' k))"
proof -
  obtain new where new: "spawnEnemyWave (Some canvas) p score rnd clock es = es @ new"
    "list_all (\<lambda>e. level e = max 1 (\<lfloor>- y e / 500\<rfloor> + 1)) new"
    using spawnEnemyWave_appends [of "\<lambda>e. level e = max 1 (\<lfloor>- y e / 500\<rfloor> + 1)"
        canvas p score rnd clock es] spawnEnemy_level by blast
  have lv: "level e = max 1 (\<lfloor>- y e / 500\<rfloor> + 1)"
    using e new by (simp add: list_all_iff)
  have band: "level e = n + 1"
    if "0 \<le> n" "500 * of_int n \<le> - y e" "- y e < 500 * (of_int n + 1)" for n :: int
  proof -
    have "\<lfloor>- y e / 500\<rfloor> = n"
      using that by (simp add: floor_eq_iff)
    then show ?thesis using lv that(1) by simp
  qed
  have neg: "level e = 1" if "- y e < 0"
  proof -
    have "\<lfloor>- y e / 500\<rfloor> < 0" using that by (simp add: floor_less_iff)
    then show ?thesis using lv by simp
  qed
  have indep: "level (fst (spawnEnemy canvas p score rnd now k))
        = level (fst (spawnEnemy canvas p score' rnd now' k))"
    by (simp only: spawnEnemy_level spawnEnemy_y)
  show ?thesis
    using lv neg band [of 0] band [of 1] band indep by simp
qed

text \<open>
  Claim C6, witness: with the player at altitude 300 on a canvas of height 600 and a
  first draw of 0, the first enemy of the wave is spawned at ordinate \<open>-700\<close> and has
  level 2.
\<close>

theorem spawn_level_from_altitude_witness:
  "hd (spawnEnemyWave (Some \<lparr>width = 800, height = 600\<rparr>) (initialPlayer\<lparr>y := - 300\<rparr>) 0
         (\<lambda>k. 0) (\<lambda>i. 0) [])
     \<in> set (drop (length ([] :: Enemy list))
          (spawnEnemyWave (Some \<lparr>width = 800, height = 600\<rparr>) (initialPlayer\<lparr>y := - 300\<rparr>) 0
            (\<lambda>k. 0) (\<lambda>i. 0) []))
   \<and> y (hd (spawnEnemyWave (Some \<lparr>width = 800, height = 600\<rparr>) (initialPlayer\<lparr>y := - 300\<rparr>) 0
         (\<lambda>k. 0) (\<lambda>i. 0) [])) = - 700
   \<and> level (hd (spawnEnemyWave (Some \<lparr>width = 800, height = 600\<rparr>) (initialPlayer\<lparr>y := - 300\<rparr>) 0
         (\<lambda>k. 0) (\<lambda>i. 0) [])) = 2"
proof -
  define c where "c = \<lparr>width = 800, height = 600\<rparr>"
  define p where "p = initialPlayer\<lparr>y := - 300\<rparr>"
  define wave where "wave = spawnEnemyWave (Some c) p 0 (\<lambda>k. 0) (\<lambda>i. 0) []"
  define e where "e = fst (spawnEnemy c p 0 (\<lambda>k. 0) 0 0)"
  have "wave = spawnLoop c p 0 (\<lambda>k. 0) (\<lambda>i. 0) 2 0 0 []"
    by (simp add: wave_def spawnEnemyWave_def p_def initialPlayer_def)
  also have "\<dots> = spawnLoop c p 0 (\<lambda>k. 0) (\<lambda>i. 0) 2 (Suc 0)
                     (snd (spawnEnemy c p 0 (\<lambda>k. 0) 0 0)) ([] @ [e])"
    by (simp add: spawnLoop.simps [of c p 0 "\<lambda>k. 0" "\<lambda>i. 0" 2 0 0 "[]"] e_def split_def
        Let_def)
  finally obtain new where "wave = ([] @ [e]) @ new"
    using spawnLoop_appends [of "\<lambda>e. True" c p 0 "\<lambda>k. 0" "\<lambda>i. 0" 2 "Suc 0"
        "snd (spawnEnemy c p 0 (\<lambda>k. 0) 0 0)" "[] @ [e]"] by auto
  then have hd: "hd wave = e" and mem: "hd wave \<in> set (drop (length ([] :: Enemy list)) wave)"
    by simp_all
  have ye: "y e = - 700"
    by (simp add: e_def spawnEnemy_y p_def c_def initialPlayer_def)
  have "level (hd wave) = 2"
    using spawn_level_from_altitude [OF mem [unfolded wave_def]] hd ye
    by (simp add: wave_def)
  then show ?thesis
    using mem hd ye by (simp add: wave_def c_def p_def)
qed

subsection \<open>Directions\<close>

text \<open>A checked division by a divisor that is not zero is the division.\<close>

lemma checked_div_Some [simp]: "b \<noteq> 0 \<Longrightarrow> checked_div a b = Some (a / b)"
  by (simp add: checked_div_def)

lemma checked_div_pos [simp]: "0 < b \<Longrightarrow> checked_div a b = Some (a / b)"
  by (simp add: checked_div_def)

lemma checked_div_sqrt [simp]: "0 < b \<Longrightarrow> checked_div a (sqrt b) = Some (a / sqrt b)"
  by (simp add: checked_div_def)

text \<open>
  None of the direction computations can fault: each is its result with the plain
  division, taken only where the distance is positive.
\<close>

lemma steerToward_eq:
  "steerToward dx dy distance enemy =
     Some (if distance > 0
           then enemy\<lparr>vx := dx / distance * speed enemy, vy := dy / distance * speed enemy\<rparr>
           else enemy)"
  by (simp add: steerToward_def)

lemma steerAway_eq:
  "steerAway dx dy distance enemy =
     Some (if distance > 0
           then enemy\<lparr>vx := - (dx / distance) * speed enemy, vy := - (dy / distance) * speed enemy\<rparr>
           else enemy)"
  by (simp add: steerAway_def)

lemma enemyProjectileVelocity_eq:
  "enemyProjectileVelocity dx dy distance s =
     Some (if distance > 0 then (dx / distance * s, dy / distance * s) else (0, 0))"
  by (simp add: enemyProjectileVelocity_def)

lemma playerProjectileVelocity_eq:
  "playerProjectileVelocity player target =
     Some (let dx = fst target - x player; dy = snd target - y player;
               distance = sqrt (dx * dx + dy * dy)
           in if distance > 0 then (dx / distance * 8, dy / distance * 8) else (0, - 8))"
  by (simp add: playerProjectileVelocity_def Let_def PROJECTILE_SPEED_PLAYER_def)

text \<open>
  Claim C8, as amended. Every direction computation of the tick that normalises the
  vector between two entities (the steering of an enemy towards or away from the player,
  the aim of the projectile of a ranged enemy or of the trail of a chaser, the aim of a
  player projectile) divides only under the guard \<open>distance > 0\<close>, so none of them
  divides by zero. At distance 0 the projectile of an enemy gets the zero vector; the
  steering leaves the enemy with the velocity it had; the player projectile keeps its
  default velocity \<open>(0, -8)\<close>, straight up.
\<close>

theorem directions_guarded:
  "steerToward dx dy distance enemy \<noteq> None
   \<and> steerAway dx dy distance enemy \<noteq> None
   \<and> enemyProjectileVelocity dx dy distance s \<noteq> None
   \<and> playerProjectileVelocity player target \<noteq> None
   \<and> enemyProjectileVelocity dx dy 0 s = Some (0, 0)
   \<and> steerToward dx dy 0 enemy = Some enemy
   \<and> steerAway dx dy 0 enemy = Some enemy
   \<and> playerProjectileVelocity player (x player, y player) = Some (0, - 8)"
  by (simp add: steerToward_eq steerAway_eq enemyProjectileVelocity_eq playerProjectileVelocity_eq)

text \<open>
  Claim C8 as stated fails: a player projectile aimed at a target at the player's own
  position gets the velocity \<open>(0, -8)\<close>, not the zero vector, and an enemy at distance
  0 keeps its velocity, here \<open>(3, 0)\<close>.
\<close>

theorem directions_zero_counterexample:
  "playerProjectileVelocity initialPlayer (x initialPlayer, y initialPlayer) = Some (0, - 8)
   \<and> playerProjectileVelocity initialPlayer (x initialPlayer, y initialPlayer) \<noteq> Some (0, 0)
   \<and> steerToward 0 0 0 ((enemyAt melee 0 0)\<lparr>vx := 3\<rparr>) = Some ((enemyAt melee 0 0)\<lparr>vx := 3\<rparr>)
   \<and> vx ((enemyAt melee 0 0)\<lparr>vx := 3\<rparr>) = 3"
  by (simp add: playerProjectileVelocity_eq steerToward_eq)

subsection \<open>Homing\<close>

lemma unit_vector:
  assumes "0 < dx * dx + dy * (dy::real)"
  shows "(dx / sqrt (dx * dx + dy * dy)) * (dx / sqrt (dx * dx + dy * dy))
       + (dy / sqrt (dx * dx + dy * dy)) * (dy / sqrt (dx * dx + dy * dy)) = 1"
proof -
  define d where "d = sqrt (dx * dx + dy * dy)"
  have d2: "d * d = dx * dx + dy * dy"
    using assms by (simp add: d_def)
  have "0 < d" using assms by (simp add: d_def)
  then have dpos: "d \<noteq> 0" by simp
  have "(dx / d) * (dx / d) + (dy / d) * (dy / d) = (dx * dx + dy * dy) / (d * d)"
    by (simp add: add_divide_distrib)
  also have "\<dots> = (d * d) / (d * d)" by (simp only: d2)
  also have "\<dots> = 1" using dpos by simp
  finally show ?thesis by (simp only: d_def)
qed

lemma rescaled_speed:
  assumes "0 < a * a + b * (b::real)" and "0 \<le> c"
  shows "sqrt ((a / sqrt (a * a + b * b) * c) * (a / sqrt (a * a + b * b) * c)
             + (b / sqrt (a * a + b * b) * c) * (b / sqrt (a * a + b * b) * c)) = c"
proof -
  have "(a / sqrt (a * a + b * b) * c) * (a / sqrt (a * a + b * b) * c)
        + (b / sqrt (a * a + b * b) * c) * (b / sqrt (a * a + b * b) * c)
      = ((a / sqrt (a * a + b * b)) * (a / sqrt (a * a + b * b))
        + (b / sqrt (a * a + b * b)) * (b / sqrt (a * a + b * b))) * (c * c)"
    by (simp add: algebra_simps)
  also have "\<dots> = c * c" using unit_vector [OF assms(1)] by simp
  finally show ?thesis using assms(2) by simp
qed

text \<open>
  A velocity of magnitude 8 moved 15 percent of the way towards a vector of magnitude 8
  is not the zero vector, so the renormalisation of the source always takes place.
\<close>

lemma steered_nonzero:
  assumes v: "v1 * v1 + v2 * v2 = (64::real)" and u: "u1 * u1 + u2 * u2 = (1::real)"
  shows "0 < (v1 + (u1 * 8 - v1) * 0.15) * (v1 + (u1 * 8 - v1) * 0.15)
           + (v2 + (u2 * 8 - v2) * 0.15) * (v2 + (u2 * 8 - v2) * 0.15)"
proof (rule ccontr)
  assume "\<not> ?thesis"
  moreover have "0 \<le> (v1 + (u1 * 8 - v1) * 0.15) * (v1 + (u1 * 8 - v1) * 0.15)"
    and "0 \<le> (v2 + (u2 * 8 - v2) * 0.15) * (v2 + (u2 * 8 - v2) * 0.15)" by simp_all
  ultimately have z: "(v1 + (u1 * 8 - v1) * 0.15) * (v1 + (u1 * 8 - v1) * 0.15) = 0"
    "(v2 + (u2 * 8 - v2) * 0.15) * (v2 + (u2 * 8 - v2) * 0.15) = 0"
    by linarith+
  then have "v1 + (u1 * 8 - v1) * 0.15 = 0" "v2 + (u2 * 8 - v2) * 0.15 = 0" by simp_all
  then have e: "17 * v1 = - 24 * u1" "17 * v2 = - 24 * u2" by (simp_all add: field_simps)
  have "289 * (v1 * v1 + v2 * v2) = (17 * v1) * (17 * v1) + (17 * v2) * (17 * v2)"
    by (simp add: algebra_simps)
  also have "\<dots> = 576 * (u1 * u1 + u2 * u2)"
    unfolding e by (simp add: algebra_simps)
  finally show False using v u by simp
qed

text \<open>
  Over the real numbers the renormalisation is exact. For every homing projectile whose
  velocity has length 8, one homing step returns (it divides by zero nowhere) a
  projectile whose velocity has length 8 again, wherever the nearest enemy is; the step
  changes nothing but the velocity, and with no enemy it leaves the projectile as it
  is. This is the constant speed that the renormalisation of the source aims at; what
  the program's own numbers make of it is the subject of the subsections that follow.
\<close>

lemma homingStep_speed_exact:
  assumes sp: "sqrt (vx p * vx p + vy p * vy p) = 8"
  shows "\<exists>p'. homingStep es p = Some p'
           \<and> sqrt (vx p' * vx p' + vy p' * vy p') = 8
           \<and> p' = p\<lparr>vx := vx p', vy := vy p'\<rparr>
           \<and> (es = [] \<longrightarrow> p' = p)"
proof (cases "nearestScan p es None")
  case None
  then show ?thesis using sp by (simp add: homingStep_def)
next
  case (Some best)
  obtain ne nd where best: "best = (ne, nd)" by (cases best)
  have nonempty: "es \<noteq> []" using Some by auto
  define dx where "dx = x ne - x p"
  define dy where "dy = y ne - y p"
  show ?thesis
  proof (cases "0 < dx * dx + dy * dy")
    case False
    then have "homingStep es p = Some p"
      using Some best by (simp add: homingStep_def Let_def dx_def dy_def)
    then show ?thesis using sp nonempty by simp
  next
    case True
    define u1 where "u1 = dx / sqrt (dx * dx + dy * dy)"
    define u2 where "u2 = dy / sqrt (dx * dx + dy * dy)"
    define w1 where "w1 = vx p + (u1 * 8 - vx p) * 0.15"
    define w2 where "w2 = vy p + (u2 * 8 - vy p) * 0.15"
    have u: "u1 * u1 + u2 * u2 = 1"
      unfolding u1_def u2_def by (rule unit_vector [OF True])
    have "vx p * vx p + vy p * vy p = 8 * 8"
      using sp by (metis abs_numeral mult.commute real_sqrt_abs2 real_sqrt_eq_iff real_sqrt_mult_self)
    then have v: "vx p * vx p + vy p * vy p = 64" by simp
    have w: "0 < w1 * w1 + w2 * w2"
      unfolding w1_def w2_def by (rule steered_nonzero [OF v u])
    have step: "homingStep es p =
        Some (p\<lparr>vx := w1 / sqrt (w1 * w1 + w2 * w2) * 8, vy := w2 / sqrt (w1 * w1 + w2 * w2) * 8\<rparr>)"
      using Some best True w
      by (simp add: homingStep_def Let_def dx_def dy_def u1_def u2_def w1_def w2_def
          PROJECTILE_SPEED_PLAYER_def PROJECTILE_HOMING_STRENGTH_def)
    have "sqrt ((w1 / sqrt (w1 * w1 + w2 * w2) * 8) * (w1 / sqrt (w1 * w1 + w2 * w2) * 8)
              + (w2 / sqrt (w1 * w1 + w2 * w2) * 8) * (w2 / sqrt (w1 * w1 + w2 * w2) * 8)) = 8"
      by (rule rescaled_speed [OF w]) simp
    then show ?thesis using step nonempty by simp
  qed
qed

subsection \<open>Rounding to binary64\<close>

text \<open>
  Powers of two.
\<close>

lemma pow2_powr: "pow2 k = 2 powr (of_int k)"
  by (simp add: pow2_def powr_real_of_int inverse_eq_divide)

lemma pow2_pos [simp]: "0 < pow2 k"
  by (simp add: pow2_powr)

lemma pow2_nonneg [simp]: "0 \<le> pow2 k"
  using pow2_pos [of k] by linarith

lemma pow2_nonzero [simp]: "pow2 k \<noteq> 0"
  using pow2_pos [of k] by linarith

lemma pow2_abs [simp]: "\<bar>pow2 k\<bar> = pow2 k"
  using pow2_pos [of k] by linarith

lemma pow2_add: "pow2 (j + k) = pow2 j * pow2 k"
  by (simp add: pow2_powr powr_add)

lemma pow2_less_iff: "pow2 j < pow2 k \<longleftrightarrow> j < k"
  by (simp add: pow2_powr)

lemma pow2_le_iff: "pow2 j \<le> pow2 k \<longleftrightarrow> j \<le> k"
  by (simp add: pow2_powr)

text \<open>
  Rounding to the nearest integer moves a number by at most one half and keeps its sign.
\<close>

lemma roundHalfEven_close: "\<bar>of_int (roundHalfEven t) - t\<bar> \<le> 1 / 2"
  unfolding roundHalfEven_def Let_def by (auto simp: abs_le_iff)

lemma roundHalfEven_int [simp]: "roundHalfEven (of_int n) = n"
  by (simp add: roundHalfEven_def)

lemma roundHalfEven_nonneg: "0 \<le> t \<Longrightarrow> 0 \<le> roundHalfEven t"
  unfolding roundHalfEven_def Let_def by auto

lemma roundHalfEven_nonpos: "t \<le> 0 \<Longrightarrow> roundHalfEven t \<le> 0"
  unfolding roundHalfEven_def Let_def by auto

text \<open>
  The rounded value is within half a unit in the last place of the number: a relative
  error of at most \<open>2^-53\<close> in the normal range, an absolute error of at most
  \<open>2^-1075\<close> below it. Numbers of magnitude up to \<open>2^1000\<close> round to a finite value
  of the same sign.
\<close>

lemma exponent_bounds:
  assumes "v \<noteq> 0"
  shows "pow2 \<lfloor>log 2 \<bar>v\<bar>\<rfloor> \<le> \<bar>v\<bar>" and "\<bar>v\<bar> < pow2 (\<lfloor>log 2 \<bar>v\<bar>\<rfloor> + 1)"
proof -
  have p: "0 < \<bar>v\<bar>" using assms by simp
  have a: "of_int \<lfloor>log 2 \<bar>v\<bar>\<rfloor> \<le> log 2 \<bar>v\<bar>" by (rule of_int_floor_le)
  have "2 powr (of_int \<lfloor>log 2 \<bar>v\<bar>\<rfloor>) \<le> \<bar>v\<bar>"
    using a p le_log_iff [of 2 "\<bar>v\<bar>" "of_int \<lfloor>log 2 \<bar>v\<bar>\<rfloor>"] by simp
  then show "pow2 \<lfloor>log 2 \<bar>v\<bar>\<rfloor> \<le> \<bar>v\<bar>" by (simp only: pow2_powr)
  have b: "log 2 \<bar>v\<bar> < of_int (\<lfloor>log 2 \<bar>v\<bar>\<rfloor> + 1)" by linarith
  have "\<bar>v\<bar> < 2 powr (of_int (\<lfloor>log 2 \<bar>v\<bar>\<rfloor> + 1))"
    using b p log_less_iff [of 2 "\<bar>v\<bar>" "of_int (\<lfloor>log 2 \<bar>v\<bar>\<rfloor> + 1)"] by simp
  then show "\<bar>v\<bar> < pow2 (\<lfloor>log 2 \<bar>v\<bar>\<rfloor> + 1)" by (simp only: pow2_powr)
qed

lemma round64_zero [simp]: "round64 0 = Some 0"
  by (simp add: round64_def)

lemma quantum_close:
  assumes "0 < q"
  shows "\<bar>of_int (roundHalfEven (v / q)) * q - v\<bar> \<le> q / 2"
proof -
  have "of_int (roundHalfEven (v / q)) * q - v = (of_int (roundHalfEven (v / q)) - v / q) * q"
    using assms by (simp add: field_simps)
  then have "\<bar>of_int (roundHalfEven (v / q)) * q - v\<bar> = \<bar>of_int (roundHalfEven (v / q)) - v / q\<bar> * q"
    using assms by (simp add: abs_mult)
  also have "\<dots> \<le> (1 / 2) * q"
    using roundHalfEven_close [of "v / q"] assms by (intro mult_right_mono) simp_all
  finally show ?thesis by simp
qed

lemma quantum_sign:
  assumes "0 < q"
  shows "0 \<le> v \<Longrightarrow> 0 \<le> of_int (roundHalfEven (v / q)) * q"
    and "v \<le> 0 \<Longrightarrow> of_int (roundHalfEven (v / q)) * q \<le> 0"
  using assms roundHalfEven_nonneg [of "v / q"] roundHalfEven_nonpos [of "v / q"]
  by (simp_all add: mult_nonneg_nonneg mult_nonpos_nonneg divide_nonpos_pos)

lemma quantum_normal:
  assumes "v \<noteq> 0" and "1 / 2 ^ 1022 \<le> \<bar>v\<bar>"
  shows "pow2 (exponent64 v - 52) / 2 \<le> \<bar>v\<bar> / 2 ^ 53"
proof -
  let ?E = "\<lfloor>log 2 \<bar>v\<bar>\<rfloor>"
  have "pow2 (- 1022) \<le> \<bar>v\<bar>" using assms(2) by (simp add: pow2_def)
  also have "\<dots> < pow2 (?E + 1)" by (rule exponent_bounds(2) [OF assms(1)])
  finally have "- 1022 < ?E + 1"
    by (simp only: pow2_less_iff)
  then have e: "exponent64 v = ?E" by (simp add: exponent64_def)
  have "pow2 (?E - 52) = pow2 ?E * pow2 (- 52)"
    using pow2_add [of ?E "- 52"] by simp
  also have "\<dots> = pow2 ?E / 2 ^ 52" by (simp add: pow2_def)
  also have "\<dots> \<le> \<bar>v\<bar> / 2 ^ 52"
    using exponent_bounds(1) [OF assms(1)] by (simp add: divide_right_mono)
  finally show ?thesis by (simp add: e)
qed

lemma quantum_any:
  assumes "v \<noteq> 0"
  shows "pow2 (exponent64 v - 52) / 2 \<le> \<bar>v\<bar> / 2 ^ 53 + 1 / 2 ^ 1075"
proof (cases "1 / 2 ^ 1022 \<le> \<bar>v\<bar>")
  case True
  from quantum_normal [OF assms True] show ?thesis by simp
next
  case False
  let ?E = "\<lfloor>log 2 \<bar>v\<bar>\<rfloor>"
  have "pow2 ?E \<le> \<bar>v\<bar>" by (rule exponent_bounds(1) [OF assms])
  also have "\<dots> < pow2 (- 1022)" using False by (simp add: pow2_def)
  finally have "?E < - 1022" by (simp only: pow2_less_iff)
  then have e: "exponent64 v = - 1022" by (simp add: exponent64_def)
  have "pow2 (exponent64 v - 52) / 2 = 1 / 2 ^ 1075" by (simp add: e pow2_def)
  then show ?thesis by simp
qed

lemma round64_any:
  assumes "\<bar>v\<bar> \<le> 2 ^ 1000"
  shows "\<exists>r. round64 v = Some r \<and> \<bar>r - v\<bar> \<le> \<bar>v\<bar> / 2 ^ 53 + 1 / 2 ^ 1075
           \<and> (0 \<le> v \<longrightarrow> 0 \<le> r) \<and> (v \<le> 0 \<longrightarrow> r \<le> 0)"
proof (cases "v = 0")
  case True
  then show ?thesis by simp
next
  case False
  define q where "q = pow2 (exponent64 v - 52)"
  define r where "r = of_int (roundHalfEven (v / q)) * q"
  have q: "0 < q" by (simp add: q_def)
  have c: "\<bar>r - v\<bar> \<le> \<bar>v\<bar> / 2 ^ 53 + 1 / 2 ^ 1075"
    using quantum_close [OF q, of v] quantum_any [OF False] by (simp add: r_def q_def)
  have "\<bar>r\<bar> \<le> \<bar>v\<bar> + \<bar>r - v\<bar>" by simp
  also have "\<dots> \<le> 2 ^ 1000 + (2 ^ 1000 / 2 ^ 53 + 1 / 2 ^ 1075)"
    using c assms by (intro add_mono) (simp_all add: divide_right_mono)
  also have "\<dots> < 2 ^ 1024" by simp
  finally have "round64 v = Some r"
    using False by (simp add: round64_def Let_def q_def r_def)
  then show ?thesis
    using c quantum_sign [OF q, of v] by (simp add: r_def)
qed

lemma round64_normal:
  assumes "1 / 2 ^ 1022 \<le> \<bar>v\<bar>" and "\<bar>v\<bar> \<le> 2 ^ 1000"
  shows "\<exists>r. round64 v = Some r \<and> \<bar>r - v\<bar> \<le> \<bar>v\<bar> / 2 ^ 53
           \<and> (0 \<le> v \<longrightarrow> 0 \<le> r) \<and> (v \<le> 0 \<longrightarrow> r \<le> 0)"
proof -
  have nz: "v \<noteq> 0" using assms(1) by auto
  define q where "q = pow2 (exponent64 v - 52)"
  define r where "r = of_int (roundHalfEven (v / q)) * q"
  have q: "0 < q" by (simp add: q_def)
  have c: "\<bar>r - v\<bar> \<le> \<bar>v\<bar> / 2 ^ 53"
    using quantum_close [OF q, of v] quantum_normal [OF nz assms(1)] by (simp add: r_def q_def)
  have "\<bar>r\<bar> \<le> \<bar>v\<bar> + \<bar>r - v\<bar>" by simp
  also have "\<dots> \<le> 2 ^ 1000 + 2 ^ 1000 / 2 ^ 53"
    using c assms by (intro add_mono) (simp_all add: divide_right_mono)
  also have "\<dots> < 2 ^ 1024" by simp
  finally have "round64 v = Some r"
    using nz by (simp add: round64_def Let_def q_def r_def)
  then show ?thesis
    using c quantum_sign [OF q, of v] by (simp add: r_def)
qed

lemma round64_within:
  assumes "\<bar>v\<bar> \<le> B" and "B \<le> 2 ^ 1000"
  shows "\<exists>r. round64 v = Some r \<and> \<bar>r - v\<bar> \<le> B / 2 ^ 53 + 1 / 2 ^ 1075"
proof -
  have "\<bar>v\<bar> \<le> 2 ^ 1000" using assms by linarith
  from round64_any [OF this] obtain r where r: "round64 v = Some r"
    "\<bar>r - v\<bar> \<le> \<bar>v\<bar> / 2 ^ 53 + 1 / 2 ^ 1075" by auto
  have "\<bar>v\<bar> / 2 ^ 53 \<le> B / 2 ^ 53" using assms(1) by (simp add: divide_right_mono)
  then show ?thesis using r by (intro exI [of _ r]) linarith
qed

text \<open>
  Two ways to evaluate \<open>round64\<close> at a given number. A binary64 value, \<open>m * 2^k\<close>
  with \<open>|m| < 2^53\<close>, is returned as it is; and a number of the binade with unit
  \<open>2^k\<close> that lies strictly within half a unit of \<open>m * 2^k\<close> is rounded to it.
\<close>

lemma roundHalfEven_near:
  assumes "\<bar>t - of_int m\<bar> < 1 / 2"
  shows "roundHalfEven t = m"
proof -
  have "of_int m - 1 \<le> t" and "t < of_int m + 1"
    using assms by linarith+
  then have "of_int (m - 1) \<le> t" and "t < of_int (m + 1)"
    by simp_all
  then have "m - 1 \<le> \<lfloor>t\<rfloor>" and "\<lfloor>t\<rfloor> < m + 1"
    by (simp_all only: le_floor_iff floor_less_iff)
  then have "\<lfloor>t\<rfloor> = m \<or> \<lfloor>t\<rfloor> = m - 1" by linarith
  then show ?thesis
  proof
    assume f: "\<lfloor>t\<rfloor> = m"
    have "t - of_int m < 1 / 2" using assms by linarith
    then show ?thesis by (simp add: roundHalfEven_def f)
  next
    assume f: "\<lfloor>t\<rfloor> = m - 1"
    have "1 / 2 < t - (of_int m - 1)" using assms by linarith
    then have "1 / 2 < t - of_int (m - 1)" by simp
    moreover then have "\<not> t - of_int (m - 1) < 1 / 2" by simp
    ultimately show ?thesis by (simp add: roundHalfEven_def f)
  qed
qed

lemma pow2_diff_int:
  assumes "j \<le> k"
  shows "pow2 k / pow2 j = of_int (2 ^ nat (k - j))"
proof -
  have "pow2 k = pow2 (k - j) * pow2 j" using pow2_add [of "k - j" j] by simp
  moreover have "pow2 (k - j) = of_int (2 ^ nat (k - j))" using assms by (simp add: pow2_def)
  ultimately show ?thesis by simp
qed

lemma round64_exact:
  assumes m: "\<bar>m\<bar> < 2 ^ 53" and k: "- 1074 \<le> k" "k \<le> 970"
  shows "round64 (of_int m * pow2 k) = Some (of_int m * pow2 k)"
proof (cases "m = 0")
  case True
  then show ?thesis by simp
next
  case False
  define v where "v = of_int m * pow2 k"
  have nz: "v \<noteq> 0" using False by (simp add: v_def)
  let ?E = "\<lfloor>log 2 \<bar>v\<bar>\<rfloor>"
  have av: "\<bar>v\<bar> = of_int \<bar>m\<bar> * pow2 k" by (simp add: v_def abs_mult)
  have "of_int \<bar>m\<bar> < (2::real) ^ 53" using m by (metis of_int_less_numeral_power_cancel_iff)
  then have lt: "\<bar>v\<bar> < 2 ^ 53 * pow2 k" by (simp add: av)
  have "pow2 ?E \<le> \<bar>v\<bar>" by (rule exponent_bounds(1) [OF nz])
  also have "\<dots> < pow2 53 * pow2 k" using lt by (simp add: pow2_def)
  also have "\<dots> = pow2 (53 + k)" by (simp add: pow2_add)
  finally have "?E < 53 + k" by (simp only: pow2_less_iff)
  then have j: "exponent64 v - 52 \<le> k" using k by (simp add: exponent64_def)
  define j where "j = exponent64 v - 52"
  have "v / pow2 j = of_int m * (pow2 k / pow2 j)" by (simp add: v_def)
  also have "\<dots> = of_int (m * 2 ^ nat (k - j))"
    using j by (simp add: pow2_diff_int j_def)
  finally have "roundHalfEven (v / pow2 j) = m * 2 ^ nat (k - j)"
    by (simp only: roundHalfEven_int)
  then have "of_int (roundHalfEven (v / pow2 j)) * pow2 j = of_int m * (of_int (2 ^ nat (k - j)) * pow2 j)"
    by simp
  also have "of_int (2 ^ nat (k - j)) * pow2 j = pow2 k"
    using pow2_diff_int [of j k] j by (simp add: j_def field_simps)
  finally have r: "of_int (roundHalfEven (v / pow2 j)) * pow2 j = v" by (simp add: v_def)
  have "\<bar>v\<bar> < 2 ^ 53 * pow2 970"
  proof -
    have "pow2 k \<le> pow2 970" using k by (simp only: pow2_le_iff)
    then have "2 ^ 53 * pow2 k \<le> 2 ^ 53 * pow2 970" by simp
    then show ?thesis using lt by linarith
  qed
  also have "\<dots> < 2 ^ 1024" by (simp add: pow2_def)
  finally have "\<bar>v\<bar> < 2 ^ 1024" .
  then have "round64 v = Some v"
    using nz r by (simp add: round64_def Let_def j_def)
  then show ?thesis by (simp add: v_def)
qed

lemma round64_near:
  assumes lo: "pow2 (k + 52) \<le> \<bar>v\<bar>" and hi: "\<bar>v\<bar> < pow2 (k + 53)"
    and k: "- 1074 \<le> k" "k \<le> 970"
    and near: "\<bar>v / pow2 k - of_int m\<bar> < 1 / 2"
  shows "round64 v = Some (of_int m * pow2 k)"
proof -
  have "0 < \<bar>v\<bar>" using lo pow2_pos [of "k + 52"] by linarith
  then have nz: "v \<noteq> 0" by simp
  let ?E = "\<lfloor>log 2 \<bar>v\<bar>\<rfloor>"
  have "pow2 ?E \<le> \<bar>v\<bar>" by (rule exponent_bounds(1) [OF nz])
  also note hi
  finally have e1: "?E < k + 53" by (simp only: pow2_less_iff)
  note lo
  also have "\<bar>v\<bar> < pow2 (?E + 1)" by (rule exponent_bounds(2) [OF nz])
  finally have e2: "k + 52 < ?E + 1" by (simp only: pow2_less_iff)
  have e: "exponent64 v - 52 = k" using e1 e2 k by (simp add: exponent64_def)
  have rm: "roundHalfEven (v / pow2 k) = m" by (rule roundHalfEven_near [OF near])
  have "\<bar>of_int m * pow2 k - v\<bar> \<le> pow2 k / 2"
    using quantum_close [of "pow2 k" v] by (simp add: rm)
  then have "\<bar>of_int m * pow2 k\<bar> \<le> \<bar>v\<bar> + pow2 k / 2" by linarith
  also have "\<dots> < pow2 (k + 53) + pow2 k / 2" using hi by simp
  also have "\<dots> = pow2 k * (2 ^ 53 + 1 / 2)"
    using pow2_add [of k 53] by (simp add: pow2_def algebra_simps)
  also have "\<dots> \<le> pow2 970 * (2 ^ 53 + 1 / 2)"
    using k by (intro mult_right_mono) (simp_all only: pow2_le_iff, simp)
  also have "\<dots> < 2 ^ 1024" by (simp add: pow2_def)
  finally have "\<bar>of_int m * pow2 k\<bar> < 2 ^ 1024" .
  then show ?thesis
    using nz by (simp add: round64_def Let_def e rm)
qed

text \<open>
  The same for \<open>Math.sqrt\<close>: the root is rounded to \<open>m * 2^k\<close> when the radicand lies
  strictly between the squares of \<open>(m - 1/2) * 2^k\<close> and \<open>(m + 1/2) * 2^k\<close>.
\<close>

lemma sqrt64_near:
  assumes a: "0 \<le> a" and k: "- 1074 \<le> k" "k \<le> 970" and m: "0 < m"
    and lo: "pow2 (k + 52) * pow2 (k + 52) \<le> a"
    and hi: "a < pow2 (k + 53) * pow2 (k + 53)"
    and below: "((of_int m - 1 / 2) * pow2 k) * ((of_int m - 1 / 2) * pow2 k) < a"
    and above: "a < ((of_int m + 1 / 2) * pow2 k) * ((of_int m + 1 / 2) * pow2 k)"
  shows "sqrt64 a = Some (of_int m * pow2 k)"
proof -
  have l: "pow2 (k + 52) \<le> \<bar>sqrt a\<bar>"
  proof -
    have "pow2 (k + 52) \<le> sqrt a"
      by (rule real_le_rsqrt) (simp add: power2_eq_square lo)
    then show ?thesis by simp
  qed
  have h: "\<bar>sqrt a\<bar> < pow2 (k + 53)"
  proof -
    have "sqrt a < pow2 (k + 53)"
      by (rule real_less_lsqrt) (simp_all add: power2_eq_square hi)
    then show ?thesis using a by simp
  qed
  have b1: "(of_int m - 1 / 2) * pow2 k < sqrt a"
    by (rule real_less_rsqrt) (simp add: power2_eq_square below)
  have "0 \<le> (of_int m + 1 / 2) * pow2 k" using m by simp
  then have b2: "sqrt a < (of_int m + 1 / 2) * pow2 k"
    by (rule real_less_lsqrt) (simp add: power2_eq_square above)
  have "of_int m - 1 / 2 < sqrt a / pow2 k" using b1 by (simp add: pos_less_divide_eq)
  moreover have "sqrt a / pow2 k < of_int m + 1 / 2" using b2 by (simp add: pos_divide_less_eq)
  ultimately have near: "\<bar>sqrt a / pow2 k - of_int m\<bar> < 1 / 2" by linarith
  from round64_near [OF l h k near] show ?thesis using a by (simp add: sqrt64_def)
qed

text \<open>
  \<open>Math.sqrt(a * a + b * b)\<close> is finite and within a relative error of
  \<open>4 * 2^-53\<close> of the length of \<open>(a, b)\<close> when that length is between \<open>2^-450\<close>
  and \<open>2^450\<close>, even if the square of one component underflows.
\<close>

lemma square_bound:
  assumes "\<bar>a\<bar> \<le> (c::real)"
  shows "a * a \<le> c * c"
proof -
  have "\<bar>a\<bar> * \<bar>a\<bar> \<le> c * c" using assms by (intro mult_mono) simp_all
  then show ?thesis by simp
qed

lemma rel_bounds:
  assumes "\<bar>r - v\<bar> \<le> \<bar>v\<bar> / c" and "0 \<le> (v::real)"
  shows "r \<le> v * (1 + 1 / c)" and "v * (1 - 1 / c) \<le> r"
proof -
  have "\<bar>r - v\<bar> \<le> v / c" using assms by simp
  then have "r - v \<le> v / c" and "v - r \<le> v / c" by linarith+
  then show "r \<le> v * (1 + 1 / c)" and "v * (1 - 1 / c) \<le> r"
    by (simp_all add: algebra_simps)
qed

lemma length64_close:
  assumes a: "\<bar>a\<bar> \<le> 2 ^ 450" and b: "\<bar>b\<bar> \<le> 2 ^ 450"
    and n: "1 / 2 ^ 900 \<le> a * a + b * b"
  shows "\<exists>c. length64 a b = Some c
           \<and> sqrt (a * a + b * b) * (1 - 4 / 2 ^ 53) \<le> c
           \<and> c \<le> sqrt (a * a + b * b) * (1 + 4 / 2 ^ 53)"
proof -
  define N2 where "N2 = a * a + b * b"
  define N where "N = sqrt N2"
  have a2: "a * a \<le> 2 ^ 900" using square_bound [OF a] by simp
  have b2: "b * b \<le> 2 ^ 900" using square_bound [OF b] by simp
  have "\<bar>a * a\<bar> \<le> 2 ^ 1000" using a2 by simp
  from round64_any [OF this] obtain aa where aa: "round64 (a * a) = Some aa"
    "\<bar>aa - a * a\<bar> \<le> a * a / 2 ^ 53 + 1 / 2 ^ 1075" "0 \<le> aa" by auto
  have "\<bar>b * b\<bar> \<le> 2 ^ 1000" using b2 by simp
  from round64_any [OF this] obtain bb where bb: "round64 (b * b) = Some bb"
    "\<bar>bb - b * b\<bar> \<le> b * b / 2 ^ 53 + 1 / 2 ^ 1075" "0 \<le> bb" by auto
  have N2lo: "1 / 2 ^ 900 \<le> N2" using n by (simp add: N2_def)
  have N2hi: "N2 \<le> 2 ^ 901" using a2 b2 by (simp add: N2_def)
  have eta: "2 / 2 ^ 1075 \<le> N2 / 2 ^ 54" using N2lo by simp
  have aa': "aa \<le> a * a + a * a / 2 ^ 53 + 1 / 2 ^ 1075" "a * a - a * a / 2 ^ 53 - 1 / 2 ^ 1075 \<le> aa"
    using aa(2) by (simp_all add: abs_le_iff)
  have bb': "bb \<le> b * b + b * b / 2 ^ 53 + 1 / 2 ^ 1075" "b * b - b * b / 2 ^ 53 - 1 / 2 ^ 1075 \<le> bb"
    using bb(2) by (simp_all add: abs_le_iff)
  have t1: "aa + bb \<le> N2 * (1 + 3 / 2 ^ 54)"
    using aa'(1) bb'(1) eta by (simp add: N2_def add_divide_distrib)
  have t2: "N2 * (1 - 3 / 2 ^ 54) \<le> aa + bb"
    using aa'(2) bb'(2) eta by (simp add: N2_def add_divide_distrib)
  have tpos: "0 \<le> aa + bb" using aa(3) bb(3) by simp
  have tlo: "1 / 2 ^ 1022 \<le> \<bar>aa + bb\<bar>" using t2 N2lo by simp
  have thi: "\<bar>aa + bb\<bar> \<le> 2 ^ 1000" using t1 N2hi tpos by simp
  from round64_normal [OF tlo thi] obtain s where s: "round64 (aa + bb) = Some s"
    "\<bar>s - (aa + bb)\<bar> \<le> \<bar>aa + bb\<bar> / 2 ^ 53" "0 \<le> s" using tpos by auto
  have s': "s \<le> (aa + bb) * (1 + 1 / 2 ^ 53)" "(aa + bb) * (1 - 1 / 2 ^ 53) \<le> s"
    using rel_bounds [OF s(2) tpos] by simp_all
  have N2pos: "0 \<le> N2" by (simp add: N2_def)
  have s1: "s \<le> N2 * (1 + 3 / 2 ^ 53)"
    using s'(1) t1 N2pos by simp
  have s2: "N2 * (1 - 3 / 2 ^ 53) \<le> s"
    using s'(2) t2 N2pos by simp
  have Npos: "0 \<le> N" using N2pos by (simp add: N_def)
  have NN: "N * N = N2" using N2pos by (simp add: N_def)
  have q1: "sqrt s \<le> N * (1 + 2 / 2 ^ 53)"
  proof (rule real_le_lsqrt)
    show "0 \<le> N * (1 + 2 / 2 ^ 53)" using Npos by simp
    have "(N * (1 + 2 / 2 ^ 53))\<^sup>2 = N2 * ((1 + 2 / 2 ^ 53) * (1 + 2 / 2 ^ 53))"
      by (simp add: power2_eq_square NN [symmetric])
    then show "s \<le> (N * (1 + 2 / 2 ^ 53))\<^sup>2" using s1 N2lo by simp
  qed
  have q2: "N * (1 - 2 / 2 ^ 53) \<le> sqrt s"
  proof (rule real_le_rsqrt)
    have "(N * (1 - 2 / 2 ^ 53))\<^sup>2 = N2 * ((1 - 2 / 2 ^ 53) * (1 - 2 / 2 ^ 53))"
      by (simp add: power2_eq_square NN [symmetric])
    then show "(N * (1 - 2 / 2 ^ 53))\<^sup>2 \<le> s" using s2 N2lo by simp
  qed
  have Nlo: "1 / 2 ^ 450 \<le> N"
    unfolding N_def by (rule real_le_rsqrt) (use N2lo in \<open>simp add: power2_eq_square\<close>)
  have Nhi: "N \<le> 2 ^ 451"
    unfolding N_def by (rule real_le_lsqrt) (use N2hi in \<open>simp_all add: power2_eq_square\<close>)
  have qlo: "1 / 2 ^ 1022 \<le> \<bar>sqrt s\<bar>" using q2 Nlo by simp
  have qhi: "\<bar>sqrt s\<bar> \<le> 2 ^ 1000" using q1 Nhi s(3) by simp
  from round64_normal [OF qlo qhi] obtain c where c: "round64 (sqrt s) = Some c"
    "\<bar>c - sqrt s\<bar> \<le> \<bar>sqrt s\<bar> / 2 ^ 53" by auto
  have qpos: "0 \<le> sqrt s" using s(3) by simp
  have c': "c \<le> sqrt s * (1 + 1 / 2 ^ 53)" "sqrt s * (1 - 1 / 2 ^ 53) \<le> c"
    using rel_bounds [OF c(2) qpos] by simp_all
  have c1: "c \<le> N * (1 + 4 / 2 ^ 53)" using c'(1) q1 Npos by simp
  have c2: "N * (1 - 4 / 2 ^ 53) \<le> c" using c'(2) q2 Npos by simp
  have "length64 a b = Some c"
    using aa(1) bb(1) s(1) s(3) c(1) by (simp add: length64_def mul64_def add64_def sqrt64_def)
  then show ?thesis using c1 c2 by (simp add: N_def N2_def)
qed

text \<open>
  Every binary64 value is an integer multiple of \<open>2^-1074\<close>, the multiples below
  \<open>2^-1022\<close> are binary64 values, and a positive one is at least \<open>2^-1074\<close>. So the sum
  of two rounded squares is rounded with a relative error of at most \<open>2^-53\<close> however
  small it is, and a rounded square that is not zero is at least two thirds of the
  exact square.
\<close>

lemma round64_grid:
  assumes "round64 v = Some r"
  shows "\<exists>n. r = of_int n * pow2 (- 1074)"
proof (cases "v = 0")
  case True
  then have "r = of_int 0 * pow2 (- 1074)" using assms by simp
  then show ?thesis by blast
next
  case False
  define j where "j = exponent64 v - 52"
  have j: "- 1074 \<le> j" by (simp add: j_def exponent64_def)
  define z where "z = roundHalfEven (v / pow2 j)"
  have "r = of_int z * pow2 j"
    using assms False by (simp add: round64_def Let_def j_def z_def split: if_splits)
  moreover have "pow2 j = of_int (2 ^ nat (j - (- 1074))) * pow2 (- 1074)"
    using pow2_diff_int [OF j] by (simp add: field_simps)
  ultimately have "r = of_int z * (of_int (2 ^ nat (j - (- 1074))) * pow2 (- 1074))"
    by (simp only:)
  then have "r = of_int (z * 2 ^ nat (j - (- 1074))) * pow2 (- 1074)"
    by simp
  then show ?thesis by blast
qed

lemma grid_exact:
  assumes "\<bar>of_int n * pow2 (- 1074)\<bar> < 1 / 2 ^ 1022"
  shows "round64 (of_int n * pow2 (- 1074)) = Some (of_int n * pow2 (- 1074))"
proof (rule round64_exact)
  have "\<bar>real_of_int n\<bar> * pow2 (- 1074) < 1 / 2 ^ 1022" using assms by (simp add: abs_mult)
  then have "\<bar>real_of_int n\<bar> < 2 ^ 52" by (simp add: pow2_def field_simps)
  then have "\<bar>real_of_int n\<bar> < 2 ^ 53" by simp
  then have "real_of_int \<bar>n\<bar> < 2 ^ 53" by simp
  then show "\<bar>n\<bar> < 2 ^ 53" by (metis of_int_less_numeral_power_cancel_iff)
qed simp_all

lemma grid_positive:
  assumes "r = of_int n * pow2 (- 1074)" and "0 < r"
  shows "1 / 2 ^ 1074 \<le> r"
proof -
  have "\<not> pow2 (- 1074) < 0" using pow2_pos [of "- 1074"] by linarith
  then have "0 < real_of_int n" using assms by (simp add: zero_less_mult_iff)
  then have "1 \<le> n" by simp
  then have "1 \<le> real_of_int n" by simp
  then have "1 * pow2 (- 1074) \<le> real_of_int n * pow2 (- 1074)"
    by (intro mult_right_mono) simp_all
  then show ?thesis using assms(1) by (simp add: pow2_def)
qed

lemma add64_close:
  assumes a: "a = of_int na * pow2 (- 1074)" "0 \<le> a"
    and b: "b = of_int nb * pow2 (- 1074)" "0 \<le> b"
    and hi: "a + b \<le> 2 ^ 1000"
  shows "\<exists>s. add64 a b = Some s \<and> (a + b) * (1 - 1 / 2 ^ 53) \<le> s \<and> s \<le> (a + b) * (1 + 1 / 2 ^ 53)"
proof (cases "a + b < 1 / 2 ^ 1022")
  case True
  have e: "a + b = of_int (na + nb) * pow2 (- 1074)" by (simp add: a(1) b(1) algebra_simps)
  have "\<bar>of_int (na + nb) * pow2 (- 1074)\<bar> < 1 / 2 ^ 1022"
    using True a(2) b(2) unfolding e [symmetric] by simp
  from grid_exact [OF this] have "add64 a b = Some (a + b)" by (simp only: add64_def e)
  moreover have "(a + b) * (1 - 1 / 2 ^ 53) \<le> a + b" "a + b \<le> (a + b) * (1 + 1 / 2 ^ 53)"
    using a(2) b(2) by (simp_all add: algebra_simps)
  ultimately show ?thesis by simp
next
  case False
  then have lo: "1 / 2 ^ 1022 \<le> \<bar>a + b\<bar>" using a(2) b(2) by simp
  have h: "\<bar>a + b\<bar> \<le> 2 ^ 1000" using hi a(2) b(2) by simp
  from round64_normal [OF lo h] obtain s where s: "round64 (a + b) = Some s"
    "\<bar>s - (a + b)\<bar> \<le> \<bar>a + b\<bar> / 2 ^ 53" by auto
  have "0 \<le> a + b" using a(2) b(2) by simp
  from rel_bounds [OF s(2) this] show ?thesis using s(1) by (simp add: add64_def)
qed

lemma square64:
  assumes "\<bar>a\<bar> \<le> 2 ^ 450"
  shows "\<exists>aa n. mul64 a a = Some aa \<and> aa = of_int n * pow2 (- 1074) \<and> 0 \<le> aa \<and> aa \<le> 2 ^ 901
           \<and> (a * a \<le> 3 / 2 * aa \<or> aa = 0 \<and> a * a \<le> 1 / 2 ^ 1075)"
proof -
  have a2: "a * a \<le> 2 ^ 900" using square_bound [OF assms] by simp
  then have "\<bar>a * a\<bar> \<le> 2 ^ 1000" by simp
  from round64_any [OF this] obtain aa where aa: "round64 (a * a) = Some aa"
    "\<bar>aa - a * a\<bar> \<le> \<bar>a * a\<bar> / 2 ^ 53 + 1 / 2 ^ 1075" "0 \<le> aa" by auto
  from round64_grid [OF aa(1)] obtain n where n: "aa = of_int n * pow2 (- 1074)" by blast
  define A where "A = a * a"
  have A: "0 \<le> A" "A \<le> 2 ^ 900" using a2 by (simp_all add: A_def)
  have e: "aa \<le> A + A / 2 ^ 53 + 1 / 2 ^ 1075" "A - A / 2 ^ 53 - 1 / 2 ^ 1075 \<le> aa"
    using aa(2) A(1) unfolding A_def [symmetric] by (simp_all add: abs_le_iff)
  have up: "aa \<le> 2 ^ 901" using e(1) A(2) by simp
  have r: "A \<le> 3 / 2 * aa \<or> aa = 0 \<and> A \<le> 1 / 2 ^ 1075"
  proof (cases "1 / 2 ^ 1022 \<le> A")
    case True
    then have "1 / 2 ^ 1075 \<le> A / 2 ^ 53" by simp
    then have "A \<le> 3 / 2 * aa" using e(2) True by simp
    then show ?thesis by simp
  next
    case False
    have nz: "a * a \<noteq> 0 \<Longrightarrow> \<bar>aa - a * a\<bar> \<le> 1 / 2 ^ 1075"
    proof -
      assume z: "a * a \<noteq> 0"
      define q where "q = pow2 (exponent64 (a * a) - 52)"
      have "pow2 \<lfloor>log 2 \<bar>a * a\<bar>\<rfloor> \<le> \<bar>a * a\<bar>" by (rule exponent_bounds(1) [OF z])
      also have "\<dots> < pow2 (- 1022)" using False by (simp add: pow2_def A_def)
      finally have "\<lfloor>log 2 \<bar>a * a\<bar>\<rfloor> < - 1022" by (simp only: pow2_less_iff)
      then have "exponent64 (a * a) = - 1022" by (simp add: exponent64_def)
      then have q: "q = 1 / 2 ^ 1074" by (simp add: q_def pow2_def)
      have qpos: "0 < q" by (simp add: q_def)
      have aaeq: "aa = of_int (roundHalfEven (a * a / q)) * q"
        using aa(1) z by (simp add: round64_def Let_def q_def split: if_splits)
      have "\<bar>of_int (roundHalfEven (a * a / q)) * q - a * a\<bar> \<le> q / 2"
        by (rule quantum_close [OF qpos])
      then have "\<bar>aa - a * a\<bar> \<le> q / 2" by (simp only: aaeq [symmetric])
      then show ?thesis by (simp add: q)
    qed
    show ?thesis
    proof (cases "aa = 0")
      case True
      have "A \<le> 1 / 2 ^ 1075"
      proof (cases "a * a = 0")
        case True
        then show ?thesis by (simp add: A_def)
      next
        case False
        from nz [OF this] show ?thesis using True A(1) by (simp add: A_def)
      qed
      then show ?thesis using True by simp
    next
      case nonzero: False
      then have "0 < aa" using aa(3) by simp
      from grid_positive [OF n this] have g: "1 / 2 ^ 1074 \<le> aa" .
      have "a * a \<noteq> 0" using nonzero aa(1) by auto
      from nz [OF this] have "A \<le> aa + 1 / 2 ^ 1075" unfolding A_def by linarith
      then have "A \<le> 3 / 2 * aa" using g by simp
      then show ?thesis by simp
    qed
  qed
  show ?thesis
    using aa(1) aa(3) n up r by (auto simp: mul64_def A_def)
qed

text \<open>
  \<open>Math.sqrt(a * a + b * b)\<close> for components of any size up to \<open>2^450\<close>: the result is
  finite, and when it is positive, neither component exceeds five quarters of it, also
  where the squares underflow.
\<close>

lemma length64_any:
  assumes a: "\<bar>a\<bar> \<le> 2 ^ 450" and b: "\<bar>b\<bar> \<le> 2 ^ 450"
  shows "\<exists>d. length64 a b = Some d
           \<and> (0 < d \<longrightarrow> \<bar>a\<bar> \<le> 5 / 4 * d \<and> \<bar>b\<bar> \<le> 5 / 4 * d)"
proof -
  from square64 [OF a] obtain aa na where aa: "mul64 a a = Some aa"
    "aa = of_int na * pow2 (- 1074)" "0 \<le> aa" "aa \<le> 2 ^ 901"
    "a * a \<le> 3 / 2 * aa \<or> aa = 0 \<and> a * a \<le> 1 / 2 ^ 1075" by blast
  from square64 [OF b] obtain bb nb where bb: "mul64 b b = Some bb"
    "bb = of_int nb * pow2 (- 1074)" "0 \<le> bb" "bb \<le> 2 ^ 901"
    "b * b \<le> 3 / 2 * bb \<or> bb = 0 \<and> b * b \<le> 1 / 2 ^ 1075" by blast
  have "aa + bb \<le> 2 ^ 1000" using aa(4) bb(4) by simp
  from add64_close [OF aa(2,3) bb(2,3) this] obtain s where s: "add64 aa bb = Some s"
    "(aa + bb) * (1 - 1 / 2 ^ 53) \<le> s" "s \<le> (aa + bb) * (1 + 1 / 2 ^ 53)" by auto
  have spos: "0 \<le> s"
  proof -
    have "0 \<le> (aa + bb) * (1 - 1 / 2 ^ 53)" using aa(3) bb(3) by (intro mult_nonneg_nonneg) simp_all
    then show ?thesis using s(2) by linarith
  qed
  have shi: "s \<le> 2 ^ 903" using s(3) aa(4) bb(4) by simp
  from round64_grid [of "aa + bb" s] s(1) obtain ns where ns: "s = of_int ns * pow2 (- 1074)"
    by (auto simp: add64_def)
  show ?thesis
  proof (cases "s = 0")
    case True
    then have "length64 a b = Some 0"
      using aa(1) bb(1) s(1) by (simp add: length64_def sqrt64_def)
    then show ?thesis by simp
  next
    case False
    then have "0 < s" using spos by simp
    from grid_positive [OF ns this] have slo: "1 / 2 ^ 1074 \<le> s" .
    define sq where "sq = sqrt s"
    have sqsq: "sq * sq = s" using spos by (simp add: sq_def)
    have sqpos: "0 \<le> sq" using spos by (simp add: sq_def)
    have l: "1 / 2 ^ 537 \<le> sq"
      unfolding sq_def by (rule real_le_rsqrt) (use slo in \<open>simp add: power2_eq_square\<close>)
    have h: "sq \<le> 2 ^ 452"
      unfolding sq_def by (rule real_le_lsqrt) (use shi in \<open>simp_all add: power2_eq_square\<close>)
    have l': "1 / 2 ^ 1022 \<le> \<bar>sq\<bar>" using l by simp
    have h': "\<bar>sq\<bar> \<le> 2 ^ 1000" using h sqpos by simp
    from round64_normal [OF l' h'] obtain d where d: "round64 sq = Some d"
      "\<bar>d - sq\<bar> \<le> \<bar>sq\<bar> / 2 ^ 53" by auto
    from rel_bounds(2) [OF d(2) sqpos] have dlo: "sq * (1 - 1 / 2 ^ 53) \<le> d" .
    have dpos: "0 \<le> d"
    proof -
      have "0 \<le> sq * (1 - 1 / 2 ^ 53)" using sqpos by (intro mult_nonneg_nonneg) simp_all
      then show ?thesis using dlo by linarith
    qed
    have "(sq * (1 - 1 / 2 ^ 53)) * (sq * (1 - 1 / 2 ^ 53)) \<le> d * d"
      using dlo sqpos by (intro mult_mono) simp_all
    moreover have "(sq * (1 - 1 / 2 ^ 53)) * (sq * (1 - 1 / 2 ^ 53))
        = s * ((1 - 1 / 2 ^ 53) * (1 - 1 / 2 ^ 53))"
      by (simp add: sqsq [symmetric] algebra_simps)
    ultimately have dd: "s * ((1 - 1 / 2 ^ 53) * (1 - 1 / 2 ^ 53)) \<le> d * d" by simp
    have len: "length64 a b = Some d"
      using aa(1) bb(1) s(1) spos d(1) by (simp add: length64_def sqrt64_def sq_def)
    have ratio: "\<bar>c\<bar> \<le> 5 / 4 * d"
      if "c * c \<le> 3 / 2 * cc \<or> cc = 0 \<and> c * c \<le> 1 / 2 ^ 1075" and "cc \<le> aa + bb" and "0 \<le> cc"
      for c cc :: real
    proof -
      have "c * c \<le> 155 / 100 * s"
        using that(1)
      proof
        assume "c * c \<le> 3 / 2 * cc"
        then show ?thesis using that(2) s(2) spos by simp
      next
        assume "cc = 0 \<and> c * c \<le> 1 / 2 ^ 1075"
        then show ?thesis using slo by simp
      qed
      then have "c * c \<le> 25 / 16 * (d * d)" using dd spos by simp
      then have "c\<^sup>2 \<le> (5 / 4 * d)\<^sup>2" by (simp add: power2_eq_square)
      then have "\<bar>c\<bar> \<le> \<bar>5 / 4 * d\<bar>" by (simp only: abs_le_square_iff)
      then show ?thesis using dpos by simp
    qed
    have "\<bar>a\<bar> \<le> 5 / 4 * d" using aa(5) bb(3) aa(3) by (intro ratio [of a aa]) simp_all
    moreover have "\<bar>b\<bar> \<le> 5 / 4 * d" using bb(5) aa(3) bb(3) by (intro ratio [of b bb]) simp_all
    ultimately show ?thesis using len by simp
  qed
qed

subsection \<open>Homing on binary64 numbers\<close>

text \<open>
  Lengths of plane vectors: a component is no longer than the vector, the triangle
  inequality, and scaling.
\<close>

lemma abs_le_length:
  "\<bar>a\<bar> \<le> sqrt (a * a + b * b)" "\<bar>b\<bar> \<le> sqrt (a * a + b * (b::real))"
proof -
  have "\<bar>a\<bar> \<le> sqrt (\<bar>a\<bar>\<^sup>2 + b\<^sup>2)" by (rule real_sqrt_sum_squares_ge1)
  then show "\<bar>a\<bar> \<le> sqrt (a * a + b * b)" by (simp add: power2_eq_square)
  have "\<bar>b\<bar> \<le> sqrt (a\<^sup>2 + \<bar>b\<bar>\<^sup>2)" by (rule real_sqrt_sum_squares_ge2)
  then show "\<bar>b\<bar> \<le> sqrt (a * a + b * b)" by (simp add: power2_eq_square)
qed

lemma length_triangle:
  "sqrt ((a + c) * (a + c) + (b + d) * (b + d)) \<le> sqrt (a * a + b * b) + (\<bar>c\<bar> + \<bar>d::real\<bar>)"
proof -
  have "sqrt ((a + c)\<^sup>2 + (b + d)\<^sup>2) \<le> sqrt (a\<^sup>2 + b\<^sup>2) + sqrt (c\<^sup>2 + d\<^sup>2)"
    by (rule real_sqrt_sum_squares_triangle_ineq)
  also have "sqrt (c\<^sup>2 + d\<^sup>2) \<le> \<bar>c\<bar> + \<bar>d\<bar>" by (rule sqrt_sum_squares_le_sum_abs)
  finally show ?thesis by (simp add: power2_eq_square)
qed

lemma length_scale:
  assumes "0 \<le> (c::real)"
  shows "sqrt ((c * a) * (c * a) + (c * b) * (c * b)) = c * sqrt (a * a + b * b)"
proof -
  have "(c * a) * (c * a) + (c * b) * (c * b) = c\<^sup>2 * (a * a + b * b)"
    by (simp add: power2_eq_square algebra_simps)
  then show ?thesis using assms by (simp add: real_sqrt_mult)
qed

text \<open>
  \<open>(a / d) * 8\<close>, where \<open>d\<close> is the rounded length of a vector with component \<open>a\<close>:
  both operations return, and the result is within \<open>17 * 2^-53\<close> of \<open>8 * a / d\<close>.
\<close>

lemma scaled_close:
  assumes an: "\<bar>a\<bar> \<le> N" and d: "N * (1 - 4 / 2 ^ 53) \<le> d" and N: "0 < N"
  shows "\<exists>q t. div64 a d = Some q \<and> mul64 q 8 = Some t
           \<and> \<bar>t - 8 * (a / d)\<bar> \<le> 17 / 2 ^ 53 \<and> \<bar>t\<bar> \<le> 9"
proof -
  have dpos: "0 < d" using d N by (simp add: field_simps)
  define rho where "rho = a / d"
  have "\<bar>a\<bar> * (1 - 4 / 2 ^ 53) \<le> d" using an d by simp
  then have "\<bar>a\<bar> / d \<le> 1 / (1 - 4 / 2 ^ 53)" using dpos by (simp add: field_simps)
  also have "\<dots> \<le> 1 + 5 / 2 ^ 53" by simp
  finally have "\<bar>a\<bar> / d \<le> 1 + 5 / 2 ^ 53" .
  moreover have "\<bar>rho\<bar> = \<bar>a\<bar> / d" using dpos by (simp add: rho_def)
  ultimately have r: "\<bar>rho\<bar> \<le> 1 + 5 / 2 ^ 53" by (simp only:)
  from round64_within [OF r] obtain q where q: "round64 rho = Some q"
    "\<bar>q - rho\<bar> \<le> (1 + 5 / 2 ^ 53) / 2 ^ 53 + 1 / 2 ^ 1075" by auto
  have qb: "\<bar>q * 8\<bar> \<le> 8 + 56 / 2 ^ 53" using q(2) r unfolding abs_le_iff by simp
  from round64_within [OF qb] obtain t where t: "round64 (q * 8) = Some t"
    "\<bar>t - q * 8\<bar> \<le> (8 + 56 / 2 ^ 53) / 2 ^ 53 + 1 / 2 ^ 1075" by auto
  have c: "\<bar>t - 8 * rho\<bar> \<le> 17 / 2 ^ 53"
    using t(2) q(2) unfolding abs_le_iff by simp
  have "\<bar>t\<bar> \<le> 9" using c r unfolding abs_le_iff by simp
  then show ?thesis
    using q(1) t(1) c dpos by (simp add: div64_def mul64_def rho_def)
qed

text \<open>
  The same expression when \<open>a\<close> is only known to be at most five quarters of \<open>d\<close> in
  magnitude: the result is at most 11 in magnitude.
\<close>

lemma scaled_bounded:
  assumes a: "\<bar>a\<bar> \<le> 5 / 4 * d" and d: "0 < d"
  shows "\<exists>q t. div64 a d = Some q \<and> mul64 q 8 = Some t \<and> \<bar>t\<bar> \<le> 11"
proof -
  define rho where "rho = a / d"
  have "\<bar>a\<bar> / d \<le> 5 / 4" using a d by (simp add: field_simps)
  moreover have "\<bar>rho\<bar> = \<bar>a\<bar> / d" using d by (simp add: rho_def)
  ultimately have r: "\<bar>rho\<bar> \<le> 5 / 4" by (simp only:)
  from round64_within [OF r] obtain q where q: "round64 rho = Some q"
    "\<bar>q - rho\<bar> \<le> (5 / 4) / 2 ^ 53 + 1 / 2 ^ 1075" by auto
  have qb: "\<bar>q * 8\<bar> \<le> 21 / 2" using q(2) r unfolding abs_le_iff by simp
  from round64_within [OF qb] obtain t where t: "round64 (q * 8) = Some t"
    "\<bar>t - q * 8\<bar> \<le> (21 / 2) / 2 ^ 53 + 1 / 2 ^ 1075" by auto
  have "\<bar>t\<bar> \<le> 11" using t(2) qb unfolding abs_le_iff by simp
  then show ?thesis
    using q(1) t(1) d by (simp add: div64_def mul64_def rho_def)
qed

text \<open>
  \<open>v += (t - v) * 0.15\<close> for \<open>v\<close> of magnitude at most 9 and \<open>t\<close> of magnitude at most
  11: every operation returns, and the new \<open>v\<close> is within \<open>2^-40\<close> of the exact
  interpolation.
\<close>

lemma steered_close:
  assumes v: "\<bar>v\<bar> \<le> 9" and t: "\<bar>t\<bar> \<le> 11"
  shows "\<exists>h e s w. round64 (15 / 100) = Some h \<and> sub64 t v = Some e \<and> mul64 e h = Some s
           \<and> add64 v s = Some w \<and> \<bar>w - (v + (t - v) * (15 / 100))\<bar> \<le> 1 / 2 ^ 40"
proof -
  have "\<bar>15 / 100 :: real\<bar> \<le> 1" by simp
  from round64_within [OF this] obtain h where h: "round64 (15 / 100) = Some h"
    "\<bar>h - 15 / 100\<bar> \<le> 1 / 2 ^ 53 + 1 / 2 ^ 1075" by auto
  have hb: "\<bar>h\<bar> \<le> 1" using h(2) unfolding abs_le_iff by simp
  have h': "\<bar>h - 15 / 100\<bar> \<le> 1 / 2 ^ 52" using h(2) unfolding abs_le_iff by simp
  have tv: "\<bar>t - v\<bar> \<le> 20" using v t unfolding abs_le_iff by simp
  from round64_within [OF tv] obtain e where e: "round64 (t - v) = Some e"
    "\<bar>e - (t - v)\<bar> \<le> 20 / 2 ^ 53 + 1 / 2 ^ 1075" by auto
  have e': "\<bar>e - (t - v)\<bar> \<le> 1 / 2 ^ 48" using e(2) unfolding abs_le_iff by simp
  have eb: "\<bar>e\<bar> \<le> 21" using e' tv unfolding abs_le_iff by simp
  have "e * h - (t - v) * (15 / 100) = (e - (t - v)) * h + (t - v) * (h - 15 / 100)"
    by (simp add: algebra_simps)
  then have "\<bar>e * h - (t - v) * (15 / 100)\<bar>
      \<le> \<bar>(e - (t - v)) * h\<bar> + \<bar>(t - v) * (h - 15 / 100)\<bar>"
    by (simp only: abs_triangle_ineq)
  also have "\<dots> = \<bar>e - (t - v)\<bar> * \<bar>h\<bar> + \<bar>t - v\<bar> * \<bar>h - 15 / 100\<bar>"
    by (simp only: abs_mult)
  also have "\<dots> \<le> 1 / 2 ^ 48 * 1 + 20 * (1 / 2 ^ 52)"
    using e' hb tv h' by (intro add_mono mult_mono) simp_all
  finally have p: "\<bar>e * h - (t - v) * (15 / 100)\<bar> \<le> 1 / 2 ^ 46" by simp
  have "\<bar>e * h\<bar> = \<bar>e\<bar> * \<bar>h\<bar>" by (rule abs_mult)
  also have "\<dots> \<le> 21 * 1" using eb hb by (intro mult_mono) simp_all
  finally have ehb: "\<bar>e * h\<bar> \<le> 21" by simp
  from round64_within [OF ehb] obtain s where s: "round64 (e * h) = Some s"
    "\<bar>s - e * h\<bar> \<le> 21 / 2 ^ 53 + 1 / 2 ^ 1075" by auto
  have s': "\<bar>s - e * h\<bar> \<le> 1 / 2 ^ 48" using s(2) unfolding abs_le_iff by simp
  have vs: "\<bar>v + s\<bar> \<le> 31" using s' ehb v unfolding abs_le_iff by simp
  from round64_within [OF vs] obtain w where w: "round64 (v + s) = Some w"
    "\<bar>w - (v + s)\<bar> \<le> 31 / 2 ^ 53 + 1 / 2 ^ 1075" by auto
  have w': "\<bar>w - (v + s)\<bar> \<le> 1 / 2 ^ 48" using w(2) unfolding abs_le_iff by simp
  have "(1::real) / 2 ^ 48 + 1 / 2 ^ 48 + 1 / 2 ^ 46 \<le> 1 / 2 ^ 40" by simp
  then have "\<bar>w - (v + (t - v) * (15 / 100))\<bar> \<le> 1 / 2 ^ 40"
    using w' s' p by linarith
  then show ?thesis
    using h(1) e(1) s(1) w(1) by (simp add: sub64_def mul64_def add64_def)
qed

text \<open>
  A velocity of length about 8 moved 15 percent of the way towards a vector with
  components of magnitude at most 11 keeps a length of at least 1, so the
  renormalisation of the source takes place and divides by a number away from zero.
\<close>

lemma steered_length:
  assumes V: "\<bar>sqrt (v1 * v1 + v2 * v2) - 8\<bar> \<le> 1 / 2 ^ 46"
    and t: "\<bar>t1\<bar> \<le> 11" "\<bar>t2\<bar> \<le> 11"
    and w1: "\<bar>w1 - (v1 + (t1 - v1) * (15 / 100))\<bar> \<le> 1 / 2 ^ 40"
    and w2: "\<bar>w2 - (v2 + (t2 - v2) * (15 / 100))\<bar> \<le> 1 / 2 ^ 40"
  shows "1 \<le> w1 * w1 + w2 * w2" and "\<bar>w1\<bar> \<le> 9" and "\<bar>w2\<bar> \<le> 9"
proof -
  define L where "L = sqrt (v1 * v1 + v2 * v2)"
  have L: "L \<le> 8 + 1 / 2 ^ 46" "8 - 1 / 2 ^ 46 \<le> L" using V unfolding L_def [symmetric] abs_le_iff by simp_all
  have v: "\<bar>v1\<bar> \<le> L" "\<bar>v2\<bar> \<le> L" unfolding L_def by (rule abs_le_length)+
  have small: "(1::real) / 2 ^ 46 \<le> 1 / 100" "(1::real) / 2 ^ 40 \<le> 1 / 100" by simp_all
  have T: "v1 + (t1 - v1) * (15 / 100) = (85 * v1 + 15 * t1) / 100"
    "v2 + (t2 - v2) * (15 / 100) = (85 * v2 + 15 * t2) / 100"
    by (simp_all add: field_simps)
  show "\<bar>w1\<bar> \<le> 9" using w1 v(1) L(1) t(1) small unfolding T by argo
  show "\<bar>w2\<bar> \<le> 9" using w2 v(2) L(1) t(2) small unfolding T by argo
  define c1 where "c1 = 85 * v1 / 100 - w1"
  define c2 where "c2 = 85 * v2 / 100 - w2"
  have c: "\<bar>c1\<bar> \<le> 17 / 10" "\<bar>c2\<bar> \<le> 17 / 10"
    using w1 w2 t small unfolding c1_def c2_def T by argo+
  have "(85 / 100) * L = sqrt (((85 / 100) * v1) * ((85 / 100) * v1) + ((85 / 100) * v2) * ((85 / 100) * v2))"
    unfolding L_def by (rule length_scale [symmetric]) simp
  also have "\<dots> = sqrt ((w1 + c1) * (w1 + c1) + (w2 + c2) * (w2 + c2))"
    by (simp add: c1_def c2_def)
  also have "\<dots> \<le> sqrt (w1 * w1 + w2 * w2) + (\<bar>c1\<bar> + \<bar>c2\<bar>)" by (rule length_triangle)
  finally have "85 * L / 100 \<le> sqrt (w1 * w1 + w2 * w2) + (\<bar>c1\<bar> + \<bar>c2\<bar>)" by simp
  then have "1 \<le> sqrt (w1 * w1 + w2 * w2)" using c L(2) small by argo
  then show "1 \<le> w1 * w1 + w2 * w2" by simp
qed

text \<open>
  The renormalised velocity: its length is within \<open>2^-46\<close> of 8.
\<close>

lemma rescaled_close:
  assumes n: "1 \<le> a * a + b * b"
    and c: "sqrt (a * a + b * b) * (1 - 4 / 2 ^ 53) \<le> c" "c \<le> sqrt (a * a + b * b) * (1 + 4 / 2 ^ 53)"
    and p1: "\<bar>p1 - 8 * (a / c)\<bar> \<le> 17 / 2 ^ 53"
    and p2: "\<bar>p2 - 8 * (b / c)\<bar> \<le> 17 / 2 ^ 53"
  shows "\<bar>sqrt (p1 * p1 + p2 * p2) - 8\<bar> \<le> 1 / 2 ^ 46"
proof -
  define N where "N = sqrt (a * a + b * b)"
  have N1: "1 \<le> N" using n by (simp add: N_def)
  have cpos: "0 < c" using c(1) N1 unfolding N_def [symmetric] by (simp add: field_simps)
  define M where "M = sqrt ((8 * (a / c)) * (8 * (a / c)) + (8 * (b / c)) * (8 * (b / c)))"
  have "M = sqrt (((8 / c) * a) * ((8 / c) * a) + ((8 / c) * b) * ((8 / c) * b))"
    by (simp add: M_def)
  also have "\<dots> = (8 / c) * N"
    unfolding N_def using cpos by (intro length_scale) simp
  finally have M: "M = 8 * (N / c)" by simp
  define R where "R = N / c"
  have "R \<le> 1 / (1 - 4 / 2 ^ 53)"
    using c(1) cpos unfolding N_def [symmetric] R_def by (simp add: field_simps)
  also have "\<dots> \<le> 1 + 33 / 2 ^ 56" by simp
  finally have R1: "R \<le> 1 + 33 / 2 ^ 56" .
  have "1 - 33 / 2 ^ 56 \<le> 1 / (1 + 4 / 2 ^ 53 :: real)" by simp
  also have "\<dots> \<le> R"
    using c(2) cpos unfolding N_def [symmetric] R_def by (simp add: field_simps)
  finally have R2: "1 - 33 / 2 ^ 56 \<le> R" .
  have "\<bar>8 * R - 8\<bar> \<le> 33 / 2 ^ 53" using R1 R2 unfolding abs_le_iff by simp
  then have M8: "\<bar>M - 8\<bar> \<le> 33 / 2 ^ 53" by (simp only: M R_def)
  define g1 where "g1 = p1 - 8 * (a / c)"
  define g2 where "g2 = p2 - 8 * (b / c)"
  have g: "\<bar>g1\<bar> \<le> 17 / 2 ^ 53" "\<bar>g2\<bar> \<le> 17 / 2 ^ 53" using p1 p2 by (simp_all only: g1_def g2_def)
  have "sqrt (p1 * p1 + p2 * p2)
      = sqrt ((8 * (a / c) + g1) * (8 * (a / c) + g1) + (8 * (b / c) + g2) * (8 * (b / c) + g2))"
    by (simp add: g1_def g2_def)
  also have "\<dots> \<le> M + (\<bar>g1\<bar> + \<bar>g2\<bar>)" unfolding M_def by (rule length_triangle)
  finally have up: "sqrt (p1 * p1 + p2 * p2) \<le> M + 34 / 2 ^ 53" using g by linarith
  have "M = sqrt ((p1 + (- g1)) * (p1 + (- g1)) + (p2 + (- g2)) * (p2 + (- g2)))"
    by (simp add: M_def g1_def g2_def)
  also have "\<dots> \<le> sqrt (p1 * p1 + p2 * p2) + (\<bar>- g1\<bar> + \<bar>- g2\<bar>)" by (rule length_triangle)
  finally have lo: "M - 34 / 2 ^ 53 \<le> sqrt (p1 * p1 + p2 * p2)" using g by simp
  show ?thesis using up lo M8 unfolding abs_le_iff by simp
qed

text \<open>
  The offsets to an enemy in range and their rounded length: all operations return,
  and when the length is positive, neither offset exceeds five quarters of it.
\<close>

lemma offsets64:
  assumes "inRange64 p e"
  shows "\<exists>dx dy d. sub64 (x e) (x p) = Some dx \<and> sub64 (y e) (y p) = Some dy
           \<and> length64 dx dy = Some d
           \<and> (0 < d \<longrightarrow> \<bar>dx\<bar> \<le> 5 / 4 * d \<and> \<bar>dy\<bar> \<le> 5 / 4 * d)"
proof -
  define a where "a = x e - x p"
  define b where "b = y e - y p"
  have ab: "\<bar>a\<bar> \<le> 2 ^ 400" "\<bar>b\<bar> \<le> 2 ^ 400"
    using assms by (auto simp: inRange64_def a_def b_def)
  have big: "(2::real) ^ 400 \<le> 2 ^ 1000" by simp
  from round64_within [OF ab(1) big] obtain dx where dx: "round64 a = Some dx"
    "\<bar>dx - a\<bar> \<le> 2 ^ 400 / 2 ^ 53 + 1 / 2 ^ 1075" by auto
  from round64_within [OF ab(2) big] obtain dy where dy: "round64 b = Some dy"
    "\<bar>dy - b\<bar> \<le> 2 ^ 400 / 2 ^ 53 + 1 / 2 ^ 1075" by auto
  have dxb: "\<bar>dx\<bar> \<le> 2 ^ 450" using dx(2) ab(1) unfolding abs_le_iff by simp
  have dyb: "\<bar>dy\<bar> \<le> 2 ^ 450" using dy(2) ab(2) unfolding abs_le_iff by simp
  have subs: "sub64 (x e) (x p) = Some dx" "sub64 (y e) (y p) = Some dy"
    using dx(1) dy(1) by (simp_all add: sub64_def a_def b_def)
  from length64_any [OF dxb dyb] show ?thesis using subs by auto
qed

text \<open>
  The search for the nearest enemy returns, and what it returns is an enemy of the list
  whenever the list is not empty.
\<close>

lemma nearestScan64_total:
  assumes "\<forall>e \<in> set es. inRange64 p e"
  shows "\<exists>b. nearestScan64 p es best = Some b
           \<and> (b = best \<or> (\<exists>e \<in> set es. \<exists>d. b = Some (e, d)))
           \<and> (es \<noteq> [] \<longrightarrow> b \<noteq> None)"
  using assms
proof (induction es arbitrary: best)
  case Nil
  then show ?case by simp
next
  case (Cons e es)
  have "inRange64 p e" using Cons.prems by simp
  from offsets64 [OF this] obtain dx dy d where o: "sub64 (x e) (x p) = Some dx"
    "sub64 (y e) (y p) = Some dy" "length64 dx dy = Some d" by auto
  define best1 where "best1 = (case best of
            None \<Rightarrow> Some (e, d)
          | Some (nearestEnemy, nearestDistance) \<Rightarrow>
              if d < nearestDistance then Some (e, d) else best)"
  have b1: "best1 \<noteq> None" "best1 = best \<or> best1 = Some (e, d)"
    by (auto simp: best1_def split: option.splits)
  have "\<forall>e \<in> set es. inRange64 p e" using Cons.prems by simp
  from Cons.IH [OF this, of best1] obtain b where b: "nearestScan64 p es best1 = Some b"
    "b = best1 \<or> (\<exists>e \<in> set es. \<exists>d. b = Some (e, d))" by auto
  have "nearestScan64 p (e # es) best = Some b"
    using o b(1) by (simp add: best1_def)
  moreover have "b = best \<or> (\<exists>e' \<in> set (e # es). \<exists>d. b = Some (e', d))"
    using b(2) b1(2) by auto
  moreover have "b \<noteq> None" using b(2) b1(1) by auto
  ultimately show ?case by simp
qed

text \<open>
  Claim C7, as amended. For every homing projectile whose speed is within \<open>2^-46\<close>
  (about \<open>1.4e-14\<close>) of 8, one homing step in binary64 arithmetic returns a projectile
  with a finite velocity whose speed is again within \<open>2^-46\<close> of 8, wherever the
  nearest enemy is among offsets that do not overflow; the step changes nothing but
  the velocity, and with no enemy it leaves the projectile as it is. The speed is the
  length of the velocity that the step stores.
\<close>

theorem homing_speed_rounded:
  assumes sp: "\<bar>sqrt (vx p * vx p + vy p * vy p) - 8\<bar> \<le> 1 / 2 ^ 46"
    and rg: "\<forall>e \<in> set es. inRange64 p e"
  shows "\<exists>p'. homingStep64 es p = Some p'
           \<and> \<bar>sqrt (vx p' * vx p' + vy p' * vy p') - 8\<bar> \<le> 1 / 2 ^ 46
           \<and> p' = p\<lparr>vx := vx p', vy := vy p'\<rparr>
           \<and> (es = [] \<longrightarrow> p' = p)"
proof (cases "es = []")
  case True
  then show ?thesis using sp by (simp add: homingStep64_def)
next
  case False
  from nearestScan64_total [OF rg, of None] False
  obtain ne nd where best: "nearestScan64 p es None = Some (Some (ne, nd))" and ne: "ne \<in> set es"
    by auto
  have "inRange64 p ne" using rg ne by simp
  from offsets64 [OF this] obtain dx dy d where o: "sub64 (x ne) (x p) = Some dx"
    "sub64 (y ne) (y p) = Some dy" "length64 dx dy = Some d"
    "0 < d \<longrightarrow> \<bar>dx\<bar> \<le> 5 / 4 * d \<and> \<bar>dy\<bar> \<le> 5 / 4 * d"
    by auto
  show ?thesis
  proof (cases "0 < d")
    case False
    then have "homingStep64 es p = Some p"
      using best o(1,2,3) by (simp add: homingStep64_def)
    then show ?thesis using sp \<open>es \<noteq> []\<close> by simp
  next
    case True
    then have N: "\<bar>dx\<bar> \<le> 5 / 4 * d" "\<bar>dy\<bar> \<le> 5 / 4 * d"
      using o(4) by auto
    from scaled_bounded [OF N(1) True]
    obtain ux tx where tx: "div64 dx d = Some ux" "mul64 ux 8 = Some tx" "\<bar>tx\<bar> \<le> 11" by auto
    from scaled_bounded [OF N(2) True]
    obtain uy ty where ty: "div64 dy d = Some uy" "mul64 uy 8 = Some ty" "\<bar>ty\<bar> \<le> 11" by auto
    have small: "(1::real) / 2 ^ 46 \<le> 1" by simp
    have vb: "\<bar>vx p\<bar> \<le> 9" "\<bar>vy p\<bar> \<le> 9"
      using abs_le_length [where a = "vx p" and b = "vy p"] sp small by linarith+
    from steered_close [OF vb(1) tx(3)]
    obtain h ex sx w1 where w1: "round64 (15 / 100) = Some h" "sub64 tx (vx p) = Some ex"
      "mul64 ex h = Some sx" "add64 (vx p) sx = Some w1"
      "\<bar>w1 - (vx p + (tx - vx p) * (15 / 100))\<bar> \<le> 1 / 2 ^ 40" by auto
    from steered_close [OF vb(2) ty(3)] w1(1)
    obtain ey sy w2 where w2: "sub64 ty (vy p) = Some ey"
      "mul64 ey h = Some sy" "add64 (vy p) sy = Some w2"
      "\<bar>w2 - (vy p + (ty - vy p) * (15 / 100))\<bar> \<le> 1 / 2 ^ 40" by auto
    have strength: "round64 PROJECTILE_HOMING_STRENGTH = Some h"
      using w1(1) by (simp add: PROJECTILE_HOMING_STRENGTH_def)
    from steered_length [OF sp tx(3) ty(3) w1(5) w2(4)]
    have w: "1 \<le> w1 * w1 + w2 * w2" "\<bar>w1\<bar> \<le> 9" "\<bar>w2\<bar> \<le> 9" .
    have wb: "\<bar>w1\<bar> \<le> 2 ^ 450" "\<bar>w2\<bar> \<le> 2 ^ 450" "1 / 2 ^ 900 \<le> w1 * w1 + w2 * w2"
      using w by simp_all
    from length64_close [OF wb] obtain c where c: "length64 w1 w2 = Some c"
      "sqrt (w1 * w1 + w2 * w2) * (1 - 4 / 2 ^ 53) \<le> c"
      "c \<le> sqrt (w1 * w1 + w2 * w2) * (1 + 4 / 2 ^ 53)" by auto
    have M: "0 < sqrt (w1 * w1 + w2 * w2)" using w(1) by simp
    then have "0 < sqrt (w1 * w1 + w2 * w2) * (1 - 4 / 2 ^ 53)"
      by (intro mult_pos_pos) simp_all
    then have cpos: "0 < c" using c(2) by linarith
    from scaled_close [OF abs_le_length(1) c(2) M]
    obtain q1 r1 where r1: "div64 w1 c = Some q1" "mul64 q1 8 = Some r1"
      "\<bar>r1 - 8 * (w1 / c)\<bar> \<le> 17 / 2 ^ 53" by auto
    from scaled_close [OF abs_le_length(2) c(2) M]
    obtain q2 r2 where r2: "div64 w2 c = Some q2" "mul64 q2 8 = Some r2"
      "\<bar>r2 - 8 * (w2 / c)\<bar> \<le> 17 / 2 ^ 53" by auto
    have fin: "\<bar>sqrt (r1 * r1 + r2 * r2) - 8\<bar> \<le> 1 / 2 ^ 46"
      by (rule rescaled_close [OF w(1) c(2) c(3) r1(3) r2(3)])
    have "homingStep64 es p = Some (p\<lparr>vx := r1, vy := r2\<rparr>)"
      using best o(1,2,3) True tx(1,2) ty(1,2) strength w1(2,3,4) w2(1,2,3) c(1) cpos r1(1,2) r2(1,2)
      by (simp add: homingStep64_def PROJECTILE_SPEED_PLAYER_def)
    then show ?thesis using fin \<open>es \<noteq> []\<close> by simp
  qed
qed

text \<open>
  Claim C7, witness: a homing projectile flying straight up at speed 8 from the origin,
  with one enemy at \<open>(30, 40)\<close>, and with no enemy.
\<close>

theorem homing_speed_rounded_witness:
  "\<bar>sqrt (vx ((shotAt 0 0)\<lparr>homing := Some True\<rparr>) * vx ((shotAt 0 0)\<lparr>homing := Some True\<rparr>)
        + vy ((shotAt 0 0)\<lparr>homing := Some True\<rparr>) * vy ((shotAt 0 0)\<lparr>homing := Some True\<rparr>)) - 8\<bar> \<le> 1 / 2 ^ 46
   \<and> inRange64 ((shotAt 0 0)\<lparr>homing := Some True\<rparr>) (enemyAt melee 30 40)
   \<and> (\<exists>p'. homingStep64 [enemyAt melee 30 40] ((shotAt 0 0)\<lparr>homing := Some True\<rparr>) = Some p'
         \<and> \<bar>sqrt (vx p' * vx p' + vy p' * vy p') - 8\<bar> \<le> 1 / 2 ^ 46)
   \<and> homingStep64 [] ((shotAt 0 0)\<lparr>homing := Some True\<rparr>) = Some ((shotAt 0 0)\<lparr>homing := Some True\<rparr>)"
proof -
  let ?p = "((shotAt 0 0)\<lparr>homing := Some True\<rparr>)"
  have h: "\<bar>sqrt (vx ?p * vx ?p + vy ?p * vy ?p) - 8\<bar> \<le> 1 / 2 ^ 46"
    by (simp add: shotAt_def)
  have r: "inRange64 ?p (enemyAt melee 30 40)"
    by (simp add: inRange64_def shotAt_def enemyAt_def)
  then have r1: "\<forall>e \<in> set [enemyAt melee 30 40]. inRange64 ?p e" by simp
  have r0: "\<forall>e \<in> set []. inRange64 ?p e" by simp
  from homing_speed_rounded [OF h r1]
  have a: "\<exists>p'. homingStep64 [enemyAt melee 30 40] ?p = Some p'
         \<and> \<bar>sqrt (vx p' * vx p' + vy p' * vy p') - 8\<bar> \<le> 1 / 2 ^ 46" by blast
  from homing_speed_rounded [OF h r0]
  have b: "homingStep64 [] ?p = Some ?p" by auto
  show ?thesis by (intro conjI h r a b)
qed

text \<open>
  Claim C7 as stated fails: a homing projectile flying straight up at speed exactly 8
  from the origin, with the nearest enemy at \<open>(30, 40)\<close>, leaves the homing step with
  the velocity \<open>(551066044311665 / 2^49, -2234878957486197 / 2^48)\<close>, in decimal
  \<open>(0.9788899367742676, -7.939885042724615)\<close>, whose length is less than 8; computed
  as the program would compute it, \<open>Math.sqrt(vx * vx + vy * vy)\<close>, the speed is
  \<open>8 - 2^-50\<close>, in decimal \<open>7.999999999999999\<close>, the binary64 value next below 8.
\<close>

theorem homing_speed_counterexample:
  "sqrt (vx ((shotAt 0 0)\<lparr>homing := Some True\<rparr>) * vx ((shotAt 0 0)\<lparr>homing := Some True\<rparr>)
       + vy ((shotAt 0 0)\<lparr>homing := Some True\<rparr>) * vy ((shotAt 0 0)\<lparr>homing := Some True\<rparr>)) = 8
   \<and> homingStep64 [enemyAt melee 30 40] ((shotAt 0 0)\<lparr>homing := Some True\<rparr>)
       = Some (((shotAt 0 0)\<lparr>homing := Some True\<rparr>)\<lparr>vx := (551066044311665 / 2 ^ 49),
                   vy := (- (2234878957486197 / 2 ^ 48))\<rparr>)
   \<and> sqrt ((551066044311665 / 2 ^ 49) * (551066044311665 / 2 ^ 49)
         + (- (2234878957486197 / 2 ^ 48)) * (- (2234878957486197 / 2 ^ 48))) < 8
   \<and> length64 (551066044311665 / 2 ^ 49) (- (2234878957486197 / 2 ^ 48)) = Some (8 - 1 / 2 ^ 50)"
proof -
  have f1: "sub64 30 0 = Some 30"
    using round64_exact [of "15" "1"] by (simp add: sub64_def pow2_def)
  have f2: "sub64 40 0 = Some 40"
    using round64_exact [of "5" "3"] by (simp add: sub64_def pow2_def)
  have f3: "mul64 30 30 = Some 900"
    using round64_exact [of "225" "2"] by (simp add: mul64_def pow2_def)
  have f4: "mul64 40 40 = Some 1600"
    using round64_exact [of "25" "6"] by (simp add: mul64_def pow2_def)
  have f5: "add64 900 1600 = Some 2500"
    using round64_exact [of "625" "2"] by (simp add: add64_def pow2_def)
  have f6: "sqrt64 2500 = Some 50"
  proof -
    have "sqrt 2500 = (50::real)" by (rule real_sqrt_unique) simp_all
    then show ?thesis using round64_exact [of "25" "1"] by (simp add: sqrt64_def pow2_def)
  qed
  have f7: "div64 30 50 = Some (5404319552844595 / 2 ^ 53)"
    using round64_near [of "-53" "30 / 50" "5404319552844595"] by (simp add: div64_def pow2_def)
  have f8: "mul64 (5404319552844595 / 2 ^ 53) 8 = Some (5404319552844595 / 2 ^ 50)"
    using round64_exact [of "5404319552844595" "-50"] by (simp add: mul64_def pow2_def)
  have f9: "div64 40 50 = Some (3602879701896397 / 2 ^ 52)"
    using round64_near [of "-53" "40 / 50" "7205759403792794"] by (simp add: div64_def pow2_def)
  have f10: "mul64 (3602879701896397 / 2 ^ 52) 8 = Some (3602879701896397 / 2 ^ 49)"
    using round64_exact [of "3602879701896397" "-49"] by (simp add: mul64_def pow2_def)
  have f11: "round64 (15 / 100) = Some (5404319552844595 / 2 ^ 55)"
    using round64_near [of "-55" "(15 / 100)" "5404319552844595"] by (simp add: pow2_def)
  have f12: "sub64 (5404319552844595 / 2 ^ 50) 0 = Some (5404319552844595 / 2 ^ 50)"
    using round64_exact [of "5404319552844595" "-50"] by (simp add: sub64_def pow2_def)
  have f13: "mul64 (5404319552844595 / 2 ^ 50) (5404319552844595 / 2 ^ 55)
      = Some (3242591731706757 / 2 ^ 52)"
    using round64_near [of "-53" "(5404319552844595 / 2 ^ 50) * (5404319552844595 / 2 ^ 55)" "6485183463413514"]
    by (simp add: mul64_def pow2_def)
  have f14: "add64 0 (3242591731706757 / 2 ^ 52) = Some (3242591731706757 / 2 ^ 52)"
    using round64_exact [of "3242591731706757" "-52"] by (simp add: add64_def pow2_def)
  have f15: "sub64 (3602879701896397 / 2 ^ 49) (- 8) = Some (8106479329266893 / 2 ^ 49)"
    using round64_exact [of "8106479329266893" "-49"] by (simp add: sub64_def pow2_def)
  have f16: "mul64 (8106479329266893 / 2 ^ 49) (5404319552844595 / 2 ^ 55)
      = Some (607985949695017 / 2 ^ 48)"
    using round64_near [of "-51" "(8106479329266893 / 2 ^ 49) * (5404319552844595 / 2 ^ 55)" "4863887597560136"]
    by (simp add: mul64_def pow2_def)
  have f17: "add64 (- 8) (607985949695017 / 2 ^ 48) = Some (- (1643813863990231 / 2 ^ 48))"
    using round64_exact [of "-1643813863990231" "-48"] by (simp add: add64_def pow2_def)
  have f18: "mul64 (3242591731706757 / 2 ^ 52) (3242591731706757 / 2 ^ 52)
      = Some (2334666046828865 / 2 ^ 52)"
    using round64_near [of "-53" "(3242591731706757 / 2 ^ 52) * (3242591731706757 / 2 ^ 52)" "4669332093657730"]
    by (simp add: mul64_def pow2_def)
  have f19: "mul64 (- (1643813863990231 / 2 ^ 48)) (- (1643813863990231 / 2 ^ 48))
      = Some (2399968241425737 / 2 ^ 46)"
    using round64_near [of "-47" "(- (1643813863990231 / 2 ^ 48)) * (- (1643813863990231 / 2 ^ 48))" "4799936482851474"]
    by (simp add: mul64_def pow2_def)
  have f20: "add64 (2334666046828865 / 2 ^ 52) (2399968241425737 / 2 ^ 46)
      = Some (1218223699203719 / 2 ^ 45)"
    using round64_near [of "-47" "(2334666046828865 / 2 ^ 52) + (2399968241425737 / 2 ^ 46)" "4872894796814876"]
    by (simp add: add64_def pow2_def)
  have f21: "sqrt64 (1218223699203719 / 2 ^ 45) = Some (6625038443835795 / 2 ^ 50)"
    using sqrt64_near [of "(1218223699203719 / 2 ^ 45)" "-50" "6625038443835795"]
    by (simp add: pow2_def)
  have f22: "div64 (3242591731706757 / 2 ^ 52) (6625038443835795 / 2 ^ 50)
      = Some (551066044311665 / 2 ^ 52)"
    using round64_near [of "-56" "(3242591731706757 / 2 ^ 52) / (6625038443835795 / 2 ^ 50)" "8817056708986640"]
    by (simp add: div64_def pow2_def)
  have f23: "mul64 (551066044311665 / 2 ^ 52) 8 = Some (551066044311665 / 2 ^ 49)"
    using round64_exact [of "551066044311665" "-49"] by (simp add: mul64_def pow2_def)
  have f24: "div64 (- (1643813863990231 / 2 ^ 48)) (6625038443835795 / 2 ^ 50)
      = Some (- (2234878957486197 / 2 ^ 51))"
    using round64_near [of "-53" "(- (1643813863990231 / 2 ^ 48)) / (6625038443835795 / 2 ^ 50)" "-8939515829944788"]
    by (simp add: div64_def pow2_def)
  have f25: "mul64 (- (2234878957486197 / 2 ^ 51)) 8 = Some (- (2234878957486197 / 2 ^ 48))"
    using round64_exact [of "-2234878957486197" "-48"] by (simp add: mul64_def pow2_def)
  have f26: "mul64 (551066044311665 / 2 ^ 49) (551066044311665 / 2 ^ 49)
      = Some (1078866010549383 / 2 ^ 50)"
    using round64_near [of "-53" "(551066044311665 / 2 ^ 49) * (551066044311665 / 2 ^ 49)" "8630928084395064"]
    by (simp add: mul64_def pow2_def)
  have f27: "mul64 (- (2234878957486197 / 2 ^ 48)) (- (2234878957486197 / 2 ^ 48))
      = Some (4436170501711159 / 2 ^ 46)"
    using round64_near [of "-47" "(- (2234878957486197 / 2 ^ 48)) * (- (2234878957486197 / 2 ^ 48))" "8872341003422318"]
    by (simp add: mul64_def pow2_def)
  have f28: "add64 (1078866010549383 / 2 ^ 50) (4436170501711159 / 2 ^ 46)
      = Some (9007199254740991 / 2 ^ 47)"
    using round64_near [of "-47" "(1078866010549383 / 2 ^ 50) + (4436170501711159 / 2 ^ 46)" "9007199254740991"]
    by (simp add: add64_def pow2_def)
  have f29: "sqrt64 (9007199254740991 / 2 ^ 47) = Some (9007199254740991 / 2 ^ 50)"
    using sqrt64_near [of "(9007199254740991 / 2 ^ 47)" "-50" "9007199254740991"]
    by (simp add: pow2_def)
  have before: "sqrt (vx ((shotAt 0 0)\<lparr>homing := Some True\<rparr>) * vx ((shotAt 0 0)\<lparr>homing := Some True\<rparr>)
       + vy ((shotAt 0 0)\<lparr>homing := Some True\<rparr>) * vy ((shotAt 0 0)\<lparr>homing := Some True\<rparr>)) = 8"
    by (simp add: shotAt_def)
  have l1: "length64 30 40 = Some 50"
    using f3 f4 f5 f6 by (simp add: length64_def)
  have l2: "length64 (3242591731706757 / 2 ^ 52) (- (1643813863990231 / 2 ^ 48))
      = Some (6625038443835795 / 2 ^ 50)"
    using f18 f19 f20 f21 by (simp add: length64_def)
  have step: "homingStep64 [enemyAt melee 30 40] ((shotAt 0 0)\<lparr>homing := Some True\<rparr>)
       = Some (((shotAt 0 0)\<lparr>homing := Some True\<rparr>)\<lparr>vx := (551066044311665 / 2 ^ 49),
                   vy := (- (2234878957486197 / 2 ^ 48))\<rparr>)"
    using f1 f2 f7 f8 f9 f10 f11 f12 f13 f14 f15 f16 f17 f22 f23 f24 f25 l1 l2
    by (simp add: homingStep64_def enemyAt_def shotAt_def PROJECTILE_SPEED_PLAYER_def
        PROJECTILE_HOMING_STRENGTH_def)
  have "(551066044311665 / 2 ^ 49) * (551066044311665 / 2 ^ 49)
      + (- (2234878957486197 / 2 ^ 48)) * (- (2234878957486197 / 2 ^ 48)) < (64::real)"
    by simp
  then have "sqrt ((551066044311665 / 2 ^ 49) * (551066044311665 / 2 ^ 49)
         + (- (2234878957486197 / 2 ^ 48)) * (- (2234878957486197 / 2 ^ 48))) < sqrt 64"
    by (simp only: real_sqrt_less_iff)
  then have below: "sqrt ((551066044311665 / 2 ^ 49) * (551066044311665 / 2 ^ 49)
         + (- (2234878957486197 / 2 ^ 48)) * (- (2234878957486197 / 2 ^ 48))) < 8"
    by simp
  have l3: "length64 (551066044311665 / 2 ^ 49) (- (2234878957486197 / 2 ^ 48)) = Some (8 - 1 / 2 ^ 50)"
    using f26 f27 f28 f29 by (simp add: length64_def)
  show ?thesis by (intro conjI before step below l3)
qed

subsection \<open>The explosive enemy\<close>

lemma splice_update [simp]: "splice i (xs[i := v]) = splice i xs"
  by (simp add: splice_def)

lemma length_splice [simp]: "i < length xs \<Longrightarrow> length (splice i xs) = length xs - 1"
  by (simp add: splice_def)

lemma or_default_nonzero: "d \<noteq> 0 \<Longrightarrow> or_default v d \<noteq> 0"
  by (simp add: or_default_def split: option.split)

lemma updateExplosive_trigger:
  assumes "\<not> truthy (exploded (enemiesRef g ! i))"
    and "distance < 80"
  shows "updateExplosive i dx dy distance g =
     Some (True,
       (if distance < or_default (explosionRadius (enemiesRef g ! i)) 100
        then hurt (Enemy.damage (enemiesRef g ! i) * 3
                    * max 0 (1 - distance / or_default (explosionRadius (enemiesRef g ! i)) 100)) g
        else g)\<lparr>enemiesRef := splice i (enemiesRef g)\<rparr>)"
  using assms or_default_nonzero [of 100 "explosionRadius (enemiesRef g ! i)"]
  by (simp add: updateExplosive_def steerToward_eq integrate_def setEnemy_def hurt_def Let_def
      EXPLOSIVE_TRIGGER_DISTANCE_def EXPLOSIVE_EXPLOSION_RADIUS_def EXPLOSIVE_DAMAGE_MULTIPLIER_def)

lemma updateExplosive_approach:
  assumes "\<not> truthy (exploded (enemiesRef g ! i))"
    and "80 \<le> distance"
  shows "updateExplosive i dx dy distance g =
     Some (False, setEnemy i (integrate (the (steerToward dx dy distance (enemiesRef g ! i)))) g)"
  using assms
  by (simp add: updateExplosive_def steerToward_eq Let_def EXPLOSIVE_TRIGGER_DISTANCE_def)

lemma updateExplosive_exploded:
  assumes "truthy (exploded (enemiesRef g ! i))"
  shows "updateExplosive i dx dy distance g = Some (False, g)"
  using assms by (simp add: updateExplosive_def)

lemma updateEnemy_explosive:
  assumes i: "i < length (enemiesRef g)"
    and ty: "type (enemiesRef g ! i) = explosive"
  shows "updateEnemy canvas currentTime deltaTime i g =
     do {
       (continued, g1) \<leftarrow> updateExplosive i (x (playerRef g) - x (enemiesRef g ! i))
           (y (playerRef g) - y (enemiesRef g ! i))
           (sqrt ((x (playerRef g) - x (enemiesRef g ! i)) * (x (playerRef g) - x (enemiesRef g ! i))
                + (y (playerRef g) - y (enemiesRef g ! i)) * (y (playerRef g) - y (enemiesRef g ! i)))) g;
       Some (if continued then g1
             else if \<bar>y (enemiesRef g1 ! i) - y (playerRef g1)\<bar> > height canvas * 2
             then g1\<lparr>enemiesRef := splice i (enemiesRef g1)\<rparr>
             else g1)
     }"
  using i ty by (simp add: updateEnemy_def Let_def)

text \<open>
  An explosive enemy that is as the spawn built it has not exploded and has the
  explosion radius 100. Every enemy of a running game is as the spawn built it
  (\<open>update_asSpawned\<close> below: a tick keeps it so, and the list starts empty).
\<close>

lemma asSpawned_fields:
  "asSpawned enemy \<Longrightarrow> type enemy = explosive \<Longrightarrow>
     \<not> truthy (exploded enemy) \<and> or_default (explosionRadius enemy) EXPLOSIVE_EXPLOSION_RADIUS = 100"
  by (simp add: asSpawned_def truthy_def or_default_def EXPLOSIVE_EXPLOSION_RADIUS_def)

text \<open>
  Claim C4. Let an explosive enemy stand at index \<open>i\<close> of the enemy list, as the spawn
  built it (not yet exploded, explosion radius 100), and let \<open>d\<close> be its distance to the
  player when the loop reaches it. If \<open>d < 80\<close>, the body of the loop subtracts
  \<open>enemyDamage * 3 * max(0, 1 - d / 100)\<close> from the blood gauge, once, and removes the
  enemy from the list at once: the list after the step is the list before without
  position \<open>i\<close>, the projectiles are untouched, and the loop goes on with the indices
  below \<open>i\<close> on the list without the enemy, which therefore no later step or tick can
  move or let deal damage.
\<close>

theorem explosive_trigger:
  assumes i: "i < length (enemiesRef g)"
    and ty: "type (enemiesRef g ! i) = explosive"
    and sp: "asSpawned (enemiesRef g ! i)"
    and d: "d = sqrt ((x (playerRef g) - x (enemiesRef g ! i)) * (x (playerRef g) - x (enemiesRef g ! i))
                + (y (playerRef g) - y (enemiesRef g ! i)) * (y (playerRef g) - y (enemiesRef g ! i)))"
    and trig: "d < 80"
  shows "\<exists>g'. updateEnemy canvas currentTime deltaTime i g = Some g'
     \<and> bloodGauge (playerRef g')
         = bloodGauge (playerRef g) - Enemy.damage (enemiesRef g ! i) * 3 * max 0 (1 - d / 100)
     \<and> playerRef g' = (playerRef g)\<lparr>bloodGauge := bloodGauge (playerRef g')\<rparr>
     \<and> enemiesRef g' = take i (enemiesRef g) @ drop (Suc i) (enemiesRef g)
     \<and> length (enemiesRef g') = length (enemiesRef g) - 1
     \<and> projectilesRef g' = projectilesRef g
     \<and> updateEnemies canvas currentTime deltaTime (Suc i) g
         = updateEnemies canvas currentTime deltaTime i g'"
proof -
  have ne: "\<not> truthy (exploded (enemiesRef g ! i))"
    and r: "or_default (explosionRadius (enemiesRef g ! i)) 100 = 100"
    using asSpawned_fields [OF sp ty] by (simp_all add: EXPLOSIVE_EXPLOSION_RADIUS_def)
  have "updateEnemy canvas currentTime deltaTime i g =
      Some ((hurt (Enemy.damage (enemiesRef g ! i) * 3 * max 0 (1 - d / 100)) g)
              \<lparr>enemiesRef := splice i (enemiesRef g)\<rparr>)"
    using updateExplosive_trigger [OF ne trig, of "x (playerRef g) - x (enemiesRef g ! i)"
        "y (playerRef g) - y (enemiesRef g ! i)"] trig
    by (simp add: updateEnemy_explosive [OF i ty] d [symmetric] r)
  then show ?thesis
    using i by (simp add: hurt_def Let_def splice_def)
qed

text \<open>
  Claim C4, witness: an explosive enemy at \<open>(30, 40)\<close>, at distance 50 from the
  initial player, with damage 5, takes \<open>5 * 3 * 0.5 = 7.5\<close> from the gauge and is gone.
\<close>

theorem explosive_trigger_witness:
  "0 < length (enemiesRef (gameWith [enemyAt explosive 30 40]))
   \<and> type (enemiesRef (gameWith [enemyAt explosive 30 40]) ! 0) = explosive
   \<and> asSpawned (enemiesRef (gameWith [enemyAt explosive 30 40]) ! 0)
   \<and> sqrt ((x initialPlayer - 30) * (x initialPlayer - 30)
           + (y initialPlayer - 40) * (y initialPlayer - 40)) = 50
   \<and> (\<exists>g'. updateEnemy \<lparr>width = 800, height = 600\<rparr> 0 16 0 (gameWith [enemyAt explosive 30 40])
              = Some g'
         \<and> bloodGauge (playerRef g') = 92.5
         \<and> enemiesRef g' = [])"
proof -
  let ?g = "gameWith [enemyAt explosive 30 40]"
  have h: "0 < length (enemiesRef ?g)" "type (enemiesRef ?g ! 0) = explosive"
    "asSpawned (enemiesRef ?g ! 0)"
    by (simp_all add: gameWith_def enemyAt_def asSpawned_def EXPLOSIVE_EXPLOSION_RADIUS_def)
  have d: "50 = sqrt ((x (playerRef ?g) - x (enemiesRef ?g ! 0)) * (x (playerRef ?g) - x (enemiesRef ?g ! 0))
                + (y (playerRef ?g) - y (enemiesRef ?g ! 0)) * (y (playerRef ?g) - y (enemiesRef ?g ! 0)))"
    by (simp add: gameWith_def enemyAt_def initialPlayer_def)
  have d': "sqrt ((x initialPlayer - 30) * (x initialPlayer - 30)
           + (y initialPlayer - 40) * (y initialPlayer - 40)) = 50"
    by (simp add: initialPlayer_def)
  from explosive_trigger [OF h d, of "\<lparr>width = 800, height = 600\<rparr>" 0 16]
  have "\<exists>g'. updateEnemy \<lparr>width = 800, height = 600\<rparr> 0 16 0 ?g = Some g'
         \<and> bloodGauge (playerRef g') = 92.5 \<and> enemiesRef g' = []"
    by (auto simp: gameWith_def enemyAt_def initialPlayer_def)
  then show ?thesis using h d' by blast
qed

text \<open>
  Claim C10. The body of the loop for an explosive enemy at distance \<open>d\<close> of the player
  always returns. When \<open>d \<ge> 80\<close> it leaves the whole player (the blood gauge
  included), the game state and the projectiles as they were, whatever the radii of the
  player and of the enemy: there is no contact damage. In every case the gauge after the
  step is the gauge before, less the explosion damage exactly when the enemy had not yet
  exploded, \<open>d < 80\<close> and \<open>d\<close> is within the explosion radius.
\<close>

theorem explosive_no_contact_damage:
  assumes i: "i < length (enemiesRef g)"
    and ty: "type (enemiesRef g ! i) = explosive"
    and d: "d = sqrt ((x (playerRef g) - x (enemiesRef g ! i)) * (x (playerRef g) - x (enemiesRef g ! i))
                + (y (playerRef g) - y (enemiesRef g ! i)) * (y (playerRef g) - y (enemiesRef g ! i)))"
  shows "\<exists>g'. updateEnemy canvas currentTime deltaTime i g = Some g'
     \<and> (80 \<le> d \<longrightarrow> playerRef g' = playerRef g \<and> gameState g' = gameState g
                    \<and> projectilesRef g' = projectilesRef g)
     \<and> bloodGauge (playerRef g') =
          (if \<not> truthy (exploded (enemiesRef g ! i)) \<and> d < 80
              \<and> d < or_default (explosionRadius (enemiesRef g ! i)) 100
           then bloodGauge (playerRef g) - Enemy.damage (enemiesRef g ! i) * 3
                  * max 0 (1 - d / or_default (explosionRadius (enemiesRef g ! i)) 100)
           else bloodGauge (playerRef g))"
proof (cases "truthy (exploded (enemiesRef g ! i))")
  case True
  show ?thesis
    using updateExplosive_exploded [OF True]
    by (simp add: updateEnemy_explosive [OF i ty] True)
next
  case False
  show ?thesis
  proof (cases "d < 80")
    case True
    show ?thesis
      using updateExplosive_trigger [OF False True, of "x (playerRef g) - x (enemiesRef g ! i)"
        "y (playerRef g) - y (enemiesRef g ! i)"] True False
      by (simp add: updateEnemy_explosive [OF i ty] d [symmetric] hurt_def Let_def)
  next
    case far: False
    then have "80 \<le> d" by simp
    from updateExplosive_approach [OF False this, of "x (playerRef g) - x (enemiesRef g ! i)"
        "y (playerRef g) - y (enemiesRef g ! i)"] far
    show ?thesis
      by (simp add: updateEnemy_explosive [OF i ty] d [symmetric] setEnemy_def)
  qed
qed

text \<open>
  Claim C10, witness: an explosive enemy at \<open>(60, 80)\<close>, at distance 100, leaves the
  initial player unchanged.
\<close>

theorem explosive_no_contact_damage_witness:
  "0 < length (enemiesRef (gameWith [enemyAt explosive 60 80]))
   \<and> type (enemiesRef (gameWith [enemyAt explosive 60 80]) ! 0) = explosive
   \<and> sqrt ((x initialPlayer - 60) * (x initialPlayer - 60)
           + (y initialPlayer - 80) * (y initialPlayer - 80)) = 100
   \<and> (\<exists>g'. updateEnemy \<lparr>width = 800, height = 600\<rparr> 0 16 0 (gameWith [enemyAt explosive 60 80])
              = Some g'
         \<and> playerRef g' = initialPlayer \<and> bloodGauge (playerRef g') = 100)"
proof -
  let ?g = "gameWith [enemyAt explosive 60 80]"
  have h: "0 < length (enemiesRef ?g)" "type (enemiesRef ?g ! 0) = explosive"
    by (simp_all add: gameWith_def enemyAt_def)
  have d: "100 = sqrt ((x (playerRef ?g) - x (enemiesRef ?g ! 0)) * (x (playerRef ?g) - x (enemiesRef ?g ! 0))
                + (y (playerRef ?g) - y (enemiesRef ?g ! 0)) * (y (playerRef ?g) - y (enemiesRef ?g ! 0)))"
    by (simp add: gameWith_def enemyAt_def initialPlayer_def)
  have d': "sqrt ((x initialPlayer - 60) * (x initialPlayer - 60)
           + (y initialPlayer - 80) * (y initialPlayer - 80)) = 100"
    by (simp add: initialPlayer_def)
  from explosive_no_contact_damage [OF h d, of "\<lparr>width = 800, height = 600\<rparr>" 0 16]
  have "\<exists>g'. updateEnemy \<lparr>width = 800, height = 600\<rparr> 0 16 0 ?g = Some g'
         \<and> playerRef g' = initialPlayer \<and> bloodGauge (playerRef g') = 100"
    by (auto simp: gameWith_def initialPlayer_def)
  then show ?thesis using h d' by blast
qed

subsection \<open>The player's ranged fire\<close>

lemma projectileCount_pos: "0 < projectileLevel player \<Longrightarrow> 1 \<le> projectileCount player"
proof -
  assume "0 < projectileLevel player"
  then have "0 \<le> (real_of_int (projectileLevel player) - 1) / 3" by simp
  then have "0 \<le> \<lfloor>(real_of_int (projectileLevel player) - 1) / 3\<rfloor>" by simp
  then show ?thesis
    by (simp add: projectileCount_def PROJECTILE_COUNT_BASE_def PROJECTILE_COUNT_INCREASE_INTERVAL_def)
qed

lemma sortedEnemies_props:
  "mset (sortedEnemies player es) = mset es"
  "length (sortedEnemies player es) = length es"
  "sorted (map (\<lambda>a. sqrt ((x a - x player) ^ 2 + (y a - y player) ^ 2)) (sortedEnemies player es))"
  by (simp_all add: sortedEnemies_def)

lemma selectTargets_enemies:
  assumes "es \<noteq> []" and "1 \<le> projectileCount player"
  shows "selectTargets player es =
           Some (map (\<lambda>a. (x a, y a)) (take (nat (projectileCount player)) (sortedEnemies player es)))"
proof -
  define ordered where "ordered = sortedEnemies player es"
  have len: "length ordered = length es" unfolding ordered_def by (rule sortedEnemies_props)
  have ne: "ordered \<noteq> []" using assms(1) len by auto
  have m: "nat (min (projectileCount player) (int (length ordered)))
        = min (nat (projectileCount player)) (length ordered)"
    using assms(2) by simp
  have pos: "0 < min (nat (projectileCount player)) (length ordered)"
    using assms(2) ne by simp
  have t1: "take (nat (min (projectileCount player) (int (length ordered)))) ordered
        = take (nat (projectileCount player)) ordered"
    unfolding m by (simp add: min_def)
  have t2: "take (nat (projectileCount player)) ordered \<noteq> []"
    using pos ne by (cases ordered) (auto simp: take_Cons')
  show ?thesis
    unfolding selectTargets_def Let_def ordered_def [symmetric] t1
    using t2 by simp
qed

lemma selectTargets_fan:
  assumes "1 \<le> projectileCount player"
  shows "selectTargets player [] =
           Some (map (\<lambda>i. (x player + cos (pi * 2 / of_int (max (projectileCount player) 8) * of_nat i - pi / 2) * 100,
                            y player + sin (pi * 2 / of_int (max (projectileCount player) 8) * of_nat i - pi / 2) * 100))
                   [0..<nat (projectileCount player)])"
proof -
  have "(0::real) < of_int (max (projectileCount player) 8)" by simp
  then have "checked_div (pi * 2) (of_int (max (projectileCount player) 8))
       = Some (pi * 2 / of_int (max (projectileCount player) 8))"
    by (rule checked_div_pos)
  then show ?thesis
    using assms by (simp add: selectTargets_def Let_def sortedEnemies_def)
qed

lemma shootAll_nth:
  "\<exists>shots. shootAll player ts = Some shots \<and> length shots = length ts
     \<and> (\<forall>n < length ts.
           playerProjectileVelocity player (ts ! n) = Some (vx (shots ! n), vy (shots ! n))
         \<and> x (shots ! n) = x player \<and> y (shots ! n) = y player
         \<and> fromPlayer (shots ! n) = Some True
         \<and> homing (shots ! n) = Some (10 \<le> projectileLevel player)
         \<and> Projectile.damage (shots ! n) = 15 + (of_int (projectileLevel player) - 1) * 5)"
proof (induction ts)
  case Nil
  then show ?case by simp
next
  case (Cons t ts)
  then obtain shots where shots: "shootAll player ts = Some shots" "length shots = length ts"
    "\<forall>n < length ts.
           playerProjectileVelocity player (ts ! n) = Some (vx (shots ! n), vy (shots ! n))
         \<and> x (shots ! n) = x player \<and> y (shots ! n) = y player
         \<and> fromPlayer (shots ! n) = Some True
         \<and> homing (shots ! n) = Some (10 \<le> projectileLevel player)
         \<and> Projectile.damage (shots ! n) = 15 + (of_int (projectileLevel player) - 1) * 5"
    by blast
  obtain v where v: "playerProjectileVelocity player t = Some v"
    by (simp add: playerProjectileVelocity_eq)
  define s where "s = \<lparr>x = x player, y = y player, vx = fst v, vy = snd v, radius = 6,
              damage = 15 + (of_int (projectileLevel player) - 1) * 5,
              color = (if 10 \<le> projectileLevel player then Hex ''#ff00ff'' else Hex ''#ffff00''),
              fromPlayer = Some True, homing = Some (10 \<le> projectileLevel player)\<rparr>"
  have eq: "shootAll player (t # ts) = Some (s # shots)"
    using v shots(1)
    by (simp add: s_def Let_def PROJECTILE_DAMAGE_BASE_def PROJECTILE_DAMAGE_INCREASE_PER_LEVEL_def
        PROJECTILE_HOMING_LEVEL_def)
  have "\<forall>n < length (t # ts).
           playerProjectileVelocity player ((t # ts) ! n) = Some (vx ((s # shots) ! n), vy ((s # shots) ! n))
         \<and> x ((s # shots) ! n) = x player \<and> y ((s # shots) ! n) = y player
         \<and> fromPlayer ((s # shots) ! n) = Some True
         \<and> homing ((s # shots) ! n) = Some (10 \<le> projectileLevel player)
         \<and> Projectile.damage ((s # shots) ! n) = 15 + (of_int (projectileLevel player) - 1) * 5"
  proof (intro allI impI)
    fix n assume "n < length (t # ts)"
    then show "playerProjectileVelocity player ((t # ts) ! n) = Some (vx ((s # shots) ! n), vy ((s # shots) ! n))
         \<and> x ((s # shots) ! n) = x player \<and> y ((s # shots) ! n) = y player
         \<and> fromPlayer ((s # shots) ! n) = Some True
         \<and> homing ((s # shots) ! n) = Some (10 \<le> projectileLevel player)
         \<and> Projectile.damage ((s # shots) ! n) = 15 + (of_int (projectileLevel player) - 1) * 5"
      using shots(3) v by (cases n) (simp_all add: s_def)
  qed
  then show ?case using eq shots(2) by simp
qed

lemma fan_distance:
  "sqrt ((cos a * 100) * (cos a * 100) + (sin a * 100) * (sin a * 100)) = (100::real)"
proof -
  have "(cos a * 100) * (cos a * 100) + (sin a * 100) * (sin a * 100) = (100 * 100 :: real)"
    using sin_cos_squared_add3 [of a] by algebra
  then show ?thesis by simp
qed

lemma playerProjectileVelocity_offset:
  "playerProjectileVelocity player (x player + dx, y player + dy)
     = Some (if 0 < sqrt (dx * dx + dy * dy)
             then (dx / sqrt (dx * dx + dy * dy) * 8, dy / sqrt (dx * dx + dy * dy) * 8)
             else (0, - 8))"
  by (simp add: playerProjectileVelocity_eq Let_def)

lemma fan_velocity:
  "playerProjectileVelocity player (x player + cos a * 100, y player + sin a * 100)
     = Some (8 * cos a, 8 * sin a)"
  by (simp only: playerProjectileVelocity_offset fan_distance) simp

lemma shootProjectiles_fires:
  assumes lvl: "0 < projectileLevel (playerRef g)"
    and cd: "projectileCooldown (playerRef g) < currentTime - lastProjectileTime (playerRef g)"
  shows "\<exists>targets shots.
       selectTargets (playerRef g) (enemiesRef g) = Some targets
     \<and> shootAll (playerRef g) targets = Some shots
     \<and> length shots = length targets
     \<and> shootProjectiles currentTime g =
          Some (g\<lparr>projectilesRef := projectilesRef g @ shots,
                  playerRef := (playerRef g)\<lparr>lastProjectileTime := currentTime\<rparr>\<rparr>)"
proof -
  have n: "1 \<le> projectileCount (playerRef g)" using lvl by (rule projectileCount_pos)
  obtain targets where t: "selectTargets (playerRef g) (enemiesRef g) = Some targets"
    using selectTargets_enemies [of "enemiesRef g" "playerRef g"]
      selectTargets_fan [of "playerRef g"] n
    by (cases "enemiesRef g = []") auto
  obtain shots where s: "shootAll (playerRef g) targets = Some shots" "length shots = length targets"
    using shootAll_nth [of "playerRef g" targets] by blast
  show ?thesis
    using lvl cd t s by (simp add: shootProjectiles_def Let_def)
qed

text \<open>
  Claim C5, as amended. Whenever the ranged fire triggers (projectile level above 0 and
  more than the cooldown elapsed), with \<open>N = 1 + floor((projectileLevel - 1) / 3)\<close>:
  if there is at least one enemy, one projectile is created for each of the
  \<open>min(N, number of enemies)\<close> nearest enemies, in the order of their distance to the
  player (a stable sort of the enemy list by distance), each aimed at its enemy, and no
  further projectile is created; only if there is no enemy at all are \<open>N\<close> projectiles
  created, fanned out from straight up in steps of \<open>2 pi / max(N, 8)\<close>. Every projectile
  starts at the player with damage \<open>15 + 5 (projectileLevel - 1)\<close> and homes exactly
  from level 10 on; the time of the shot is recorded.
\<close>

theorem shootProjectiles_targets:
  assumes lvl: "0 < projectileLevel (playerRef g)"
    and cd: "projectileCooldown (playerRef g) < currentTime - lastProjectileTime (playerRef g)"
  shows "\<exists>shots.
       shootProjectiles currentTime g =
          Some (g\<lparr>projectilesRef := projectilesRef g @ shots,
                  playerRef := (playerRef g)\<lparr>lastProjectileTime := currentTime\<rparr>\<rparr>)
     \<and> projectileCount (playerRef g)
          = 1 + \<lfloor>(real_of_int (projectileLevel (playerRef g)) - 1) / 3\<rfloor>
     \<and> length shots =
          (if enemiesRef g = [] then nat (projectileCount (playerRef g))
           else min (nat (projectileCount (playerRef g))) (length (enemiesRef g)))
     \<and> (enemiesRef g \<noteq> [] \<longrightarrow>
          (\<forall>n < length shots.
             playerProjectileVelocity (playerRef g)
                 (x (sortedEnemies (playerRef g) (enemiesRef g) ! n),
                  y (sortedEnemies (playerRef g) (enemiesRef g) ! n))
               = Some (vx (shots ! n), vy (shots ! n))))
     \<and> mset (sortedEnemies (playerRef g) (enemiesRef g)) = mset (enemiesRef g)
     \<and> sorted (map (\<lambda>a. sqrt ((x a - x (playerRef g)) ^ 2 + (y a - y (playerRef g)) ^ 2))
                (sortedEnemies (playerRef g) (enemiesRef g)))
     \<and> (enemiesRef g = [] \<longrightarrow>
          (\<forall>n < length shots.
             vx (shots ! n)
               = 8 * cos (pi * 2 / of_int (max (projectileCount (playerRef g)) 8) * of_nat n - pi / 2)
           \<and> vy (shots ! n)
               = 8 * sin (pi * 2 / of_int (max (projectileCount (playerRef g)) 8) * of_nat n - pi / 2)))
     \<and> (\<forall>n < length shots.
            x (shots ! n) = x (playerRef g) \<and> y (shots ! n) = y (playerRef g)
          \<and> fromPlayer (shots ! n) = Some True
          \<and> homing (shots ! n) = Some (10 \<le> projectileLevel (playerRef g))
          \<and> Projectile.damage (shots ! n)
              = 15 + (of_int (projectileLevel (playerRef g)) - 1) * 5)"
proof -
  let ?p = "playerRef g"
  let ?es = "enemiesRef g"
  have n: "1 \<le> projectileCount ?p" using lvl by (rule projectileCount_pos)
  obtain targets shots where ts:
    "selectTargets ?p ?es = Some targets" "shootAll ?p targets = Some shots"
    "length shots = length targets"
    "shootProjectiles currentTime g =
          Some (g\<lparr>projectilesRef := projectilesRef g @ shots,
                  playerRef := ?p\<lparr>lastProjectileTime := currentTime\<rparr>\<rparr>)"
    using shootProjectiles_fires [OF lvl cd] by blast
  have each: "\<forall>n < length targets.
           playerProjectileVelocity ?p (targets ! n) = Some (vx (shots ! n), vy (shots ! n))
         \<and> x (shots ! n) = x ?p \<and> y (shots ! n) = y ?p
         \<and> fromPlayer (shots ! n) = Some True
         \<and> homing (shots ! n) = Some (10 \<le> projectileLevel ?p)
         \<and> Projectile.damage (shots ! n) = 15 + (of_int (projectileLevel ?p) - 1) * 5"
    using shootAll_nth [of ?p targets] ts(2) by auto
  have cnt: "projectileCount ?p = 1 + \<lfloor>(real_of_int (projectileLevel ?p) - 1) / 3\<rfloor>"
    by (simp add: projectileCount_def PROJECTILE_COUNT_BASE_def PROJECTILE_COUNT_INCREASE_INTERVAL_def)
  have near: "\<forall>n < length shots.
             playerProjectileVelocity ?p
                 (x (sortedEnemies ?p ?es ! n), y (sortedEnemies ?p ?es ! n))
               = Some (vx (shots ! n), vy (shots ! n))"
    and nearlen: "length shots = min (nat (projectileCount ?p)) (length ?es)"
    if "?es \<noteq> []"
  proof -
    have tg: "targets = map (\<lambda>a. (x a, y a)) (take (nat (projectileCount ?p)) (sortedEnemies ?p ?es))"
      using selectTargets_enemies [OF that n] ts(1) by simp
    show "length shots = min (nat (projectileCount ?p)) (length ?es)"
      using ts(3) tg by (simp add: sortedEnemies_props)
    show "\<forall>n < length shots.
             playerProjectileVelocity ?p
                 (x (sortedEnemies ?p ?es ! n), y (sortedEnemies ?p ?es ! n))
               = Some (vx (shots ! n), vy (shots ! n))"
    proof (intro allI impI)
      fix n assume n: "n < length shots"
      then have "n < length targets" using ts(3) by simp
      moreover from this have "targets ! n = (x (sortedEnemies ?p ?es ! n), y (sortedEnemies ?p ?es ! n))"
        by (simp add: tg)
      ultimately show "playerProjectileVelocity ?p
                 (x (sortedEnemies ?p ?es ! n), y (sortedEnemies ?p ?es ! n))
               = Some (vx (shots ! n), vy (shots ! n))"
        using each by metis
    qed
  qed
  have fan: "\<forall>n < length shots.
             vx (shots ! n) = 8 * cos (pi * 2 / of_int (max (projectileCount ?p) 8) * of_nat n - pi / 2)
           \<and> vy (shots ! n) = 8 * sin (pi * 2 / of_int (max (projectileCount ?p) 8) * of_nat n - pi / 2)"
    and fanlen: "length shots = nat (projectileCount ?p)"
    if "?es = []"
  proof -
    have tg: "targets = map (\<lambda>i. (x ?p + cos (pi * 2 / of_int (max (projectileCount ?p) 8) * of_nat i - pi / 2) * 100,
                            y ?p + sin (pi * 2 / of_int (max (projectileCount ?p) 8) * of_nat i - pi / 2) * 100))
                   [0..<nat (projectileCount ?p)]"
      using selectTargets_fan [OF n] ts(1) that by simp
    show "length shots = nat (projectileCount ?p)"
      using ts(3) tg by simp
    show "\<forall>n < length shots.
             vx (shots ! n) = 8 * cos (pi * 2 / of_int (max (projectileCount ?p) 8) * of_nat n - pi / 2)
           \<and> vy (shots ! n) = 8 * sin (pi * 2 / of_int (max (projectileCount ?p) 8) * of_nat n - pi / 2)"
    proof (intro allI impI)
      fix n assume n: "n < length shots"
      then have nt: "n < length targets" using ts(3) by simp
      then have "targets ! n =
          (x ?p + cos (pi * 2 / of_int (max (projectileCount ?p) 8) * of_nat n - pi / 2) * 100,
           y ?p + sin (pi * 2 / of_int (max (projectileCount ?p) 8) * of_nat n - pi / 2) * 100)"
        by (simp add: tg)
      then have "playerProjectileVelocity ?p (targets ! n) =
          Some (8 * cos (pi * 2 / of_int (max (projectileCount ?p) 8) * of_nat n - pi / 2),
                8 * sin (pi * 2 / of_int (max (projectileCount ?p) 8) * of_nat n - pi / 2))"
        by (simp only: fan_velocity)
      moreover have "playerProjectileVelocity ?p (targets ! n) = Some (vx (shots ! n), vy (shots ! n))"
        using each nt by blast
      ultimately show "vx (shots ! n) = 8 * cos (pi * 2 / of_int (max (projectileCount ?p) 8) * of_nat n - pi / 2)
           \<and> vy (shots ! n) = 8 * sin (pi * 2 / of_int (max (projectileCount ?p) 8) * of_nat n - pi / 2)"
        by simp
    qed
  qed
  have len: "length shots =
          (if ?es = [] then nat (projectileCount ?p)
           else min (nat (projectileCount ?p)) (length ?es))"
    using nearlen fanlen by simp
  have rest: "\<forall>n < length shots.
            x (shots ! n) = x ?p \<and> y (shots ! n) = y ?p
          \<and> fromPlayer (shots ! n) = Some True
          \<and> homing (shots ! n) = Some (10 \<le> projectileLevel ?p)
          \<and> Projectile.damage (shots ! n) = 15 + (of_int (projectileLevel ?p) - 1) * 5"
    using each ts(3) by simp
  show ?thesis
    using ts(4) cnt len near fan rest sortedEnemies_props(1,3) [of ?p ?es]
    by (intro exI [of _ shots]) (intro conjI impI; assumption)
qed

text \<open>
  Claim C5, witness: at projectile level 4 (\<open>N = 2\<close>), one enemy gives one projectile
  and no enemy gives two.
\<close>

theorem shootProjectiles_targets_witness:
  "0 < projectileLevel (playerRef ((gameWith [enemyAt melee 30 40])\<lparr>playerRef := initialPlayer\<lparr>projectileLevel := 4\<rparr>\<rparr>))
   \<and> projectileCooldown (playerRef ((gameWith [enemyAt melee 30 40])\<lparr>playerRef := initialPlayer\<lparr>projectileLevel := 4\<rparr>\<rparr>))
       < 1000 - lastProjectileTime (playerRef ((gameWith [enemyAt melee 30 40])\<lparr>playerRef := initialPlayer\<lparr>projectileLevel := 4\<rparr>\<rparr>))
   \<and> (\<exists>shots. shootProjectiles 1000 ((gameWith [enemyAt melee 30 40])\<lparr>playerRef := initialPlayer\<lparr>projectileLevel := 4\<rparr>\<rparr>)
          = Some ((gameWith [enemyAt melee 30 40])\<lparr>projectilesRef := shots,
                    playerRef := initialPlayer\<lparr>projectileLevel := 4, lastProjectileTime := 1000\<rparr>\<rparr>)
        \<and> length shots = 1)
   \<and> (\<exists>shots. shootProjectiles 1000 ((gameWith [])\<lparr>playerRef := initialPlayer\<lparr>projectileLevel := 4\<rparr>\<rparr>)
          = Some ((gameWith [])\<lparr>projectilesRef := shots,
                    playerRef := initialPlayer\<lparr>projectileLevel := 4, lastProjectileTime := 1000\<rparr>\<rparr>)
        \<and> length shots = 2)"
proof -
  let ?g = "(gameWith [enemyAt melee 30 40])\<lparr>playerRef := initialPlayer\<lparr>projectileLevel := 4\<rparr>\<rparr>"
  let ?h = "(gameWith [])\<lparr>playerRef := initialPlayer\<lparr>projectileLevel := 4\<rparr>\<rparr>"
  have lvl: "0 < projectileLevel (playerRef ?g)" "0 < projectileLevel (playerRef ?h)"
    by (simp_all add: gameWith_def initialPlayer_def)
  have cd: "projectileCooldown (playerRef ?g) < 1000 - lastProjectileTime (playerRef ?g)"
    "projectileCooldown (playerRef ?h) < 1000 - lastProjectileTime (playerRef ?h)"
    by (simp_all add: gameWith_def initialPlayer_def projectileCooldown_def PROJECTILE_COOLDOWN_MIN_def
        PROJECTILE_COOLDOWN_BASE_def PROJECTILE_COOLDOWN_REDUCTION_PER_LEVEL_def)
  have cnt: "projectileCount (playerRef ?g) = 2" "projectileCount (playerRef ?h) = 2"
    by (simp_all add: gameWith_def initialPlayer_def projectileCount_def PROJECTILE_COUNT_BASE_def
        PROJECTILE_COUNT_INCREASE_INTERVAL_def)
  have a: "\<exists>shots. shootProjectiles 1000 ?g
          = Some ((gameWith [enemyAt melee 30 40])\<lparr>projectilesRef := shots,
                    playerRef := initialPlayer\<lparr>projectileLevel := 4, lastProjectileTime := 1000\<rparr>\<rparr>)
        \<and> length shots = 1"
    using shootProjectiles_targets [OF lvl(1) cd(1)] cnt(1)
    by (auto simp: gameWith_def)
  have b: "\<exists>shots. shootProjectiles 1000 ?h
          = Some ((gameWith [])\<lparr>projectilesRef := shots,
                    playerRef := initialPlayer\<lparr>projectileLevel := 4, lastProjectileTime := 1000\<rparr>\<rparr>)
        \<and> length shots = 2"
    using shootProjectiles_targets [OF lvl(2) cd(2)] cnt(2)
    by (auto simp: gameWith_def)
  show ?thesis using lvl(1) cd(1) a b by blast
qed

text \<open>
  Claim C5 as stated fails: at projectile level 4 (\<open>N = 2\<close>) with one enemy, which is
  strictly between 0 and \<open>N\<close> enemies, the activation creates one projectile, not two.
\<close>

theorem shootProjectiles_targets_counterexample:
  "0 < projectileLevel (playerRef ((gameWith [enemyAt melee 30 40])\<lparr>playerRef := initialPlayer\<lparr>projectileLevel := 4\<rparr>\<rparr>))
   \<and> projectileCooldown (playerRef ((gameWith [enemyAt melee 30 40])\<lparr>playerRef := initialPlayer\<lparr>projectileLevel := 4\<rparr>\<rparr>))
       < 1000 - lastProjectileTime (playerRef ((gameWith [enemyAt melee 30 40])\<lparr>playerRef := initialPlayer\<lparr>projectileLevel := 4\<rparr>\<rparr>))
   \<and> 1 + \<lfloor>(real_of_int (projectileLevel (initialPlayer\<lparr>projectileLevel := 4\<rparr>)) - 1) / 3\<rfloor> = 2
   \<and> projectilesRef ((gameWith [enemyAt melee 30 40])\<lparr>playerRef := initialPlayer\<lparr>projectileLevel := 4\<rparr>\<rparr>) = []
   \<and> (\<exists>g'. shootProjectiles 1000 ((gameWith [enemyAt melee 30 40])\<lparr>playerRef := initialPlayer\<lparr>projectileLevel := 4\<rparr>\<rparr>) = Some g'
         \<and> length (projectilesRef g') = 1)"
proof -
  let ?g = "(gameWith [enemyAt melee 30 40])\<lparr>playerRef := initialPlayer\<lparr>projectileLevel := 4\<rparr>\<rparr>"
  have lvl: "0 < projectileLevel (playerRef ?g)" by (simp add: gameWith_def initialPlayer_def)
  have cd: "projectileCooldown (playerRef ?g) < 1000 - lastProjectileTime (playerRef ?g)"
    by (simp add: gameWith_def initialPlayer_def projectileCooldown_def PROJECTILE_COOLDOWN_MIN_def
        PROJECTILE_COOLDOWN_BASE_def PROJECTILE_COOLDOWN_REDUCTION_PER_LEVEL_def)
  have cnt: "1 + \<lfloor>(real_of_int (projectileLevel (initialPlayer\<lparr>projectileLevel := 4\<rparr>)) - 1) / 3\<rfloor> = 2"
    by simp
  have es: "enemiesRef ?g = [enemyAt melee 30 40]" and ps: "projectilesRef ?g = []"
    by (simp_all add: gameWith_def)
  obtain targets shots where ts:
    "selectTargets (playerRef ?g) (enemiesRef ?g) = Some targets"
    "length shots = length targets"
    "shootProjectiles 1000 ?g =
          Some (?g\<lparr>projectilesRef := projectilesRef ?g @ shots,
                  playerRef := (playerRef ?g)\<lparr>lastProjectileTime := 1000\<rparr>\<rparr>)"
    using shootProjectiles_fires [OF lvl cd] by blast
  have "length targets = 1"
    using selectTargets_enemies [of "enemiesRef ?g" "playerRef ?g"] projectileCount_pos [OF lvl] ts(1)
    by (simp add: es sortedEnemies_def) (auto simp: take_Cons')
  then have "length (projectilesRef (?g\<lparr>projectilesRef := projectilesRef ?g @ shots,
                  playerRef := (playerRef ?g)\<lparr>lastProjectileTime := 1000\<rparr>\<rparr>)) = 1"
    using ts(2) ps by simp
  then show ?thesis
    using lvl cd cnt ps ts(3) by blast
qed

subsection \<open>The auto-attack\<close>

text \<open>The four ways in which the loop of the auto-attack takes a step.\<close>

lemma autoAttackLoop_done:
  "\<not> k < length (enemiesRef g) \<Longrightarrow> autoAttackLoop k g = g"
  by (simp add: autoAttackLoop.simps [of k g])

lemma autoAttackLoop_miss:
  "k < length (enemiesRef g) \<Longrightarrow> \<not> inAttackRadius (playerRef g) (enemiesRef g ! k)
    \<Longrightarrow> autoAttackLoop k g = autoAttackLoop (Suc k) g"
  by (simp add: autoAttackLoop.simps [of k g] inAttackRadius_def Let_def)

lemma autoAttackLoop_hit:
  "k < length (enemiesRef g) \<Longrightarrow> inAttackRadius (playerRef g) (enemiesRef g ! k)
    \<Longrightarrow> 0 < health (enemiesRef g ! k) - attackDamage (playerRef g)
    \<Longrightarrow> autoAttackLoop k g
        = autoAttackLoop (Suc k) (setEnemy k (struck (playerRef g) (enemiesRef g ! k)) g)"
  by (simp add: autoAttackLoop.simps [of k g] inAttackRadius_def struck_def Let_def)

lemma autoAttackLoop_kill:
  "k < length (enemiesRef g) \<Longrightarrow> inAttackRadius (playerRef g) (enemiesRef g ! k)
    \<Longrightarrow> health (enemiesRef g ! k) - attackDamage (playerRef g) \<le> 0
    \<Longrightarrow> autoAttackLoop k g
        = autoAttackLoop (Suc k)
            (g\<lparr>playerRef := (playerRef g)\<lparr>bloodGauge := bloodGauge (playerRef g)
                                 + of_int \<lfloor>15 * real_of_int (level (enemiesRef g ! k))\<rfloor>\<rparr>,
               enemiesRef := splice k (enemiesRef g)\<rparr>)"
  by (simp add: autoAttackLoop.simps [of k g] inAttackRadius_def Let_def setEnemy_def
      bloodRecovery_def BLOOD_RECOVERY_MULTIPLIER_def)

text \<open>
  From index \<open>k\<close> on, if no enemy dies, the loop strikes every enemy within the attack
  radius and leaves all else as it was.
\<close>

lemma autoAttackLoop_no_death:
  assumes "\<forall>e \<in> set (drop k (enemiesRef g)).
             inAttackRadius (playerRef g) e \<longrightarrow> 0 < health e - attackDamage (playerRef g)"
  shows "autoAttackLoop k g =
           g\<lparr>enemiesRef := take k (enemiesRef g)
               @ map (\<lambda>e. if inAttackRadius (playerRef g) e then struck (playerRef g) e else e)
                   (drop k (enemiesRef g))\<rparr>"
  using assms
proof (induction "length (enemiesRef g) - k" arbitrary: k g)
  case 0
  then have "\<not> k < length (enemiesRef g)" by simp
  then show ?case by (simp add: autoAttackLoop_done)
next
  case (Suc n)
  let ?es = "enemiesRef g"
  let ?f = "\<lambda>e. if inAttackRadius (playerRef g) e then struck (playerRef g) e else e"
  from Suc.hyps(2) have k: "k < length ?es" by simp
  have dropk: "drop k ?es = ?es ! k # drop (Suc k) ?es"
    using k by (simp add: Cons_nth_drop_Suc)
  have rest: "\<forall>e \<in> set (drop (Suc k) ?es).
             inAttackRadius (playerRef g) e \<longrightarrow> 0 < health e - attackDamage (playerRef g)"
    using Suc.prems dropk by simp
  show ?case
  proof (cases "inAttackRadius (playerRef g) (?es ! k)")
    case False
    have "autoAttackLoop k g = autoAttackLoop (Suc k) g"
      using k False by (rule autoAttackLoop_miss)
    also have "\<dots> = g\<lparr>enemiesRef := take (Suc k) ?es @ map ?f (drop (Suc k) ?es)\<rparr>"
      using Suc.hyps(2) rest by (intro Suc.hyps(1)) simp_all
    also have "take (Suc k) ?es @ map ?f (drop (Suc k) ?es) = take k ?es @ map ?f (drop k ?es)"
      using k False by (simp add: dropk take_Suc_conv_app_nth)
    finally show ?thesis .
  next
    case True
    then have alive: "0 < health (?es ! k) - attackDamage (playerRef g)"
      using Suc.prems dropk by simp
    let ?g1 = "setEnemy k (struck (playerRef g) (?es ! k)) g"
    have g1: "playerRef ?g1 = playerRef g" "enemiesRef ?g1 = ?es[k := struck (playerRef g) (?es ! k)]"
      by (simp_all add: setEnemy_def)
    have "autoAttackLoop k g = autoAttackLoop (Suc k) ?g1"
      using k True alive by (rule autoAttackLoop_hit)
    also have "\<dots> = ?g1\<lparr>enemiesRef := take (Suc k) (enemiesRef ?g1)
                  @ map (\<lambda>e. if inAttackRadius (playerRef ?g1) e then struck (playerRef ?g1) e else e)
                      (drop (Suc k) (enemiesRef ?g1))\<rparr>"
      using Suc.hyps(2) rest by (intro Suc.hyps(1)) (simp_all add: g1)
    also have "\<dots> = g\<lparr>enemiesRef := take k ?es @ map ?f (drop k ?es)\<rparr>"
      using k True by (simp add: g1 dropk take_Suc_conv_app_nth setEnemy_def)
    finally show ?thesis .
  qed
qed

lemma autoAttack_idle:
  "currentTime - lastAttackTime (playerRef g) \<le> attackCooldown (playerRef g)
    \<Longrightarrow> autoAttack currentTime g = g"
  by (simp add: autoAttack_def)

lemma autoAttack_active:
  "attackCooldown (playerRef g) < currentTime - lastAttackTime (playerRef g)
    \<Longrightarrow> autoAttack currentTime g =
         (autoAttackLoop 0 g)\<lparr>playerRef := (playerRef (autoAttackLoop 0 g))\<lparr>lastAttackTime := currentTime\<rparr>\<rparr>"
  by (simp add: autoAttack_def Let_def)

lemma sample_in_radius:
  "inAttackRadius initialPlayer ((enemyAt t 30 40)\<lparr>health := h\<rparr>)"
  "inAttackRadius initialPlayer ((enemyAt t 40 30)\<lparr>health := h\<rparr>)"
  "inAttackRadius initialPlayer (enemyAt t 30 40)"
  "\<not> inAttackRadius initialPlayer (enemyAt t 300 400)"
  by (simp_all add: inAttackRadius_def enemyAt_def initialPlayer_def)

text \<open>
  Claim C2, as amended. In a tick that reaches the auto-attack, nothing is attacked when
  \<open>attackCooldown\<close> ms or less have elapsed since \<open>lastAttackTime\<close>. When more than
  \<open>attackCooldown\<close> ms have elapsed, the auto-attack walks the enemy list from the
  front and records the time of the attack. Each enemy it visits that is outside
  \<open>attackRadius\<close> is left alone; each enemy it visits within \<open>attackRadius\<close> loses
  \<open>attackDamage\<close> health; each such enemy whose health thereby drops to 0 or below is
  removed on the spot and grants the player exactly \<open>floor(30 * 0.5 * enemyLevel)\<close>
  blood. When no enemy dies in the activation, every enemy within \<open>attackRadius\<close> is
  damaged. (Which enemies are visited after a removal is not part of this statement.)
\<close>

theorem autoAttack_activation:
  "(currentTime - lastAttackTime (playerRef g) \<le> attackCooldown (playerRef g)
      \<longrightarrow> autoAttack currentTime g = g)
 \<and> (attackCooldown (playerRef g) < currentTime - lastAttackTime (playerRef g)
      \<longrightarrow> autoAttack currentTime g =
           (autoAttackLoop 0 g)\<lparr>playerRef :=
              (playerRef (autoAttackLoop 0 g))\<lparr>lastAttackTime := currentTime\<rparr>\<rparr>)
 \<and> (attackCooldown (playerRef g) < currentTime - lastAttackTime (playerRef g)
      \<and> (\<forall>e \<in> set (enemiesRef g).
            inAttackRadius (playerRef g) e \<longrightarrow> 0 < health e - attackDamage (playerRef g))
      \<longrightarrow> autoAttack currentTime g =
           g\<lparr>enemiesRef := map (\<lambda>e. if inAttackRadius (playerRef g) e
                                     then struck (playerRef g) e else e) (enemiesRef g),
             playerRef := (playerRef g)\<lparr>lastAttackTime := currentTime\<rparr>\<rparr>)
 \<and> (k < length (enemiesRef g) \<and> \<not> inAttackRadius (playerRef g) (enemiesRef g ! k)
      \<longrightarrow> autoAttackLoop k g = autoAttackLoop (Suc k) g)
 \<and> (k < length (enemiesRef g) \<and> inAttackRadius (playerRef g) (enemiesRef g ! k)
      \<and> 0 < health (enemiesRef g ! k) - attackDamage (playerRef g)
      \<longrightarrow> autoAttackLoop k g
           = autoAttackLoop (Suc k) (g\<lparr>enemiesRef :=
               (enemiesRef g)[k := struck (playerRef g) (enemiesRef g ! k)]\<rparr>))
 \<and> (k < length (enemiesRef g) \<and> inAttackRadius (playerRef g) (enemiesRef g ! k)
      \<and> health (enemiesRef g ! k) - attackDamage (playerRef g) \<le> 0
      \<longrightarrow> autoAttackLoop k g
           = autoAttackLoop (Suc k)
               (g\<lparr>playerRef := (playerRef g)\<lparr>bloodGauge := bloodGauge (playerRef g)
                      + of_int \<lfloor>30 * 0.5 * real_of_int (level (enemiesRef g ! k))\<rfloor>\<rparr>,
                  enemiesRef := take k (enemiesRef g) @ drop (Suc k) (enemiesRef g)\<rparr>))"
proof -
  have nodeath: "autoAttack currentTime g =
           g\<lparr>enemiesRef := map (\<lambda>e. if inAttackRadius (playerRef g) e
                                     then struck (playerRef g) e else e) (enemiesRef g),
             playerRef := (playerRef g)\<lparr>lastAttackTime := currentTime\<rparr>\<rparr>"
    if "attackCooldown (playerRef g) < currentTime - lastAttackTime (playerRef g)"
      and "\<forall>e \<in> set (enemiesRef g).
            inAttackRadius (playerRef g) e \<longrightarrow> 0 < health e - attackDamage (playerRef g)"
    using that autoAttackLoop_no_death [of 0 g] by (simp add: autoAttack_active)
  show ?thesis
    using nodeath autoAttackLoop_miss [of k g] autoAttackLoop_hit [of k g]
      autoAttackLoop_kill [of k g]
    by (simp add: autoAttack_idle autoAttack_active setEnemy_def splice_def)
qed

text \<open>
  Claim C2, witness: one enemy within the radius, with the attack not yet due (500 ms
  elapsed), due and wounding (health 30), out of reach, and due and killing (health 10,
  level 1, so 15 blood).
\<close>

theorem autoAttack_activation_witness:
  "500 - lastAttackTime (playerRef (gameWith [enemyAt melee 30 40]))
      \<le> attackCooldown (playerRef (gameWith [enemyAt melee 30 40]))
   \<and> autoAttack 500 (gameWith [enemyAt melee 30 40]) = gameWith [enemyAt melee 30 40]
   \<and> attackCooldown (playerRef (gameWith [enemyAt melee 30 40]))
      < 501 - lastAttackTime (playerRef (gameWith [enemyAt melee 30 40]))
   \<and> inAttackRadius initialPlayer (enemyAt melee 30 40)
   \<and> autoAttack 501 (gameWith [enemyAt melee 30 40])
      = (gameWith [(enemyAt melee 30 40)\<lparr>health := 20\<rparr>])
          \<lparr>playerRef := initialPlayer\<lparr>lastAttackTime := 501\<rparr>\<rparr>
   \<and> autoAttackLoop 0 (gameWith [enemyAt melee 300 400])
      = autoAttackLoop (Suc 0) (gameWith [enemyAt melee 300 400])
   \<and> autoAttackLoop 0 (gameWith [enemyAt melee 30 40])
      = autoAttackLoop (Suc 0) (gameWith [(enemyAt melee 30 40)\<lparr>health := 20\<rparr>])
   \<and> autoAttackLoop 0 (gameWith [(enemyAt melee 30 40)\<lparr>health := 10\<rparr>])
      = autoAttackLoop (Suc 0) ((gameWith [])\<lparr>playerRef := initialPlayer\<lparr>bloodGauge := 115\<rparr>\<rparr>)"
  using autoAttack_activation [of 500 "gameWith [enemyAt melee 30 40]" 0]
    autoAttack_activation [of 501 "gameWith [enemyAt melee 30 40]" 0]
    autoAttack_activation [of 501 "gameWith [enemyAt melee 300 400]" 0]
    autoAttack_activation [of 501 "gameWith [(enemyAt melee 30 40)\<lparr>health := 10\<rparr>]" 0]
    sample_in_radius(1) [where t = melee and h = 10] sample_in_radius(3,4) [of melee]
  by (simp add: gameWith_def initialPlayer_def enemyAt_def struck_def autoAttackLoop_done)

text \<open>
  Claim C2 as stated fails: when exactly \<open>attackCooldown = 500\<close> ms have elapsed, so
  that at least \<open>attackCooldown\<close> ms have, an enemy within the attack radius is not
  damaged: the comparison of the source is strict.
\<close>

theorem autoAttack_activation_counterexample:
  "attackCooldown (playerRef (gameWith [enemyAt melee 30 40]))
     \<le> 500 - lastAttackTime (playerRef (gameWith [enemyAt melee 30 40]))
   \<and> inAttackRadius (playerRef (gameWith [enemyAt melee 30 40])) (enemyAt melee 30 40)
   \<and> enemiesRef (autoAttack 500 (gameWith [enemyAt melee 30 40])) = [enemyAt melee 30 40]
   \<and> health (enemyAt melee 30 40) = 30"
  using autoAttack_idle [of 500 "gameWith [enemyAt melee 30 40]"] sample_in_radius(3) [of melee]
  by (simp add: gameWith_def initialPlayer_def enemyAt_def)

text \<open>
  Removing an enemy while the iterator walks the array makes the iterator pass over the
  enemy that follows it. Two enemies within the attack radius, each with health 10
  against an attack damage of 10: the first dies and grants 15 blood, the second is
  neither damaged nor removed in this activation.
\<close>

lemma autoAttack_skips_after_kill:
  "autoAttack 501 (gameWith [(enemyAt melee 30 40)\<lparr>health := 10\<rparr>, (enemyAt melee 40 30)\<lparr>health := 10\<rparr>])
     = (gameWith [(enemyAt melee 40 30)\<lparr>health := 10\<rparr>])
         \<lparr>playerRef := initialPlayer\<lparr>bloodGauge := 115, lastAttackTime := 501\<rparr>\<rparr>"
proof -
  let ?a = "(enemyAt melee 30 40)\<lparr>health := 10\<rparr>"
  let ?b = "(enemyAt melee 40 30)\<lparr>health := 10\<rparr>"
  let ?g = "gameWith [?a, ?b]"
  have "autoAttackLoop 0 ?g
      = autoAttackLoop (Suc 0) (?g\<lparr>playerRef := (playerRef ?g)\<lparr>bloodGauge := bloodGauge (playerRef ?g)
                                 + of_int \<lfloor>15 * real_of_int (level (enemiesRef ?g ! 0))\<rfloor>\<rparr>,
               enemiesRef := splice 0 (enemiesRef ?g)\<rparr>)"
    using sample_in_radius(1) [where t = melee and h = 10]
    by (intro autoAttackLoop_kill) (simp_all add: gameWith_def initialPlayer_def enemyAt_def)
  also have "\<dots> = (gameWith [?b])\<lparr>playerRef := initialPlayer\<lparr>bloodGauge := 115\<rparr>\<rparr>"
    by (subst autoAttackLoop_done) (simp_all add: gameWith_def splice_def initialPlayer_def enemyAt_def)
  finally show ?thesis
    by (simp add: autoAttack_def gameWith_def initialPlayer_def)
qed

text \<open>
  In general: the loop from index \<open>k\<close> on never touches the entries before \<open>k\<close>, so
  after a kill at index \<open>k\<close> the enemy that was stored next, now at index \<open>k\<close>, is
  left as it was by the rest of the activation, wherever it stands and whatever its
  health.
\<close>

lemma splice_nth: "Suc k < length xs \<Longrightarrow> splice k xs ! k = xs ! Suc k"
  by (simp add: splice_def nth_append)

lemma take_splice: "take k (splice k xs) = take k xs"
  by (simp add: splice_def min_def)

lemma autoAttackLoop_prefix:
  "take k (enemiesRef (autoAttackLoop k g)) = take k (enemiesRef g)"
proof (induction "length (enemiesRef g) - k" arbitrary: k g rule: less_induct)
  case less
  show ?case
  proof (cases "k < length (enemiesRef g)")
    case False
    then show ?thesis by (simp add: autoAttackLoop_done)
  next
    case k: True
    have shrink: "take k xs = take k ys" if "take (Suc k) xs = take (Suc k) ys" for xs ys :: "Enemy list"
    proof -
      have "take k xs = take k (take (Suc k) xs)" by simp
      also have "\<dots> = take k (take (Suc k) ys)" by (simp only: that)
      also have "\<dots> = take k ys" by simp
      finally show ?thesis .
    qed
    show ?thesis
    proof (cases "inAttackRadius (playerRef g) (enemiesRef g ! k)")
      case False
      have "length (enemiesRef g) - Suc k < length (enemiesRef g) - k" using k by simp
      from less.hyps [OF this] have "take k (enemiesRef (autoAttackLoop (Suc k) g))
            = take k (enemiesRef g)" by (rule shrink)
      then show ?thesis
        by (simp add: autoAttackLoop_miss [OF k False])
    next
      case True
      show ?thesis
      proof (cases "0 < health (enemiesRef g ! k) - attackDamage (playerRef g)")
        case alive: True
        let ?g1 = "setEnemy k (struck (playerRef g) (enemiesRef g ! k)) g"
        have b: "length (enemiesRef ?g1) - Suc k < length (enemiesRef g) - k"
          using k by (simp add: setEnemy_def)
        from less.hyps [OF b] have "take k (enemiesRef (autoAttackLoop (Suc k) ?g1))
            = take k (enemiesRef ?g1)" by (rule shrink)
        then show ?thesis
          by (simp add: autoAttackLoop_hit [OF k True alive] setEnemy_def)
      next
        case False
        then have dead: "health (enemiesRef g ! k) - attackDamage (playerRef g) \<le> 0" by simp
        let ?g1 = "g\<lparr>playerRef := (playerRef g)\<lparr>bloodGauge := bloodGauge (playerRef g)
                                 + of_int \<lfloor>15 * real_of_int (level (enemiesRef g ! k))\<rfloor>\<rparr>,
               enemiesRef := splice k (enemiesRef g)\<rparr>"
        have b: "length (enemiesRef ?g1) - Suc k < length (enemiesRef g) - k"
          using k by (simp add: setEnemy_def)
        from less.hyps [OF b] have "take k (enemiesRef (autoAttackLoop (Suc k) ?g1))
            = take k (enemiesRef ?g1)" by (rule shrink)
        then show ?thesis
          by (simp add: autoAttackLoop_kill [OF k True dead] take_splice)
      qed
    qed
  qed
qed

lemma autoAttackLoop_passes_over:
  assumes k: "Suc k < length (enemiesRef g)"
    and inr: "inAttackRadius (playerRef g) (enemiesRef g ! k)"
    and dead: "health (enemiesRef g ! k) - attackDamage (playerRef g) \<le> 0"
  shows "enemiesRef (autoAttackLoop k g) ! k = enemiesRef g ! Suc k"
proof -
  let ?g1 = "g\<lparr>playerRef := (playerRef g)\<lparr>bloodGauge := bloodGauge (playerRef g)
                                 + of_int \<lfloor>15 * real_of_int (level (enemiesRef g ! k))\<rfloor>\<rparr>,
               enemiesRef := splice k (enemiesRef g)\<rparr>"
  let ?res = "enemiesRef (autoAttackLoop (Suc k) ?g1)"
  have k': "k < length (enemiesRef g)" using k by simp
  have eq: "autoAttackLoop k g = autoAttackLoop (Suc k) ?g1"
    using k' inr dead by (rule autoAttackLoop_kill)
  have pre: "take (Suc k) ?res = take (Suc k) (splice k (enemiesRef g))"
    using autoAttackLoop_prefix [of "Suc k" ?g1] by simp
  have "?res ! k = take (Suc k) ?res ! k" by simp
  also have "\<dots> = take (Suc k) (splice k (enemiesRef g)) ! k" by (simp only: pre)
  also have "\<dots> = splice k (enemiesRef g) ! k" by simp
  also have "\<dots> = enemiesRef g ! Suc k" using k by (rule splice_nth)
  finally show ?thesis by (simp add: eq)
qed

subsection \<open>Blood recovered from kills\<close>

lemma hitEnemy_kill:
  assumes "health (enemiesRef g ! j) - Projectile.damage pr \<le> 0"
  shows "hitEnemy pr j g =
     g\<lparr>playerRef := (playerRef g)\<lparr>bloodGauge := bloodGauge (playerRef g)
                         + of_int \<lfloor>15 * real_of_int (level (enemiesRef g ! j))\<rfloor>\<rparr>,
       enemiesRef := splice j (enemiesRef g)\<rparr>"
  using assms
  by (simp add: hitEnemy_def Let_def setEnemy_def bloodRecovery_def BLOOD_RECOVERY_MULTIPLIER_def)

lemma hitEnemy_wound:
  assumes "0 < health (enemiesRef g ! j) - Projectile.damage pr"
  shows "hitEnemy pr j g =
     g\<lparr>enemiesRef := (enemiesRef g)[j := (enemiesRef g ! j)\<lparr>health :=
          health (enemiesRef g ! j) - Projectile.damage pr\<rparr>]\<rparr>"
  using assms by (simp add: hitEnemy_def Let_def setEnemy_def)

lemma findHit_Some: "findHit pr es n = Some j \<Longrightarrow> j < n"
  by (induction n) (auto simp: Let_def split: if_splits)

lemma homingStep_keeps:
  assumes "homingStep es p = Some p1"
  shows "p1 = p\<lparr>vx := vx p1, vy := vy p1\<rparr>"
  using assms
  by (auto simp: homingStep_def Let_def checked_div_def split: option.splits if_splits
      bind_splits)

lemma updateProjectile_player_hit:
  assumes i: "i < length (projectilesRef g)"
    and fp: "truthy (fromPlayer (projectilesRef g ! i))"
    and hs: "(if truthy (homing (projectilesRef g ! i))
              then homingStep (enemiesRef g) (projectilesRef g ! i)
              else Some (projectilesRef g ! i)) = Some p1"
    and pr: "pr = p1\<lparr>x := x p1 + vx p1, y := y p1 + vy p1\<rparr>"
    and hit: "findHit pr (enemiesRef g) (length (enemiesRef g)) = Some j"
  shows "updateProjectile canvas i g =
           Some ((hitEnemy pr j g)\<lparr>projectilesRef := splice i (projectilesRef g)\<rparr>)"
proof -
  have keep: "p1 = (projectilesRef g ! i)\<lparr>vx := vx p1, vy := vy p1\<rparr>"
    using hs homingStep_keeps [of "enemiesRef g" "projectilesRef g ! i" p1]
    by (auto split: if_splits)
  have fp1: "truthy (fromPlayer p1)"
    using fp by (subst keep) simp
  have hit1: "findHit (p1\<lparr>x := x p1 + vx p1, y := y p1 + vy p1\<rparr>) (enemiesRef g)
                (length (enemiesRef g)) = Some j"
    using hit pr by simp
  have fold: "hitEnemy pr j (g\<lparr>projectilesRef := (projectilesRef g)[i := pr]\<rparr>)
          \<lparr>projectilesRef := splice i (projectilesRef
              (hitEnemy pr j (g\<lparr>projectilesRef := (projectilesRef g)[i := pr]\<rparr>)))\<rparr>
        = (hitEnemy pr j g)\<lparr>projectilesRef := splice i (projectilesRef g)\<rparr>"
    by (simp add: hitEnemy_def Let_def setEnemy_def)
  have "updateProjectile canvas i g =
      Some (hitEnemy pr j (g\<lparr>projectilesRef := (projectilesRef g)[i := pr]\<rparr>)
          \<lparr>projectilesRef := splice i (projectilesRef
              (hitEnemy pr j (g\<lparr>projectilesRef := (projectilesRef g)[i := pr]\<rparr>)))\<rparr>)"
    using i fp hs hit1 fp1
    by (simp add: updateProjectile_def Let_def pr)
  then show ?thesis
    by (simp only: fold)
qed

text \<open>
  Claim C9. Whenever an enemy is defeated, the gauge becomes exactly the old gauge plus
  \<open>floor(15 * enemyLevel)\<close>, with no upper bound applied: where a player projectile
  brings the health of the enemy it hits to 0 or below (in the statements on the enemy
  hit, and in the body of the projectile loop as a whole), and where the auto-attack does.
  From the initial gauge of 100, one kill by a projectile, or one activation of the
  auto-attack, can take the gauge above any bound. The fraction shown by the gauge bar is
  capped at 1.
\<close>

theorem kill_recovery_unclamped:
  "(health (enemiesRef g ! j) - Projectile.damage pr \<le> 0 \<longrightarrow>
      bloodGauge (playerRef (hitEnemy pr j g))
        = bloodGauge (playerRef g) + of_int \<lfloor>15 * real_of_int (level (enemiesRef g ! j))\<rfloor>
      \<and> enemiesRef (hitEnemy pr j g) = take j (enemiesRef g) @ drop (Suc j) (enemiesRef g))
 \<and> (i < length (projectilesRef g) \<and> truthy (fromPlayer (projectilesRef g ! i))
      \<and> (if truthy (homing (projectilesRef g ! i))
          then homingStep (enemiesRef g) (projectilesRef g ! i)
          else Some (projectilesRef g ! i)) = Some p1
      \<and> pr = p1\<lparr>x := x p1 + vx p1, y := y p1 + vy p1\<rparr>
      \<and> findHit pr (enemiesRef g) (length (enemiesRef g)) = Some j
      \<and> health (enemiesRef g ! j) - Projectile.damage pr \<le> 0 \<longrightarrow>
      (\<exists>g'. updateProjectile canvas i g = Some g'
         \<and> bloodGauge (playerRef g')
             = bloodGauge (playerRef g) + of_int \<lfloor>15 * real_of_int (level (enemiesRef g ! j))\<rfloor>))
 \<and> (k < length (enemiesRef g) \<and> inAttackRadius (playerRef g) (enemiesRef g ! k)
      \<and> health (enemiesRef g ! k) - attackDamage (playerRef g) \<le> 0 \<longrightarrow>
      autoAttackLoop k g
        = autoAttackLoop (Suc k)
            (g\<lparr>playerRef := (playerRef g)\<lparr>bloodGauge := bloodGauge (playerRef g)
                     + of_int \<lfloor>15 * real_of_int (level (enemiesRef g ! k))\<rfloor>\<rparr>,
               enemiesRef := take k (enemiesRef g) @ drop (Suc k) (enemiesRef g)\<rparr>))
 \<and> (\<forall>B. \<exists>e. bloodGauge (playerRef (gameWith [e])) = 100
          \<and> B < bloodGauge (playerRef (hitEnemy pr 0 (gameWith [e]))))
 \<and> (\<forall>B. \<exists>e. bloodGauge (playerRef (gameWith [e])) = 100
          \<and> B < bloodGauge (playerRef (autoAttack 501 (gameWith [e]))))
 \<and> healthPercent (playerRef g) \<le> 1"
proof -
  have unbounded: "\<exists>e. bloodGauge (playerRef (gameWith [e])) = 100
          \<and> B < bloodGauge (playerRef (hitEnemy pr 0 (gameWith [e])))
          \<and> B < bloodGauge (playerRef (autoAttack 501 (gameWith [e])))" for B :: real
  proof -
    define e where "e = (enemyAt melee 30 40)\<lparr>level := max 1 \<lceil>B\<rceil>,
                          health := min 0 (Projectile.damage pr)\<rparr>"
    have lv: "B \<le> real_of_int (level e)" by (simp add: e_def enemyAt_def) linarith
    have "hitEnemy pr 0 (gameWith [e]) =
       (gameWith [e])\<lparr>playerRef := (playerRef (gameWith [e]))\<lparr>bloodGauge :=
             bloodGauge (playerRef (gameWith [e]))
               + of_int \<lfloor>15 * real_of_int (level (enemiesRef (gameWith [e]) ! 0))\<rfloor>\<rparr>,
          enemiesRef := splice 0 (enemiesRef (gameWith [e]))\<rparr>"
      by (rule hitEnemy_kill) (simp add: gameWith_def e_def)
    then have a: "bloodGauge (playerRef (hitEnemy pr 0 (gameWith [e])))
        = 100 + 15 * real_of_int (level e)"
      by (simp add: gameWith_def initialPlayer_def)
    have inr: "inAttackRadius initialPlayer e"
      by (simp add: inAttackRadius_def enemyAt_def initialPlayer_def e_def)
    have "autoAttackLoop 0 (gameWith [e]) =
       autoAttackLoop (Suc 0) ((gameWith [e])\<lparr>playerRef := (playerRef (gameWith [e]))\<lparr>bloodGauge :=
             bloodGauge (playerRef (gameWith [e]))
               + of_int \<lfloor>15 * real_of_int (level (enemiesRef (gameWith [e]) ! 0))\<rfloor>\<rparr>,
          enemiesRef := splice 0 (enemiesRef (gameWith [e]))\<rparr>)"
      using inr by (intro autoAttackLoop_kill) (simp_all add: gameWith_def e_def initialPlayer_def)
    then have b: "bloodGauge (playerRef (autoAttack 501 (gameWith [e])))
        = 100 + 15 * real_of_int (level e)"
      by (simp add: autoAttack_def Let_def gameWith_def initialPlayer_def autoAttackLoop_done
          splice_def)
    have "B < 100 + 15 * real_of_int (level e)"
    proof -
      have "1 \<le> real_of_int (level e)" by (simp add: e_def)
      then show ?thesis using lv by linarith
    qed
    moreover have "bloodGauge (playerRef (gameWith [e])) = 100"
      by (simp add: gameWith_def initialPlayer_def)
    ultimately show ?thesis using a b by (intro exI [of _ e]) simp
  qed
  have c1: "health (enemiesRef g ! j) - Projectile.damage pr \<le> 0 \<longrightarrow>
      bloodGauge (playerRef (hitEnemy pr j g))
        = bloodGauge (playerRef g) + of_int \<lfloor>15 * real_of_int (level (enemiesRef g ! j))\<rfloor>
      \<and> enemiesRef (hitEnemy pr j g) = take j (enemiesRef g) @ drop (Suc j) (enemiesRef g)"
    using hitEnemy_kill [of g j pr] by (simp add: splice_def)
  have c2: "i < length (projectilesRef g) \<and> truthy (fromPlayer (projectilesRef g ! i))
      \<and> (if truthy (homing (projectilesRef g ! i))
          then homingStep (enemiesRef g) (projectilesRef g ! i)
          else Some (projectilesRef g ! i)) = Some p1
      \<and> pr = p1\<lparr>x := x p1 + vx p1, y := y p1 + vy p1\<rparr>
      \<and> findHit pr (enemiesRef g) (length (enemiesRef g)) = Some j
      \<and> health (enemiesRef g ! j) - Projectile.damage pr \<le> 0 \<longrightarrow>
      (\<exists>g'. updateProjectile canvas i g = Some g'
         \<and> bloodGauge (playerRef g')
             = bloodGauge (playerRef g) + of_int \<lfloor>15 * real_of_int (level (enemiesRef g ! j))\<rfloor>)"
  proof (intro impI, elim conjE)
    assume h: "i < length (projectilesRef g)" "truthy (fromPlayer (projectilesRef g ! i))"
      "(if truthy (homing (projectilesRef g ! i))
          then homingStep (enemiesRef g) (projectilesRef g ! i)
          else Some (projectilesRef g ! i)) = Some p1"
      "pr = p1\<lparr>x := x p1 + vx p1, y := y p1 + vy p1\<rparr>"
      "findHit pr (enemiesRef g) (length (enemiesRef g)) = Some j"
      and dead: "health (enemiesRef g ! j) - Projectile.damage pr \<le> 0"
    show "\<exists>g'. updateProjectile canvas i g = Some g'
         \<and> bloodGauge (playerRef g')
             = bloodGauge (playerRef g) + of_int \<lfloor>15 * real_of_int (level (enemiesRef g ! j))\<rfloor>"
      using updateProjectile_player_hit [OF h, of canvas] hitEnemy_kill [OF dead] by simp
  qed
  have c3: "k < length (enemiesRef g) \<and> inAttackRadius (playerRef g) (enemiesRef g ! k)
      \<and> health (enemiesRef g ! k) - attackDamage (playerRef g) \<le> 0 \<longrightarrow>
      autoAttackLoop k g
        = autoAttackLoop (Suc k)
            (g\<lparr>playerRef := (playerRef g)\<lparr>bloodGauge := bloodGauge (playerRef g)
                     + of_int \<lfloor>15 * real_of_int (level (enemiesRef g ! k))\<rfloor>\<rparr>,
               enemiesRef := take k (enemiesRef g) @ drop (Suc k) (enemiesRef g)\<rparr>)"
    using autoAttackLoop_kill [of k g] by (simp add: splice_def)
  have c4: "\<forall>B. \<exists>e. bloodGauge (playerRef (gameWith [e])) = 100
          \<and> B < bloodGauge (playerRef (hitEnemy pr 0 (gameWith [e])))"
    using unbounded by blast
  have c5: "\<forall>B. \<exists>e. bloodGauge (playerRef (gameWith [e])) = 100
          \<and> B < bloodGauge (playerRef (autoAttack 501 (gameWith [e])))"
    using unbounded by blast
  have c6: "healthPercent (playerRef g) \<le> 1"
    by (simp add: healthPercent_def)
  show ?thesis
    by (intro conjI c1 c2 c3 c4 c5 c6)
qed

text \<open>
  Claim C9, witness: a level 1 enemy with health 10 at \<open>(30, 40)\<close>, hit by a projectile
  of damage 15 that moves onto it, or struck by the auto-attack of damage 10: the gauge
  goes from 100 to 115.
\<close>

theorem kill_recovery_unclamped_witness:
  "health (enemiesRef ((gameWith [(enemyAt melee 30 40)\<lparr>health := 10\<rparr>])
                        \<lparr>projectilesRef := [shotAt 30 48]\<rparr>) ! 0)
      - Projectile.damage ((shotAt 30 48)\<lparr>x := x (shotAt 30 48) + vx (shotAt 30 48),
                                         y := y (shotAt 30 48) + vy (shotAt 30 48)\<rparr>) \<le> 0
   \<and> findHit ((shotAt 30 48)\<lparr>x := x (shotAt 30 48) + vx (shotAt 30 48),
                               y := y (shotAt 30 48) + vy (shotAt 30 48)\<rparr>)
        [(enemyAt melee 30 40)\<lparr>health := 10\<rparr>] 1 = Some 0
   \<and> bloodGauge (playerRef (hitEnemy
         ((shotAt 30 48)\<lparr>x := x (shotAt 30 48) + vx (shotAt 30 48),
                          y := y (shotAt 30 48) + vy (shotAt 30 48)\<rparr>) 0
         ((gameWith [(enemyAt melee 30 40)\<lparr>health := 10\<rparr>])\<lparr>projectilesRef := [shotAt 30 48]\<rparr>)))
       = 115
   \<and> (\<exists>g'. updateProjectile \<lparr>width = 800, height = 600\<rparr> 0
               ((gameWith [(enemyAt melee 30 40)\<lparr>health := 10\<rparr>])\<lparr>projectilesRef := [shotAt 30 48]\<rparr>)
             = Some g'
         \<and> bloodGauge (playerRef g') = 115)
   \<and> inAttackRadius initialPlayer ((enemyAt melee 30 40)\<lparr>health := 10\<rparr>)
   \<and> autoAttackLoop 0 (gameWith [(enemyAt melee 30 40)\<lparr>health := 10\<rparr>])
       = autoAttackLoop (Suc 0) ((gameWith [])\<lparr>playerRef := initialPlayer\<lparr>bloodGauge := 115\<rparr>\<rparr>)"
proof -
  let ?e = "(enemyAt melee 30 40)\<lparr>health := 10\<rparr>"
  let ?g = "(gameWith [?e])\<lparr>projectilesRef := [shotAt 30 48]\<rparr>"
  let ?pr = "(shotAt 30 48)\<lparr>x := x (shotAt 30 48) + vx (shotAt 30 48),
                            y := y (shotAt 30 48) + vy (shotAt 30 48)\<rparr>"
  have dead: "health (enemiesRef ?g ! 0) - Projectile.damage ?pr \<le> 0"
    by (simp add: gameWith_def enemyAt_def shotAt_def)
  have fh: "findHit ?pr [?e] 1 = Some 0"
    by (simp add: enemyAt_def shotAt_def)
  have hyp2: "0 < length (projectilesRef ?g) \<and> truthy (fromPlayer (projectilesRef ?g ! 0))
      \<and> (if truthy (homing (projectilesRef ?g ! 0))
          then homingStep (enemiesRef ?g) (projectilesRef ?g ! 0)
          else Some (projectilesRef ?g ! 0)) = Some (shotAt 30 48)
      \<and> ?pr = (shotAt 30 48)\<lparr>x := x (shotAt 30 48) + vx (shotAt 30 48),
                                y := y (shotAt 30 48) + vy (shotAt 30 48)\<rparr>
      \<and> findHit ?pr (enemiesRef ?g) (length (enemiesRef ?g)) = Some 0"
    using fh by (simp add: gameWith_def shotAt_def truthy_def)
  have inr: "inAttackRadius initialPlayer ?e"
    by (rule sample_in_radius)
  note T = kill_recovery_unclamped [of ?g 0 ?pr 0 "shotAt 30 48" "\<lparr>width = 800, height = 600\<rparr>" 0]
  have a: "bloodGauge (playerRef (hitEnemy ?pr 0 ?g)) = 115"
    using T dead by (simp add: gameWith_def enemyAt_def initialPlayer_def)
  have b: "\<exists>g'. updateProjectile \<lparr>width = 800, height = 600\<rparr> 0 ?g = Some g'
         \<and> bloodGauge (playerRef g') = 115"
    using T dead hyp2 by (simp add: gameWith_def enemyAt_def initialPlayer_def)
  have c: "autoAttackLoop 0 (gameWith [?e])
       = autoAttackLoop (Suc 0) ((gameWith [])\<lparr>playerRef := initialPlayer\<lparr>bloodGauge := 115\<rparr>\<rparr>)"
    using kill_recovery_unclamped [of "gameWith [?e]" 0 ?pr 0 "shotAt 30 48"
        "\<lparr>width = 800, height = 600\<rparr>" 0] inr
    by (simp add: gameWith_def enemyAt_def initialPlayer_def)
  show ?thesis using dead fh a b c inr by (simp add: gameWith_def)
qed

subsection \<open>The tick as a whole\<close>

text \<open>
  No tick faults: \<open>update\<close> always returns a state, so nowhere in a tick is a number
  divided by zero or an array read past its end. Each loop is entered with a count that
  is at most the length of its array, and its body keeps that so.
\<close>

lemma hurt_lists [simp]:
  "enemiesRef (hurt d g) = enemiesRef g" "projectilesRef (hurt d g) = projectilesRef g"
  by (simp_all add: hurt_def Let_def)

lemma hurt_player [simp]:
  "playerRef (hurt d g) = (playerRef g)\<lparr>bloodGauge := bloodGauge (playerRef g) - d\<rparr>"
  by (simp add: hurt_def Let_def)

lemma setEnemy_lists [simp]:
  "enemiesRef (setEnemy i e g) = (enemiesRef g)[i := e]"
  "projectilesRef (setEnemy i e g) = projectilesRef g"
  "playerRef (setEnemy i e g) = playerRef g"
  by (simp_all add: setEnemy_def)

lemma pushProjectile_lists [simp]:
  "enemiesRef (pushProjectile p g) = enemiesRef g"
  "projectilesRef (pushProjectile p g) = projectilesRef g @ [p]"
  "playerRef (pushProjectile p g) = playerRef g"
  by (simp_all add: pushProjectile_def)

lemma updateMelee_total:
  "\<exists>g'. updateMelee deltaTime i dx dy distance g = Some (False, g')
     \<and> length (enemiesRef g') = length (enemiesRef g)"
  by (simp add: updateMelee_def steerToward_eq Let_def)

lemma updateRanged_total:
  "\<exists>g'. updateRanged currentTime i dx dy distance g = Some (False, g')
     \<and> length (enemiesRef g') = length (enemiesRef g)"
  by (simp add: updateRanged_def steerToward_eq steerAway_eq enemyProjectileVelocity_eq Let_def)

lemma updateChaser_total:
  "\<exists>g'. updateChaser currentTime deltaTime i dx dy distance g = Some (False, g')
     \<and> length (enemiesRef g') = length (enemiesRef g)"
  by (simp add: updateChaser_def steerToward_eq enemyProjectileVelocity_eq Let_def)

lemma updateExplosive_total:
  assumes "i < length (enemiesRef g)"
  shows "\<exists>c g'. updateExplosive i dx dy distance g = Some (c, g')
     \<and> i \<le> length (enemiesRef g')"
proof (cases "truthy (exploded (enemiesRef g ! i))")
  case True
  then show ?thesis using assms by (auto simp: updateExplosive_exploded)
next
  case False
  show ?thesis
  proof (cases "distance < 80")
    case True
    show ?thesis
      using updateExplosive_trigger [OF False True, of dx dy] assms by auto
  next
    case far: False
    then have "80 \<le> distance" by simp
    from updateExplosive_approach [OF False this, of dx dy] assms
    show ?thesis by auto
  qed
qed

lemma updateEnemy_total:
  assumes "i < length (enemiesRef g)"
  shows "\<exists>g'. updateEnemy canvas currentTime deltaTime i g = Some g'
     \<and> i \<le> length (enemiesRef g')"
proof -
  let ?dx = "x (playerRef g) - x (enemiesRef g ! i)"
  let ?dy = "y (playerRef g) - y (enemiesRef g ! i)"
  let ?d = "sqrt (?dx * ?dx + ?dy * ?dy)"
  have "\<exists>c g1. (case type (enemiesRef g ! i) of
             melee \<Rightarrow> updateMelee deltaTime i ?dx ?dy ?d g
           | ranged \<Rightarrow> updateRanged currentTime i ?dx ?dy ?d g
           | explosive \<Rightarrow> updateExplosive i ?dx ?dy ?d g
           | chaser \<Rightarrow> updateChaser currentTime deltaTime i ?dx ?dy ?d g) = Some (c, g1)
        \<and> i \<le> length (enemiesRef g1)"
    using updateMelee_total [of deltaTime i ?dx ?dy ?d g]
      updateRanged_total [of currentTime i ?dx ?dy ?d g]
      updateChaser_total [of currentTime deltaTime i ?dx ?dy ?d g]
      updateExplosive_total [OF assms, of ?dx ?dy ?d] assms
    by (cases "type (enemiesRef g ! i)") auto
  then obtain c g1 where r: "(case type (enemiesRef g ! i) of
             melee \<Rightarrow> updateMelee deltaTime i ?dx ?dy ?d g
           | ranged \<Rightarrow> updateRanged currentTime i ?dx ?dy ?d g
           | explosive \<Rightarrow> updateExplosive i ?dx ?dy ?d g
           | chaser \<Rightarrow> updateChaser currentTime deltaTime i ?dx ?dy ?d g) = Some (c, g1)"
    and len: "i \<le> length (enemiesRef g1)" by blast
  show ?thesis
    using assms len by (simp add: updateEnemy_def Let_def r splice_def)
qed

lemma updateEnemies_total:
  "n \<le> length (enemiesRef g) \<Longrightarrow> \<exists>g'. updateEnemies canvas currentTime deltaTime n g = Some g'"
proof (induction n arbitrary: g)
  case 0
  then show ?case by simp
next
  case (Suc n)
  then have "n < length (enemiesRef g)" by simp
  from updateEnemy_total [OF this, of canvas currentTime deltaTime]
  obtain g1 where g1: "updateEnemy canvas currentTime deltaTime n g = Some g1"
    "n \<le> length (enemiesRef g1)" by blast
  from Suc.IH [OF g1(2)] g1(1) show ?case by simp
qed

lemma homingStep_total: "\<exists>p'. homingStep es p = Some p'"
  by (auto simp: homingStep_def Let_def split: option.splits)

lemma hitEnemy_projectiles [simp]: "projectilesRef (hitEnemy pr j g) = projectilesRef g"
  by (simp add: hitEnemy_def Let_def)

lemma updateProjectile_total:
  assumes "i < length (projectilesRef g)"
  shows "\<exists>g'. updateProjectile canvas i g = Some g' \<and> i \<le> length (projectilesRef g')"
proof -
  obtain p1 where p1: "(if truthy (fromPlayer (projectilesRef g ! i)) \<and> truthy (homing (projectilesRef g ! i))
               then homingStep (enemiesRef g) (projectilesRef g ! i)
               else Some (projectilesRef g ! i)) = Some p1"
    using homingStep_total [of "enemiesRef g" "projectilesRef g ! i"]
    by (cases "truthy (fromPlayer (projectilesRef g ! i)) \<and> truthy (homing (projectilesRef g ! i))")
      auto
  show ?thesis
    using assms
    by (auto simp add: updateProjectile_def p1 Let_def splice_def split: option.split)
qed

lemma updateProjectiles_total:
  "n \<le> length (projectilesRef g) \<Longrightarrow> \<exists>g'. updateProjectiles canvas n g = Some g'"
proof (induction n arbitrary: g)
  case 0
  then show ?case by simp
next
  case (Suc n)
  then have "n < length (projectilesRef g)" by simp
  from updateProjectile_total [OF this, of canvas]
  obtain g1 where g1: "updateProjectile canvas n g = Some g1"
    "n \<le> length (projectilesRef g1)" by blast
  from Suc.IH [OF g1(2)] g1(1) show ?case by simp
qed

lemma selectTargets_total: "\<exists>targets. selectTargets player es = Some targets"
proof -
  have "(0::real) < of_int (max (projectileCount player) 8)" by simp
  then have "checked_div (pi * 2) (of_int (max (projectileCount player) 8))
       = Some (pi * 2 / of_int (max (projectileCount player) 8))"
    by (rule checked_div_pos)
  then show ?thesis
    by (simp add: selectTargets_def Let_def)
qed

lemma shootProjectiles_total: "\<exists>g'. shootProjectiles currentTime g = Some g'"
proof -
  obtain targets where t: "selectTargets (playerRef g) (enemiesRef g) = Some targets"
    using selectTargets_total by blast
  obtain shots where s: "shootAll (playerRef g) targets = Some shots"
    using shootAll_nth [of "playerRef g" targets] by blast
  show ?thesis
    by (simp add: shootProjectiles_def Let_def t s)
qed

text \<open>The three ways in which a tick with a canvas ends.\<close>

lemma update_cases:
  assumes "update env deltaTime g = Some g'" and "canvasRef env = Some canvas"
  obtains (drained) "bloodGauge (playerRef (drainGauge deltaTime g)) \<le> 0"
      "g' = (drainGauge deltaTime g)\<lparr>gameState := gameover\<rparr>"
  | (caught) g3 where "0 < bloodGauge (playerRef (drainGauge deltaTime g))"
      "shootProjectiles (nowShoot env)
         ((drainGauge deltaTime g)\<lparr>playerRef := handleKeys env (playerRef (drainGauge deltaTime g))\<rparr>)
        = Some g3"
      "darknessYRef (advancePlayer canvas g3) \<le> y (playerRef (advancePlayer canvas g3))"
      "g' = (advancePlayer canvas g3)\<lparr>gameState := gameover\<rparr>"
  | (ran) g3 g6 g7 g8 where "0 < bloodGauge (playerRef (drainGauge deltaTime g))"
      "shootProjectiles (nowShoot env)
         ((drainGauge deltaTime g)\<lparr>playerRef := handleKeys env (playerRef (drainGauge deltaTime g))\<rparr>)
        = Some g3"
      "y (playerRef (advancePlayer canvas g3)) < darknessYRef (advancePlayer canvas g3)"
      "g6 = spawnIfDue env (nowTick env)
              ((advancePlayer canvas g3)\<lparr>scoreState :=
                  max 0 \<lfloor>- cameraYRef (advancePlayer canvas g3) / 10\<rfloor>\<rparr>)"
      "updateEnemies canvas (nowTick env) deltaTime (length (enemiesRef g6)) g6 = Some g7"
      "updateProjectiles canvas (length (projectilesRef g7)) g7 = Some g8"
      "g' = autoAttack (nowTick env) g8"
proof (cases "bloodGauge (playerRef (drainGauge deltaTime g)) \<le> 0")
  case True
  then show ?thesis
    using assms drained by (simp add: update_def Let_def)
next
  case False
  then have alive: "0 < bloodGauge (playerRef (drainGauge deltaTime g))" by simp
  from assms False obtain g3 where g3: "shootProjectiles (nowShoot env)
         ((drainGauge deltaTime g)\<lparr>playerRef := handleKeys env (playerRef (drainGauge deltaTime g))\<rparr>)
        = Some g3"
    by (auto simp: update_def Let_def bind_eq_Some_conv)
  show ?thesis
  proof (cases "darknessYRef (advancePlayer canvas g3) \<le> y (playerRef (advancePlayer canvas g3))")
    case True
    then show ?thesis
      using assms False g3 caught [OF alive g3] by (simp add: update_def Let_def)
  next
    case light: False
    define g6 where "g6 = spawnIfDue env (nowTick env)
              ((advancePlayer canvas g3)\<lparr>scoreState :=
                  max 0 \<lfloor>- cameraYRef (advancePlayer canvas g3) / 10\<rfloor>\<rparr>)"
    from assms False g3 light
    have "updateEnemies canvas (nowTick env) deltaTime (length (enemiesRef g6)) g6
            \<bind> (\<lambda>g7. updateProjectiles canvas (length (projectilesRef g7)) g7
            \<bind> (\<lambda>g8. Some (autoAttack (nowTick env) g8))) = Some g'"
      by (simp add: update_def Let_def g6_def)
    then obtain g7 g8 where
      "updateEnemies canvas (nowTick env) deltaTime (length (enemiesRef g6)) g6 = Some g7"
      "updateProjectiles canvas (length (projectilesRef g7)) g7 = Some g8"
      "g' = autoAttack (nowTick env) g8"
      by (auto simp: bind_eq_Some_conv)
    then show ?thesis
      using ran [OF alive g3 _ g6_def] light by simp
  qed
qed

theorem update_total: "\<exists>g'. update env deltaTime g = Some g'"
proof (cases "canvasRef env")
  case None
  then show ?thesis by (simp add: update_def)
next
  case (Some canvas)
  let ?g1 = "drainGauge deltaTime g"
  show ?thesis
  proof (cases "bloodGauge (playerRef ?g1) \<le> 0")
    case True
    then show ?thesis using Some by (simp add: update_def Let_def)
  next
    case alive: False
    obtain g3 where g3: "shootProjectiles (nowShoot env)
         (?g1\<lparr>playerRef := handleKeys env (playerRef ?g1)\<rparr>) = Some g3"
      using shootProjectiles_total by blast
    define g6 where "g6 = spawnIfDue env (nowTick env)
              ((advancePlayer canvas g3)\<lparr>scoreState :=
                  max 0 \<lfloor>- cameraYRef (advancePlayer canvas g3) / 10\<rfloor>\<rparr>)"
    obtain g7 where g7: "updateEnemies canvas (nowTick env) deltaTime (length (enemiesRef g6)) g6 = Some g7"
      using updateEnemies_total [of "length (enemiesRef g6)" g6] by blast
    obtain g8 where g8: "updateProjectiles canvas (length (projectilesRef g7)) g7 = Some g8"
      using updateProjectiles_total [of "length (projectilesRef g7)" g7] by blast
    show ?thesis
      using Some alive g3 g7 [unfolded g6_def] g8
      by (simp add: update_def Let_def)
  qed
qed

text \<open>
  One whole tick, computed: the initial player, one explosive enemy at \<open>(50, 40)\<close>, a
  tick of 16 ms. The gauge drains by 0.016, the player is moved into the canvas at
  \<open>x = 20\<close>, the camera and the darkness follow, the score becomes 30, the enemy at
  distance 50 explodes for 7.5 and is removed, and the auto-attack, due, finds no enemy.
\<close>

lemma tick_example:
  "update quietEnv 16 (gameWith [enemyAt explosive 50 40])
     = Some ((gameWith [])\<lparr>playerRef := initialPlayer\<lparr>x := 20, bloodGauge := 92.484,
                                              lastAttackTime := 501\<rparr>,
                cameraYRef := - 300, darknessYRef := 199.5, scoreState := 30\<rparr>)"
proof -
  define c where "c = \<lparr>width = 800, height = 600\<rparr>"
  define g0 where "g0 = gameWith [enemyAt explosive 50 40]"
  define g2 where "g2 = g0\<lparr>playerRef := initialPlayer\<lparr>bloodGauge := 99.984\<rparr>\<rparr>"
  define g4 where "g4 = g0\<lparr>playerRef := initialPlayer\<lparr>x := 20, bloodGauge := 99.984\<rparr>,
        cameraYRef := - 300, darknessYRef := 199.5\<rparr>"
  define g6 where "g6 = g4\<lparr>scoreState := 30\<rparr>"
  define g7 where "g7 = (gameWith [])
      \<lparr>playerRef := initialPlayer\<lparr>x := 20, bloodGauge := 92.484\<rparr>,
        cameraYRef := - 300, darknessYRef := 199.5, scoreState := 30\<rparr>"
  have cv: "canvasRef quietEnv = Some c" by (simp add: quietEnv_def c_def)
  have s1: "drainGauge 16 g0 = g0\<lparr>playerRef := initialPlayer\<lparr>bloodGauge := 99.984\<rparr>\<rparr>"
    by (simp add: drainGauge_def g0_def gameWith_def initialPlayer_def Let_def game_constants)
  have s2: "(drainGauge 16 g0)\<lparr>playerRef := handleKeys quietEnv (playerRef (drainGauge 16 g0))\<rparr> = g2"
    unfolding s1
    by (simp add: g2_def handleKeys_def g0_def gameWith_def initialPlayer_def quietEnv_def Let_def
        moveSpeed_def game_constants)
  have alive: "\<not> bloodGauge (playerRef (drainGauge 16 g0)) \<le> 0"
    unfolding s1 by simp
  have s3: "shootProjectiles (nowShoot quietEnv) g2 = Some g2"
    by (simp add: g2_def g0_def shootProjectiles_def Let_def gameWith_def initialPlayer_def)
  have s4: "advancePlayer c g2 = g4"
    by (simp add: g2_def g4_def g0_def c_def advancePlayer_def movePlayer_def Let_def gameWith_def
        initialPlayer_def game_constants)
  have light: "\<not> darknessYRef g4 \<le> y (playerRef g4)"
    by (simp add: g4_def initialPlayer_def)
  have s5: "g4\<lparr>scoreState := max 0 \<lfloor>- (cameraYRef g4 / 10)\<rfloor>\<rparr> = g6"
    by (simp add: g4_def g6_def)
  have s6: "spawnIfDue quietEnv (nowTick quietEnv) g6 = g6"
    by (simp add: spawnIfDue_def g6_def g4_def g0_def gameWith_def quietEnv_def)
  have len: "length (enemiesRef g6) = Suc 0" "enemiesRef g6 ! 0 = enemyAt explosive 50 40"
    "playerRef g6 = initialPlayer\<lparr>x := 20, bloodGauge := 99.984\<rparr>"
    by (simp_all add: g6_def g4_def g0_def gameWith_def)
  have d: "sqrt ((x (playerRef g6) - x (enemiesRef g6 ! 0)) * (x (playerRef g6) - x (enemiesRef g6 ! 0))
                + (y (playerRef g6) - y (enemiesRef g6 ! 0)) * (y (playerRef g6) - y (enemiesRef g6 ! 0))) = 50"
    unfolding len by (simp add: enemyAt_def initialPlayer_def)
  have ne: "\<not> truthy (exploded (enemiesRef g6 ! 0))"
    unfolding len by (simp add: enemyAt_def truthy_def)
  have ty: "type (enemiesRef g6 ! 0) = explosive"
    unfolding len by (simp add: enemyAt_def)
  have i0: "0 < length (enemiesRef g6)" unfolding len by simp
  have trig: "updateExplosive 0 (x (playerRef g6) - x (enemiesRef g6 ! 0))
                (y (playerRef g6) - y (enemiesRef g6 ! 0)) 50 g6 = Some (True, g7)"
    unfolding updateExplosive_trigger [OF ne, of 50, simplified]
    unfolding len
    by (simp add: g7_def g6_def g4_def g0_def gameWith_def enemyAt_def initialPlayer_def
        or_default_def hurt_def Let_def splice_def)
  have s7: "updateEnemy c (nowTick quietEnv) 16 0 g6 = Some g7"
    unfolding updateEnemy_explosive [OF i0 ty] d trig by simp
  have s7': "updateEnemies c (nowTick quietEnv) 16 (length (enemiesRef g6)) g6 = Some g7"
    unfolding len by (simp add: s7)
  have s8: "updateProjectiles c (length (projectilesRef g7)) g7 = Some g7"
    by (simp add: g7_def gameWith_def)
  have s9: "autoAttack (nowTick quietEnv) g7 = g7\<lparr>playerRef := initialPlayer\<lparr>x := 20, bloodGauge := 92.484,
                                              lastAttackTime := 501\<rparr>\<rparr>"
    by (simp add: autoAttack_def Let_def autoAttackLoop_done g7_def gameWith_def initialPlayer_def
        quietEnv_def)
  have "update quietEnv 16 g0 = Some (autoAttack (nowTick quietEnv) g7)"
    unfolding update_def cv option.case Let_def s2
    using alive light by (simp add: s3 s4 s5 s6 s7' s8)
  then show ?thesis
    unfolding s9 by (simp add: g0_def g7_def)
qed

subsection \<open>Enemies stay as the spawn built them\<close>

lemma spawnEnemy_asSpawned: "asSpawned (fst (spawnEnemy canvas p score rnd now k))"
  by (simp only: spawnEnemy_def Let_def split_def fst_conv asSpawned_def Enemy.select_convs)
    simp

lemma spawnEnemyWave_asSpawned:
  assumes "list_all asSpawned es"
  shows "list_all asSpawned (spawnEnemyWave cv p score rnd clock es)"
proof (cases cv)
  case None
  then show ?thesis using assms by (simp add: spawnEnemyWave_def)
next
  case (Some canvas)
  obtain new where "spawnEnemyWave (Some canvas) p score rnd clock es = es @ new"
    "list_all asSpawned new"
    using spawnEnemyWave_appends [of asSpawned canvas p score rnd clock es] spawnEnemy_asSpawned
    by blast
  then show ?thesis using assms Some by simp
qed

lemma list_all_update:
  "list_all P xs \<Longrightarrow> P v \<Longrightarrow> list_all P (xs[i := v])"
  by (metis (full_types) insert_iff list_all_iff set_update_subset_insert subsetD)

lemma list_all_splice: "list_all P xs \<Longrightarrow> list_all P (splice i xs)"
  by (auto simp: splice_def list_all_iff dest: in_set_takeD in_set_dropD)

lemma list_all_nth: "list_all P xs \<Longrightarrow> i < length xs \<Longrightarrow> P (xs ! i)"
  by (simp add: list_all_length)

lemma asSpawned_moved [simp]:
  "asSpawned (enemy\<lparr>vx := a\<rparr>) = asSpawned enemy"
  "asSpawned (enemy\<lparr>vy := a\<rparr>) = asSpawned enemy"
  "asSpawned (enemy\<lparr>x := a\<rparr>) = asSpawned enemy"
  "asSpawned (enemy\<lparr>y := a\<rparr>) = asSpawned enemy"
  "asSpawned (enemy\<lparr>health := a\<rparr>) = asSpawned enemy"
  "asSpawned (enemy\<lparr>lastShootTime := t\<rparr>) = asSpawned enemy"
  "asSpawned (enemy\<lparr>lastTrailTime := t\<rparr>) = asSpawned enemy"
  by (simp_all add: asSpawned_def)

lemma asSpawned_integrate [simp]: "asSpawned (integrate enemy) = asSpawned enemy"
  by (simp add: integrate_def)

lemma updateMelee_asSpawned:
  assumes "updateMelee deltaTime i dx dy distance g = Some (c, g')"
    and "list_all asSpawned (enemiesRef g)" and "i < length (enemiesRef g)"
  shows "list_all asSpawned (enemiesRef g')"
  using assms list_all_nth [OF assms(2,3)]
  by (auto simp: updateMelee_def steerToward_eq Let_def intro!: list_all_update split: if_splits)

lemma updateRanged_asSpawned:
  assumes "updateRanged currentTime i dx dy distance g = Some (c, g')"
    and "list_all asSpawned (enemiesRef g)" and "i < length (enemiesRef g)"
  shows "list_all asSpawned (enemiesRef g')"
  using assms list_all_nth [OF assms(2,3)]
  by (auto simp: updateRanged_def steerToward_eq steerAway_eq enemyProjectileVelocity_eq Let_def
      intro!: list_all_update split: if_splits)

lemma updateChaser_asSpawned:
  assumes "updateChaser currentTime deltaTime i dx dy distance g = Some (c, g')"
    and "list_all asSpawned (enemiesRef g)" and "i < length (enemiesRef g)"
  shows "list_all asSpawned (enemiesRef g')"
  using assms list_all_nth [OF assms(2,3)]
  by (auto simp: updateChaser_def steerToward_eq enemyProjectileVelocity_eq Let_def
      intro!: list_all_update split: if_splits)

lemma updateExplosive_asSpawned:
  assumes "updateExplosive i dx dy distance g = Some (c, g')"
    and "list_all asSpawned (enemiesRef g)" and "i < length (enemiesRef g)"
  shows "list_all asSpawned (enemiesRef g')"
proof (cases "truthy (exploded (enemiesRef g ! i))")
  case True
  then show ?thesis using assms by (simp add: updateExplosive_exploded)
next
  case False
  show ?thesis
  proof (cases "distance < 80")
    case True
    show ?thesis
      using updateExplosive_trigger [OF False True, of dx dy] assms
      by (auto intro: list_all_splice)
  next
    case far: False
    then have "80 \<le> distance" by simp
    from updateExplosive_approach [OF False this, of dx dy] assms list_all_nth [OF assms(2,3)]
    show ?thesis by (auto simp: steerToward_eq intro!: list_all_update)
  qed
qed

lemma updateEnemy_asSpawned:
  assumes "updateEnemy canvas currentTime deltaTime i g = Some g'"
    and "list_all asSpawned (enemiesRef g)"
  shows "list_all asSpawned (enemiesRef g')"
proof -
  have i: "i < length (enemiesRef g)"
    using assms(1) by (simp add: updateEnemy_def split: if_splits)
  let ?dx = "x (playerRef g) - x (enemiesRef g ! i)"
  let ?dy = "y (playerRef g) - y (enemiesRef g ! i)"
  let ?d = "sqrt (?dx * ?dx + ?dy * ?dy)"
  let ?r = "case type (enemiesRef g ! i) of
             melee \<Rightarrow> updateMelee deltaTime i ?dx ?dy ?d g
           | ranged \<Rightarrow> updateRanged currentTime i ?dx ?dy ?d g
           | explosive \<Rightarrow> updateExplosive i ?dx ?dy ?d g
           | chaser \<Rightarrow> updateChaser currentTime deltaTime i ?dx ?dy ?d g"
  obtain c g1 where r: "?r = Some (c, g1)"
    using assms(1) i by (cases ?r) (auto simp: updateEnemy_def Let_def)
  have "list_all asSpawned (enemiesRef g1)"
    using r updateMelee_asSpawned [OF _ assms(2) i] updateRanged_asSpawned [OF _ assms(2) i]
      updateChaser_asSpawned [OF _ assms(2) i] updateExplosive_asSpawned [OF _ assms(2) i]
    by (cases "type (enemiesRef g ! i)") auto
  then show ?thesis
    using assms(1) i r by (auto simp: updateEnemy_def Let_def intro: list_all_splice split: if_splits)
qed

lemma updateEnemies_asSpawned:
  "updateEnemies canvas currentTime deltaTime n g = Some g' \<Longrightarrow> list_all asSpawned (enemiesRef g)
     \<Longrightarrow> list_all asSpawned (enemiesRef g')"
proof (induction n arbitrary: g)
  case 0
  then show ?case by simp
next
  case (Suc n)
  then obtain g1 where g1: "updateEnemy canvas currentTime deltaTime n g = Some g1"
    "updateEnemies canvas currentTime deltaTime n g1 = Some g'"
    by (auto simp: bind_eq_Some_conv)
  from Suc.IH [OF g1(2) updateEnemy_asSpawned [OF g1(1) Suc.prems(2)]] show ?case .
qed

lemma hitEnemy_asSpawned:
  assumes "list_all asSpawned (enemiesRef g)" and "j < length (enemiesRef g)"
  shows "list_all asSpawned (enemiesRef (hitEnemy pr j g))"
  using assms list_all_nth [OF assms]
  by (auto simp: hitEnemy_def Let_def intro!: list_all_update list_all_splice)

lemma updateProjectile_asSpawned:
  assumes "updateProjectile canvas i g = Some g'"
    and "list_all asSpawned (enemiesRef g)"
  shows "list_all asSpawned (enemiesRef g')"
proof -
  have i: "i < length (projectilesRef g)"
    using assms(1) by (simp add: updateProjectile_def split: if_splits)
  obtain p1 where p1: "(if truthy (fromPlayer (projectilesRef g ! i)) \<and> truthy (homing (projectilesRef g ! i))
               then homingStep (enemiesRef g) (projectilesRef g ! i)
               else Some (projectilesRef g ! i)) = Some p1"
    using homingStep_total [of "enemiesRef g" "projectilesRef g ! i"]
    by (cases "truthy (fromPlayer (projectilesRef g ! i)) \<and> truthy (homing (projectilesRef g ! i))")
      auto
  have hit: "list_all asSpawned (enemiesRef (hitEnemy pr j (g\<lparr>projectilesRef := ps\<rparr>)))"
    if "findHit pr (enemiesRef g) (length (enemiesRef g)) = Some j" for pr j ps
    using hitEnemy_asSpawned [of "g\<lparr>projectilesRef := ps\<rparr>" j pr] assms(2) findHit_Some [OF that]
    by simp
  show ?thesis
    using assms i hit
    by (auto simp add: updateProjectile_def p1 Let_def split: option.splits if_splits)
qed

lemma updateProjectiles_asSpawned:
  "updateProjectiles canvas n g = Some g' \<Longrightarrow> list_all asSpawned (enemiesRef g)
     \<Longrightarrow> list_all asSpawned (enemiesRef g')"
proof (induction n arbitrary: g)
  case 0
  then show ?case by simp
next
  case (Suc n)
  then obtain g1 where g1: "updateProjectile canvas n g = Some g1"
    "updateProjectiles canvas n g1 = Some g'"
    by (auto simp: bind_eq_Some_conv)
  from Suc.IH [OF g1(2) updateProjectile_asSpawned [OF g1(1) Suc.prems(2)]] show ?case .
qed

lemma autoAttackLoop_asSpawned:
  "list_all asSpawned (enemiesRef g) \<Longrightarrow> list_all asSpawned (enemiesRef (autoAttackLoop k g))"
proof (induction "length (enemiesRef g) - k" arbitrary: k g rule: less_induct)
  case less
  show ?case
  proof (cases "k < length (enemiesRef g)")
    case False
    then show ?thesis using less.prems by (simp add: autoAttackLoop_done)
  next
    case k: True
    have ek: "asSpawned (enemiesRef g ! k)" using less.prems k by (rule list_all_nth)
    show ?thesis
    proof (cases "inAttackRadius (playerRef g) (enemiesRef g ! k)")
      case False
      have "length (enemiesRef g) - Suc k < length (enemiesRef g) - k" using k by simp
      from less.hyps [OF this less.prems] show ?thesis
        by (simp add: autoAttackLoop_miss [OF k False])
    next
      case True
      show ?thesis
      proof (cases "0 < health (enemiesRef g ! k) - attackDamage (playerRef g)")
        case alive: True
        let ?g1 = "setEnemy k (struck (playerRef g) (enemiesRef g ! k)) g"
        have a: "list_all asSpawned (enemiesRef ?g1)"
          using less.prems ek by (simp add: struck_def list_all_update)
        have b: "length (enemiesRef ?g1) - Suc k < length (enemiesRef g) - k" using k by simp
        from less.hyps [OF b a] show ?thesis
          by (simp add: autoAttackLoop_hit [OF k True alive])
      next
        case False
        then have dead: "health (enemiesRef g ! k) - attackDamage (playerRef g) \<le> 0" by simp
        let ?g1 = "g\<lparr>playerRef := (playerRef g)\<lparr>bloodGauge := bloodGauge (playerRef g)
                                 + of_int \<lfloor>15 * real_of_int (level (enemiesRef g ! k))\<rfloor>\<rparr>,
               enemiesRef := splice k (enemiesRef g)\<rparr>"
        have a: "list_all asSpawned (enemiesRef ?g1)"
          using less.prems by (simp add: list_all_splice)
        have b: "length (enemiesRef ?g1) - Suc k < length (enemiesRef g) - k" using k by simp
        from less.hyps [OF b a] show ?thesis
          by (simp add: autoAttackLoop_kill [OF k True dead])
      qed
    qed
  qed
qed

lemma shootProjectiles_enemies:
  "shootProjectiles currentTime g = Some g' \<Longrightarrow> enemiesRef g' = enemiesRef g"
  by (auto simp: shootProjectiles_def Let_def bind_eq_Some_conv split: if_splits)

text \<open>
  A tick keeps every enemy of the list as the spawn built it; the list of a new run is
  empty.
\<close>

theorem update_asSpawned:
  assumes "update env deltaTime g = Some g'"
    and "list_all asSpawned (enemiesRef g)"
  shows "list_all asSpawned (enemiesRef g')"
proof (cases "canvasRef env")
  case None
  then show ?thesis using assms by (simp add: update_def)
next
  case (Some canvas)
  from assms(1) Some show ?thesis
  proof (cases rule: update_cases)
    case drained
    then show ?thesis using assms(2) by (simp add: drainGauge_def Let_def)
  next
    case (caught g3)
    then show ?thesis
      using assms(2) shootProjectiles_enemies [OF caught(2)]
      by (simp add: drainGauge_def advancePlayer_def Let_def)
  next
    case (ran g3 g6 g7 g8)
    have "enemiesRef g3 = enemiesRef g"
      using shootProjectiles_enemies [OF ran(2)] by (simp add: drainGauge_def Let_def)
    then have "list_all asSpawned (enemiesRef g6)"
      using assms(2) spawnEnemyWave_asSpawned
      by (simp add: ran(4) spawnIfDue_def advancePlayer_def Let_def)
    then have "list_all asSpawned (enemiesRef g7)"
      using updateEnemies_asSpawned [OF ran(5)] by simp
    then have "list_all asSpawned (enemiesRef g8)"
      using updateProjectiles_asSpawned [OF ran(6)] by simp
    then show ?thesis
      using autoAttackLoop_asSpawned [of g8 0]
      by (simp add: ran(7) autoAttack_def Let_def)
  qed
qed

subsection \<open>Contact damage\<close>

text \<open>
  For contrast with the explosive enemy: a melee or a chaser enemy that overlaps the
  player takes \<open>enemyDamage * deltaTime / 1000\<close> from the gauge in every tick.
\<close>

lemma contact_damage:
  assumes i: "i < length (enemiesRef g)"
    and ty: "type (enemiesRef g ! i) = melee \<or> type (enemiesRef g ! i) = chaser"
    and d: "d = sqrt ((x (playerRef g) - x (enemiesRef g ! i)) * (x (playerRef g) - x (enemiesRef g ! i))
                + (y (playerRef g) - y (enemiesRef g ! i)) * (y (playerRef g) - y (enemiesRef g ! i)))"
    and touch: "d < radius (playerRef g) + radius (enemiesRef g ! i)"
  shows "\<exists>g'. updateEnemy canvas currentTime deltaTime i g = Some g'
     \<and> bloodGauge (playerRef g')
         = bloodGauge (playerRef g) - Enemy.damage (enemiesRef g ! i) * (deltaTime / 1000)"
proof -
  let ?dx = "x (playerRef g) - x (enemiesRef g ! i)"
  let ?dy = "y (playerRef g) - y (enemiesRef g ! i)"
  have m: "\<exists>g1. updateMelee deltaTime i ?dx ?dy d g = Some (False, g1)
     \<and> bloodGauge (playerRef g1)
         = bloodGauge (playerRef g) - Enemy.damage (enemiesRef g ! i) * (deltaTime / 1000)"
    using touch by (simp add: updateMelee_def steerToward_eq Let_def integrate_def)
  have c: "\<exists>g1. updateChaser currentTime deltaTime i ?dx ?dy d g = Some (False, g1)
     \<and> bloodGauge (playerRef g1)
         = bloodGauge (playerRef g) - Enemy.damage (enemiesRef g ! i) * (deltaTime / 1000)"
    using touch
    by (simp add: updateChaser_def steerToward_eq enemyProjectileVelocity_eq Let_def integrate_def)
  obtain g1 where g1:
    "(case type (enemiesRef g ! i) of
             melee \<Rightarrow> updateMelee deltaTime i ?dx ?dy d g
           | ranged \<Rightarrow> updateRanged currentTime i ?dx ?dy d g
           | explosive \<Rightarrow> updateExplosive i ?dx ?dy d g
           | chaser \<Rightarrow> updateChaser currentTime deltaTime i ?dx ?dy d g) = Some (False, g1)"
    "bloodGauge (playerRef g1)
         = bloodGauge (playerRef g) - Enemy.damage (enemiesRef g ! i) * (deltaTime / 1000)"
    using ty m c by (cases "type (enemiesRef g ! i)") auto
  show ?thesis
    using i g1 [unfolded d] by (simp add: updateEnemy_def Let_def)
qed

subsection \<open>What an activation of the auto-attack leaves in the list\<close>

text \<open>
  The upgrades bought with blood do not enter the range test or the damage dealt, so
  the blood granted by a kill in the middle of an activation does not change how the
  enemies after it are treated.
\<close>

lemma inAttackRadius_gauge [simp]:
  "inAttackRadius (p\<lparr>bloodGauge := b\<rparr>) e = inAttackRadius p e"
  by (simp add: inAttackRadius_def)

lemma struck_gauge [simp]: "struck (p\<lparr>bloodGauge := b\<rparr>) e = struck p e"
  by (simp add: struck_def)

text \<open>Facts about lists used below.\<close>

lemma set_drop_step:
  "e \<in> set (drop k xs) \<Longrightarrow> e = xs ! k \<or> e \<in> set (drop (Suc k) xs)"
proof (cases "k < length xs")
  case True
  assume "e \<in> set (drop k xs)"
  then show ?thesis using True by (simp add: Cons_nth_drop_Suc [symmetric])
next
  case False
  assume "e \<in> set (drop k xs)"
  then show ?thesis using False by simp
qed

lemma nth_from_take:
  "take (Suc k) xs = take (Suc k) ys \<Longrightarrow> k < length ys \<Longrightarrow> xs ! k = ys ! k"
  by (metis lessI nth_take)

lemma drop_Suc_splice: "drop (Suc k) (splice k xs) = drop (Suc (Suc k)) xs"
  by (cases "k < length xs") (simp_all add: splice_def min_def)

text \<open>
  Every enemy that stands in the list from index \<open>k\<close> on after the loop has run from
  \<open>k\<close> either stood there before, untouched, or stood there within the attack radius,
  was struck, and has health left. So no enemy that the attack brought to 0 health or
  below stays in the list; the enemies passed over after a removal are among the
  untouched ones.
\<close>

lemma autoAttackLoop_survivors:
  assumes "e' \<in> set (drop k (enemiesRef (autoAttackLoop k g)))"
  shows "e' \<in> set (drop k (enemiesRef g))
       \<or> (\<exists>e \<in> set (drop k (enemiesRef g)).
            inAttackRadius (playerRef g) e \<and> e' = struck (playerRef g) e \<and> 0 < health e')"
  using assms
proof (induction "length (enemiesRef g) - k" arbitrary: k g rule: less_induct)
  case less
  let ?es = "enemiesRef g"
  let ?p = "playerRef g"
  show ?case
  proof (cases "k < length ?es")
    case False
    then show ?thesis using less.prems by (simp add: autoAttackLoop_done)
  next
    case k: True
    have dk: "drop k ?es = ?es ! k # drop (Suc k) ?es"
      using k by (simp add: Cons_nth_drop_Suc)
    show ?thesis
    proof (cases "inAttackRadius ?p (?es ! k)")
      case False
      let ?res = "enemiesRef (autoAttackLoop (Suc k) g)"
      have eq: "autoAttackLoop k g = autoAttackLoop (Suc k) g"
        using k False by (rule autoAttackLoop_miss)
      have m: "length ?es - Suc k < length ?es - k" using k by simp
      from less.prems have "e' = ?res ! k \<or> e' \<in> set (drop (Suc k) ?res)"
        unfolding eq by (rule set_drop_step)
      then show ?thesis
      proof
        assume "e' = ?res ! k"
        moreover have "?res ! k = ?es ! k"
          using autoAttackLoop_prefix [of "Suc k" g] k by (rule nth_from_take)
        ultimately show ?thesis by (simp add: dk)
      next
        assume "e' \<in> set (drop (Suc k) ?res)"
        from less.hyps [OF m this] show ?thesis by (auto simp: dk)
      qed
    next
      case True
      show ?thesis
      proof (cases "0 < health (?es ! k) - attackDamage ?p")
        case alive: True
        let ?g1 = "setEnemy k (struck ?p (?es ! k)) g"
        let ?res = "enemiesRef (autoAttackLoop (Suc k) ?g1)"
        have g1: "playerRef ?g1 = ?p" "enemiesRef ?g1 = ?es[k := struck ?p (?es ! k)]"
          by (simp_all add: setEnemy_def)
        have eq: "autoAttackLoop k g = autoAttackLoop (Suc k) ?g1"
          using k True alive by (rule autoAttackLoop_hit)
        have m: "length (enemiesRef ?g1) - Suc k < length ?es - k" using k by (simp add: g1)
        from less.prems have "e' = ?res ! k \<or> e' \<in> set (drop (Suc k) ?res)"
          unfolding eq by (rule set_drop_step)
        then show ?thesis
        proof
          assume "e' = ?res ! k"
          moreover have "?res ! k = enemiesRef ?g1 ! k"
            using autoAttackLoop_prefix [of "Suc k" ?g1] k by (intro nth_from_take) (simp_all add: g1)
          ultimately have "e' = struck ?p (?es ! k)" using k by (simp add: g1)
          then show ?thesis using True alive by (auto simp: dk struck_def)
        next
          assume "e' \<in> set (drop (Suc k) ?res)"
          from less.hyps [OF m this] show ?thesis by (auto simp: dk g1)
        qed
      next
        case False
        then have dead: "health (?es ! k) - attackDamage ?p \<le> 0" by simp
        let ?g1 = "g\<lparr>playerRef := ?p\<lparr>bloodGauge := bloodGauge ?p
                                 + of_int \<lfloor>15 * real_of_int (level (?es ! k))\<rfloor>\<rparr>,
               enemiesRef := splice k ?es\<rparr>"
        let ?res = "enemiesRef (autoAttackLoop (Suc k) ?g1)"
        have eq: "autoAttackLoop k g = autoAttackLoop (Suc k) ?g1"
          using k True dead by (rule autoAttackLoop_kill)
        have m: "length (enemiesRef ?g1) - Suc k < length ?es - k" using k by simp
        have sub: "set (drop (Suc (Suc k)) ?es) \<subseteq> set (drop (Suc k) ?es)"
          by (metis drop_Suc set_drop_subset tl_drop drop_drop plus_1_eq_Suc)
        from less.prems have "e' = ?res ! k \<or> e' \<in> set (drop (Suc k) ?res)"
          unfolding eq by (rule set_drop_step)
        then show ?thesis
        proof
          assume a: "e' = ?res ! k"
          show ?thesis
          proof (cases "Suc k < length ?es")
            case True
            have "?res ! k = enemiesRef ?g1 ! k"
              using autoAttackLoop_prefix [of "Suc k" ?g1] True
              by (intro nth_from_take) simp_all
            then have "e' = ?es ! Suc k" using a True by (simp add: splice_nth)
            then have "e' \<in> set (drop (Suc k) ?es)"
              using True by (metis Cons_nth_drop_Suc list.set_intros(1))
            then show ?thesis by (simp add: dk)
          next
            case False
            then have "length (enemiesRef ?g1) = k" using k by simp
            then have "\<not> Suc k < length (enemiesRef ?g1)" by simp
            then have "autoAttackLoop (Suc k) ?g1 = ?g1" by (rule autoAttackLoop_done)
            then have "drop k (enemiesRef (autoAttackLoop k g)) = []"
              using \<open>length (enemiesRef ?g1) = k\<close> by (simp add: eq)
            then show ?thesis using less.prems by simp
          qed
        next
          assume "e' \<in> set (drop (Suc k) ?res)"
          from less.hyps [OF m this] sub show ?thesis
            by (auto simp: dk drop_Suc_splice)
        qed
      qed
    qed
  qed
qed

end
